(* ===== verification/Prelude.thy ===== *)
theory Prelude
  imports Main "HOL-Library.Word" "HOL-Library.Sublist" "HOL-Library.Product_Lexorder"
begin

text \<open>
  Shared vocabulary of the development: the exception-and-state discipline every service
  function of \<open>app/services\<close> is written in, keyed tables (lookup, replacement and
  deletion by primary key on a list of rows), pagination, and the small part of Python's
  \<open>str\<close> the program uses. Strings are Python strings whose code points are below 256,
  one \<open>char\<close> per code point.
\<close>

section \<open>Collections of automation\<close>

named_theorems svc_simps \<open>unfolding of the exception and state combinators\<close>
named_theorems keeps_intros \<open>preservation of a state predicate by service code\<close>
named_theorems quiet_intros \<open>service code that commits nothing\<close>
named_theorems safe_intros \<open>service code that leaves the committed store alone when it raises\<close>

section \<open>Service code: a state, and a result or an exception\<close>

text \<open>
  A service call takes the state and returns an exception (\<open>Inl\<close>) or a value
  (\<open>Inr\<close>), together with the state it leaves. A raise keeps the effects made before it:
  undoing them is the business of the transaction, not of the exception.
\<close>

type_synonym ('s, 'e, 'a) svc = "'s \<Rightarrow> ('e + 'a) \<times> 's"

definition returnE :: "'a \<Rightarrow> ('s, 'e, 'a) svc" where
  "returnE x s = (Inr x, s)"

definition raiseE :: "'e \<Rightarrow> ('s, 'e, 'a) svc" where
  "raiseE e s = (Inl e, s)"

definition bindE :: "('s, 'e, 'a) svc \<Rightarrow> ('a \<Rightarrow> ('s, 'e, 'b) svc) \<Rightarrow> ('s, 'e, 'b) svc" where
  "bindE m f s = (case m s of (Inl e, t) \<Rightarrow> (Inl e, t) | (Inr x, t) \<Rightarrow> f x t)"

definition thenE :: "('s, 'e, 'a) svc \<Rightarrow> ('s, 'e, 'b) svc \<Rightarrow> ('s, 'e, 'b) svc" where
  "thenE m k = bindE m (\<lambda>_. k)"

text \<open>\<open>if c: raise e\<close>, and \<open>try: m except e: h\<close>.\<close>

definition raise_if :: "bool \<Rightarrow> 'e \<Rightarrow> ('s, 'e, unit) svc" where
  "raise_if c e = (if c then raiseE e else returnE ())"

definition catchE :: "('s, 'e, 'a) svc \<Rightarrow> ('e \<Rightarrow> ('s, 'e, 'a) svc) \<Rightarrow> ('s, 'e, 'a) svc" where
  "catchE m h s = (case m s of (Inl e, t) \<Rightarrow> h e t | (Inr x, t) \<Rightarrow> (Inr x, t))"

definition readE :: "('s \<Rightarrow> 'a) \<Rightarrow> ('s, 'e, 'a) svc" where
  "readE f s = (Inr (f s), s)"

definition modifyE :: "('s \<Rightarrow> 's) \<Rightarrow> ('s, 'e, unit) svc" where
  "modifyE f s = (Inr (), f s)"

lemma returnE_apply [simp, svc_simps]: "returnE x s = (Inr x, s)"
  by (simp add: returnE_def)

lemma raiseE_apply [simp, svc_simps]: "raiseE e s = (Inl e, s)"
  by (simp add: raiseE_def)

lemma readE_apply [simp, svc_simps]: "readE f s = (Inr (f s), s)"
  by (simp add: readE_def)

lemma modifyE_apply [simp, svc_simps]: "modifyE f s = (Inr (), f s)"
  by (simp add: modifyE_def)

lemma raise_if_apply [svc_simps]:
  "raise_if c e s = (if c then (Inl e, s) else (Inr (), s))"
  by (simp add: raise_if_def)

lemma bindE_Inr: "m s = (Inr x, t) \<Longrightarrow> bindE m f s = f x t"
  by (simp add: bindE_def)

lemma bindE_Inl: "m s = (Inl e, t) \<Longrightarrow> bindE m f s = (Inl e, t)"
  by (simp add: bindE_def)

lemma thenE_run: "m s = (Inr x, t) \<Longrightarrow> thenE m k s = k t"
  by (simp add: thenE_def bindE_Inr)

lemma bindE_return [simp]: "bindE (returnE x) f = f x"
  by (simp add: bindE_def fun_eq_iff)

lemma bindE_assoc: "bindE (bindE m f) g = bindE m (\<lambda>x. bindE (f x) g)"
  by (simp add: bindE_def fun_eq_iff split: prod.split sum.split)

text \<open>Inversion of a successful run: both parts succeeded.\<close>

lemma bindE_InrE:
  assumes "bindE m f s = (Inr y, t)"
  obtains x u where "m s = (Inr x, u)" and "f x u = (Inr y, t)"
  using assms by (auto simp: bindE_def split: prod.splits sum.splits)

lemma thenE_InrE:
  assumes "thenE m k s = (Inr y, t)"
  obtains x u where "m s = (Inr x, u)" and "k u = (Inr y, t)"
  using assms by (auto simp: thenE_def elim: bindE_InrE)

lemma raise_if_Inr [simp]: "raise_if c e s = (Inr x, t) \<longleftrightarrow> \<not> c \<and> t = s"
  by (auto simp: raise_if_apply)

lemma raise_if_Inl [simp]: "raise_if c e s = (Inl e', t) \<longleftrightarrow> c \<and> e' = e \<and> t = s"
  by (auto simp: raise_if_apply)

lemma thenE_raise_if:
  "thenE (raise_if c e) k s = (if c then (Inl e, s) else k s)"
  by (simp add: thenE_def bindE_def raise_if_apply)

lemma bindE_raise_if:
  "bindE (raise_if c e) f s = (if c then (Inl e, s) else f () s)"
  by (simp add: bindE_def raise_if_apply)

lemma bindE_readE: "bindE (readE g) f s = f (g s) s"
  by (simp add: bindE_def)

lemma thenE_modifyE: "thenE (modifyE g) k s = k (g s)"
  by (simp add: thenE_def bindE_def)

lemmas svc_run = thenE_raise_if bindE_raise_if bindE_readE thenE_modifyE

text \<open>
  \<open>keeps I m\<close>: the call \<open>m\<close> leaves the state predicate \<open>I\<close> true, whether
  it returns or raises.
\<close>

definition keeps :: "('s \<Rightarrow> bool) \<Rightarrow> ('s, 'e, 'a) svc \<Rightarrow> bool" where
  "keeps I m \<longleftrightarrow> (\<forall>s. I s \<longrightarrow> I (snd (m s)))"

lemma keepsI: "(\<And>s. I s \<Longrightarrow> I (snd (m s))) \<Longrightarrow> keeps I m"
  by (simp add: keeps_def)

lemma keepsD: "keeps I m \<Longrightarrow> I s \<Longrightarrow> I (snd (m s))"
  by (simp add: keeps_def)

lemma keepsD_run: "keeps I m \<Longrightarrow> I s \<Longrightarrow> m s = (r, t) \<Longrightarrow> I t"
  using keepsD [of I m s] by simp

lemma keeps_returnE [keeps_intros]: "keeps I (returnE x)"
  by (simp add: keeps_def)

lemma keeps_raiseE [keeps_intros]: "keeps I (raiseE e)"
  by (simp add: keeps_def)

lemma keeps_readE [keeps_intros]: "keeps I (readE f)"
  by (simp add: keeps_def)

lemma keeps_raise_if [keeps_intros]: "keeps I (raise_if c e)"
  by (simp add: keeps_def raise_if_apply)

lemma keeps_bindE [keeps_intros]:
  "keeps I m \<Longrightarrow> (\<And>x. keeps I (f x)) \<Longrightarrow> keeps I (bindE m f)"
  by (force simp: keeps_def bindE_def split: prod.split sum.split)

lemma keeps_thenE [keeps_intros]:
  "keeps I m \<Longrightarrow> keeps I k \<Longrightarrow> keeps I (thenE m k)"
  by (simp add: thenE_def keeps_bindE)

lemma keeps_catchE [keeps_intros]:
  "keeps I m \<Longrightarrow> (\<And>e. keeps I (h e)) \<Longrightarrow> keeps I (catchE m h)"
  by (force simp: keeps_def catchE_def split: prod.split sum.split)

lemma keeps_if [keeps_intros]:
  "(c \<Longrightarrow> keeps I m) \<Longrightarrow> (\<not> c \<Longrightarrow> keeps I k) \<Longrightarrow> keeps I (if c then m else k)"
  by simp

lemma keeps_case_option [keeps_intros]:
  "keeps I m \<Longrightarrow> (\<And>x. keeps I (f x)) \<Longrightarrow> keeps I (case x of None \<Rightarrow> m | Some y \<Rightarrow> f y)"
  by (simp split: option.split)

lemma keeps_case_sum [keeps_intros]:
  "(\<And>e. keeps I (f e)) \<Longrightarrow> (\<And>x. keeps I (g x)) \<Longrightarrow> keeps I (case x of Inl e \<Rightarrow> f e | Inr y \<Rightarrow> g y)"
  by (simp split: sum.split)

section \<open>Keyed tables\<close>

text \<open>
  A table is the list of its rows in insertion order; \<open>key\<close> reads the primary key of a
  row. These three functions are SELECT, UPDATE and DELETE by primary key.
\<close>

definition lookup_by :: "('r \<Rightarrow> 'k) \<Rightarrow> 'k \<Rightarrow> 'r list \<Rightarrow> 'r option" where
  "lookup_by key k rows = find (\<lambda>r. key r = k) rows"

definition replace_by :: "('r \<Rightarrow> 'k) \<Rightarrow> 'r \<Rightarrow> 'r list \<Rightarrow> 'r list" where
  "replace_by key r rows = map (\<lambda>x. if key x = key r then r else x) rows"

definition delete_by :: "('r \<Rightarrow> 'k) \<Rightarrow> 'k \<Rightarrow> 'r list \<Rightarrow> 'r list" where
  "delete_by key k rows = filter (\<lambda>x. key x \<noteq> k) rows"

lemma lookup_by_Some: "lookup_by key k rows = Some r \<Longrightarrow> r \<in> set rows \<and> key r = k"
  by (auto simp: lookup_by_def find_Some_iff)

lemma lookup_by_None: "lookup_by key k rows = None \<longleftrightarrow> k \<notin> key ` set rows"
  by (auto simp: lookup_by_def find_None_iff)

lemma lookup_by_absent [simp]: "k \<notin> key ` set rows \<Longrightarrow> lookup_by key k rows = None"
  by (simp add: lookup_by_None)

lemma lookup_by_append:
  "lookup_by key k (rows @ [r]) =
     (case lookup_by key k rows of Some x \<Rightarrow> Some x | None \<Rightarrow> if key r = k then Some r else None)"
  by (induction rows) (auto simp: lookup_by_def)

lemma lookup_by_distinct:
  "distinct (map key rows) \<Longrightarrow> r \<in> set rows \<Longrightarrow> lookup_by key (key r) rows = Some r"
proof (induction rows)
  case Nil
  then show ?case by simp
next
  case (Cons x xs)
  show ?case
  proof (cases "key x = key r")
    case True
    with Cons.prems have "x = r" by (metis distinct.simps(2) imageI list.set_map list.simps(9) set_ConsD)
    then show ?thesis by (simp add: lookup_by_def)
  next
    case False
    with Cons show ?thesis by (auto simp: lookup_by_def)
  qed
qed

lemma lookup_by_iff:
  "distinct (map key rows) \<Longrightarrow> lookup_by key k rows = Some r \<longleftrightarrow> r \<in> set rows \<and> key r = k"
  using lookup_by_Some lookup_by_distinct by metis

lemma replace_by_simps:
  "replace_by key r [] = []"
  "replace_by key r (x # xs) = (if key x = key r then r else x) # replace_by key r xs"
  by (simp_all add: replace_by_def)

lemma replace_by_absent: "key r \<notin> key ` set xs \<Longrightarrow> replace_by key r xs = xs"
  unfolding replace_by_def by (intro map_idI) (metis imageI)

lemma map_key_replace_by [simp]: "map key (replace_by key r rows) = map key rows"
  by (simp add: replace_by_def)

lemma key_image_replace_by [simp]: "key ` set (replace_by key r rows) = key ` set rows"
  by (metis list.set_map map_key_replace_by)

lemma set_replace_by_subset: "set (replace_by key r rows) \<subseteq> insert r (set rows)"
  by (auto simp: replace_by_def)

lemma in_replace_byD:
  "x \<in> set (replace_by key r rows) \<Longrightarrow> x = r \<or> x \<in> set rows \<and> key x \<noteq> key r"
  by (auto simp: replace_by_def split: if_splits)

lemma lookup_by_replace:
  "lookup_by key k (replace_by key r rows) =
     (if k = key r then map_option (\<lambda>_. r) (lookup_by key k rows) else lookup_by key k rows)"
  by (induction rows) (auto simp: lookup_by_def replace_by_def)

lemma lookup_by_delete:
  "lookup_by key k (delete_by key k' rows) = (if k = k' then None else lookup_by key k rows)"
  by (induction rows) (auto simp: lookup_by_def delete_by_def)

lemma distinct_delete_by [simp]:
  "distinct (map g rows) \<Longrightarrow> distinct (map g (delete_by key k rows))"
  by (simp add: delete_by_def distinct_map_filter)

lemma set_delete_by: "set (delete_by key k rows) = {r \<in> set rows. key r \<noteq> k}"
  by (auto simp: delete_by_def)

lemma replace_by_same:
  "distinct (map key rows) \<Longrightarrow> r \<in> set rows \<Longrightarrow> replace_by key r rows = rows"
  by (rule map_idI [where f = "\<lambda>x. if key x = key r then r else x", folded replace_by_def])
    (auto simp: distinct_map inj_on_def)

section \<open>ORDER BY\<close>

text \<open>\<open>ORDER BY key DESC\<close>; the ascending order is the library's \<open>sort_key\<close>.\<close>

definition order_by_desc :: "('a \<Rightarrow> 'k::linorder) \<Rightarrow> 'a list \<Rightarrow> 'a list" where
  "order_by_desc key xs = rev (sort_key key xs)"

lemma set_order_by_desc [simp]: "set (order_by_desc key xs) = set xs"
  by (simp add: order_by_desc_def)

lemma distinct_order_by_desc [simp]: "distinct (order_by_desc key xs) = distinct xs"
  by (simp add: order_by_desc_def)

lemma sorted_order_by_desc: "sorted_wrt (\<lambda>a b. key b \<le> key a) (order_by_desc key xs)"
  using sorted_sort_key [of key xs] by (simp add: order_by_desc_def sorted_wrt_rev sorted_map)

lemma sorted_sort_key_wrt: "sorted_wrt (\<lambda>a b. key a \<le> key b) (sort_key key xs)"
  using sorted_sort_key [of key xs] by (simp add: sorted_map)

section \<open>Pagination\<close>

text \<open>\<open>.offset(skip).limit(limit)\<close>\<close>

definition paginate :: "nat \<Rightarrow> nat \<Rightarrow> 'a list \<Rightarrow> 'a list" where
  "paginate skip limit xs = take limit (drop skip xs)"

lemma length_paginate: "length (paginate skip limit xs) \<le> limit"
  by (simp add: paginate_def)

lemma set_paginate: "set (paginate skip limit xs) \<subseteq> set xs"
  unfolding paginate_def by (meson order_trans set_take_subset set_drop_subset)

lemma sorted_paginate: "sorted_wrt R xs \<Longrightarrow> sorted_wrt R (paginate skip limit xs)"
  by (simp add: paginate_def sorted_wrt_take sorted_wrt_drop)

lemma distinct_paginate: "distinct xs \<Longrightarrow> distinct (paginate skip limit xs)"
  by (simp add: paginate_def)

text \<open>Consecutive pages tile the result.\<close>

lemma paginate_append:
  "paginate skip a xs @ paginate (skip + a) b xs = paginate skip (a + b) xs"
proof -
  have "drop (skip + a) xs = drop a (drop skip xs)"
    by (simp add: add.commute)
  then show ?thesis
    by (simp add: paginate_def take_add)
qed

text \<open>Every row of a result is on exactly the page its position says.\<close>

lemma paginate_cover:
  assumes "0 < n"
  shows "x \<in> set xs \<longleftrightarrow> (\<exists>k. x \<in> set (paginate (k * n) n xs))"
proof
  assume "x \<in> set xs"
  then obtain i where i: "i < length xs" "x = xs ! i" by (auto simp: in_set_conv_nth)
  have split: "i div n * n + i mod n = i" by (rule div_mult_mod_eq)
  then have "i div n * n \<le> length xs" using i(1) by linarith
  then have "drop (i div n * n) xs ! (i mod n) = x"
    unfolding i(2) by (subst nth_drop) (simp_all only: split)
  moreover have "i mod n < length (drop (i div n * n) xs)"
    using split i(1) unfolding length_drop by linarith
  ultimately have "x \<in> set (take n (drop (i div n * n) xs))"
    using assms by (metis in_set_conv_nth length_take min_less_iff_conj mod_less_divisor nth_take)
  then show "\<exists>k. x \<in> set (paginate (k * n) n xs)" by (auto simp: paginate_def)
next
  assume "\<exists>k. x \<in> set (paginate (k * n) n xs)"
  then show "x \<in> set xs" using set_paginate by (metis subsetD)
qed

section \<open>Python strings\<close>

definition py_isspace :: "char \<Rightarrow> bool" where
  "py_isspace c = (let n = of_char c :: nat
     in 9 \<le> n \<and> n \<le> 13 \<or> 28 \<le> n \<and> n \<le> 32 \<or> n = 133 \<or> n = 160)"

definition py_lower_char :: "char \<Rightarrow> char" where
  "py_lower_char c = (let n = of_char c :: nat
     in if 65 \<le> n \<and> n \<le> 90 \<or> 192 \<le> n \<and> n \<le> 222 \<and> n \<noteq> 215 then char_of (n + 32) else c)"

definition py_lower :: "string \<Rightarrow> string" where
  "py_lower s = map py_lower_char s"

definition py_lstrip :: "string \<Rightarrow> string" where
  "py_lstrip s = dropWhile py_isspace s"

definition py_strip :: "string \<Rightarrow> string" where
  "py_strip s = rev (py_lstrip (rev (py_lstrip s)))"

text \<open>\<open>s.split(sep)\<close> for a one-character separator: at least one part.\<close>

fun py_split :: "char \<Rightarrow> string \<Rightarrow> string list" where
  "py_split sep [] = [[]]"
| "py_split sep (c # cs) =
     (if c = sep then [] # py_split sep cs
      else case py_split sep cs of [] \<Rightarrow> [[c]] | p # ps \<Rightarrow> (c # p) # ps)"

lemma py_split_ne [simp]: "py_split sep s \<noteq> []"
  by (induction s) (auto split: list.split)

lemma py_lower_char_idem: "py_lower_char (py_lower_char c) = py_lower_char c"
proof (cases "65 \<le> (of_char c :: nat) \<and> (of_char c :: nat) \<le> 90
    \<or> 192 \<le> (of_char c :: nat) \<and> (of_char c :: nat) \<le> 222 \<and> (of_char c :: nat) \<noteq> 215")
  case True
  then have "(of_char (char_of ((of_char c :: nat) + 32) :: char) :: nat) = of_char c + 32"
    by (auto simp: of_char_of)
  with True show ?thesis by (auto simp: py_lower_char_def Let_def)
next
  case False
  then show ?thesis by (auto simp: py_lower_char_def Let_def)
qed

lemma py_lower_idem: "py_lower (py_lower s) = py_lower s"
  by (simp add: py_lower_def py_lower_char_idem)

lemma length_py_lower [simp]: "length (py_lower s) = length s"
  by (simp add: py_lower_def)

lemma py_lstrip_idem [simp]: "py_lstrip (py_lstrip s) = py_lstrip s"
  by (simp add: py_lstrip_def)

lemma py_lstrip_prefix:
  assumes "py_lstrip s = s" and "prefix r s"
  shows "py_lstrip r = r"
proof (cases r)
  case (Cons c cs)
  with assms(2) obtain t where "s = c # t" by (auto simp: prefix_def)
  with assms(1) have "\<not> py_isspace c"
    using hd_dropWhile [of py_isspace s] by (auto simp: py_lstrip_def simp del: dropWhile.simps)
  with Cons show ?thesis by (simp add: py_lstrip_def)
qed (simp add: py_lstrip_def)

lemma py_strip_idem [simp]: "py_strip (py_strip s) = py_strip s"
proof -
  let ?l = "py_lstrip s" and ?r = "rev (py_lstrip (rev (py_lstrip s)))"
  have "suffix (py_lstrip (rev ?l)) (rev ?l)" by (simp add: py_lstrip_def suffix_dropWhile)
  then have "prefix ?r ?l" by (simp add: suffix_to_prefix)
  then have "py_lstrip ?r = ?r" by (rule py_lstrip_prefix [OF py_lstrip_idem])
  then show ?thesis by (simp add: py_strip_def)
qed

end
