(* ===== verification/Uuid.thy ===== *)
theory Uuid
  imports Prelude
begin

text \<open>
  \<open>uuid.UUID\<close> of the Python standard library, as the program uses it: the identifier of
  every row, its text form \<open>str(u)\<close> (JWT subjects, Redis keys and job payloads) and the
  parser \<open>UUID(text)\<close> that reads it back in \<open>app/api/deps.py\<close> and
  \<open>app/workers/review_worker.py\<close>.
\<close>

section \<open>The identifier\<close>

datatype uuid = UUID (uuid_int: "128 word")

text \<open>PostgreSQL orders \<open>uuid\<close> columns bytewise, that is, by the 128-bit number.\<close>

instantiation uuid :: linorder
begin

definition less_eq_uuid :: "uuid \<Rightarrow> uuid \<Rightarrow> bool" where
  "less_eq_uuid a b \<longleftrightarrow> uuid_int a \<le> uuid_int b"

definition less_uuid :: "uuid \<Rightarrow> uuid \<Rightarrow> bool" where
  "less_uuid a b \<longleftrightarrow> uuid_int a < uuid_int b"

instance
  by standard (auto simp: less_eq_uuid_def less_uuid_def uuid.expand)

end

section \<open>Text form\<close>

definition hex_digit :: "nat \<Rightarrow> char" where
  "hex_digit d = (if d < 10 then char_of (48 + d) else char_of (87 + d))"

definition hex_val :: "char \<Rightarrow> nat option" where
  "hex_val c = (let n = of_char c :: nat
     in if 48 \<le> n \<and> n \<le> 57 then Some (n - 48)
        else if 97 \<le> n \<and> n \<le> 102 then Some (n - 87)
        else if 65 \<le> n \<and> n \<le> 70 then Some (n - 55)
        else None)"

text \<open>\<open>'%032x' % n\<close>: exactly \<open>k\<close> hexadecimal digits.\<close>

fun hex_digits :: "nat \<Rightarrow> nat \<Rightarrow> string" where
  "hex_digits 0 n = []"
| "hex_digits (Suc k) n = hex_digits k (n div 16) @ [hex_digit (n mod 16)]"

definition uuid_hex :: "uuid \<Rightarrow> string" where
  "uuid_hex u = hex_digits 32 (unat (uuid_int u))"

definition uuid_str :: "uuid \<Rightarrow> string" where
  "uuid_str u = (let h = uuid_hex u
     in take 8 h @ ''-'' @ take 4 (drop 8 h) @ ''-'' @ take 4 (drop 12 h) @ ''-''
        @ take 4 (drop 16 h) @ ''-'' @ drop 20 h)"

section \<open>Parsing\<close>

text \<open>\<open>s.replace(pat, '')\<close>: left to right, non-overlapping.\<close>

function py_remove :: "string \<Rightarrow> string \<Rightarrow> string" where
  "py_remove pat [] = []"
| "py_remove pat (c # cs) =
     (if pat \<noteq> [] \<and> prefix pat (c # cs) then py_remove pat (drop (length pat) (c # cs))
      else c # py_remove pat cs)"
  by pat_completeness auto
termination
  by (relation "measure (\<lambda>(pat, s). length s)") (auto simp: neq_Nil_conv)

definition py_strip_chars :: "string \<Rightarrow> string \<Rightarrow> string" where
  "py_strip_chars cs s =
     rev (dropWhile (\<lambda>c. c \<in> set cs) (rev (dropWhile (\<lambda>c. c \<in> set cs) s)))"

text \<open>\<open>int(s, 16)\<close>: surrounding blanks, a sign, a \<open>0x\<close> prefix and single underscores
  between digits are accepted.\<close>

fun hex_body :: "nat \<Rightarrow> bool \<Rightarrow> string \<Rightarrow> nat option" where
  "hex_body acc digit [] = (if digit then Some acc else None)"
| "hex_body acc digit (c # cs) =
     (if c = CHR ''_'' then (if digit then hex_body acc False cs else None)
      else case hex_val c of None \<Rightarrow> None | Some d \<Rightarrow> hex_body (16 * acc + d) True cs)"

definition hex_unsigned :: "string \<Rightarrow> nat option" where
  "hex_unsigned s =
     (if take 2 s = ''0x'' \<or> take 2 s = ''0X''
      then (case drop 2 s of
              [] \<Rightarrow> None
            | c # cs \<Rightarrow> if c = CHR ''_'' then hex_body 0 False cs else hex_body 0 False (c # cs))
      else hex_body 0 False s)"

definition py_int16 :: "string \<Rightarrow> int option" where
  "py_int16 s = (case py_strip s of
       [] \<Rightarrow> None
     | c # cs \<Rightarrow>
         if c = CHR ''-'' then map_option (\<lambda>n. - int n) (hex_unsigned cs)
         else if c = CHR ''+'' then map_option int (hex_unsigned cs)
         else map_option int (hex_unsigned (c # cs)))"

text \<open>\<open>UUID(text)\<close>; \<open>None\<close> is the \<open>ValueError\<close>.\<close>

definition uuid_parse :: "string \<Rightarrow> uuid option" where
  "uuid_parse s =
     (let h = py_remove ''uuid:'' (py_remove ''urn:'' s);
          h = py_remove ''-'' (py_strip_chars ''{}'' h)
      in if length h \<noteq> 32 then None
         else case py_int16 h of
                None \<Rightarrow> None
              | Some i \<Rightarrow> if 0 \<le> i \<and> i < 2 ^ 128 then Some (UUID (of_int i)) else None)"

section \<open>Round trip\<close>

definition is_hex :: "char \<Rightarrow> bool" where
  "is_hex c = (let n = of_char c :: nat in 48 \<le> n \<and> n \<le> 57 \<or> 97 \<le> n \<and> n \<le> 102)"

lemma is_hex_hex_digit: "d < 16 \<Longrightarrow> is_hex (hex_digit d)"
  by (auto simp: is_hex_def hex_digit_def Let_def of_char_of)

lemma hex_val_hex_digit: "d < 16 \<Longrightarrow> hex_val (hex_digit d) = Some d"
  by (auto simp: hex_val_def hex_digit_def Let_def of_char_of)

lemma is_hex_plain:
  "is_hex c \<Longrightarrow> \<not> py_isspace c"
  "is_hex c \<Longrightarrow> c \<noteq> CHR ''-''" "is_hex c \<Longrightarrow> c \<noteq> CHR ''+''"
  "is_hex c \<Longrightarrow> c \<noteq> CHR '':''" "is_hex c \<Longrightarrow> c \<noteq> CHR ''_''"
  "is_hex c \<Longrightarrow> c \<noteq> CHR ''{''" "is_hex c \<Longrightarrow> c \<noteq> CHR ''}''"
  "is_hex c \<Longrightarrow> c \<noteq> CHR ''x''" "is_hex c \<Longrightarrow> c \<noteq> CHR ''X''"
  by (auto simp: is_hex_def py_isspace_def Let_def)

lemma length_hex_digits [simp]: "length (hex_digits k n) = k"
  by (induction k arbitrary: n) auto

lemma hex_digits_is_hex: "c \<in> set (hex_digits k n) \<Longrightarrow> is_hex c"
  by (induction k arbitrary: n) (auto simp: is_hex_hex_digit)

lemma hex_body_append:
  "\<forall>c \<in> set xs. is_hex c \<Longrightarrow> xs \<noteq> [] \<Longrightarrow>
     hex_body acc b (xs @ ys) =
       (case hex_body acc b xs of None \<Rightarrow> None | Some a \<Rightarrow> hex_body a True ys)"
proof (induction xs arbitrary: acc b)
  case Nil
  then show ?case by simp
next
  case (Cons c cs)
  from Cons.prems have "c \<noteq> CHR ''_''" by (simp add: is_hex_plain)
  with Cons show ?case by (cases cs) (auto split: option.split)
qed

lemma hex_body_hex_digits:
  "0 < k \<Longrightarrow> n < 16 ^ k \<Longrightarrow> hex_body 0 False (hex_digits k n) = Some n"
proof (induction k arbitrary: n)
  case 0
  then show ?case by simp
next
  case (Suc k)
  have dig: "hex_digit (n mod 16) \<noteq> CHR ''_''"
    by (simp add: is_hex_plain is_hex_hex_digit)
  have val: "hex_val (hex_digit (n mod 16)) = Some (n mod 16)"
    by (simp add: hex_val_hex_digit)
  show ?case
  proof (cases "k = 0")
    case True
    with Suc.prems dig val show ?thesis by simp
  next
    case False
    from Suc.prems have "n div 16 < 16 ^ k" by (simp add: less_mult_imp_div_less mult.commute)
    with Suc.IH False have "hex_body 0 False (hex_digits k (n div 16)) = Some (n div 16)"
      by simp
    moreover have "hex_digits k (n div 16) \<noteq> []"
      using False length_hex_digits [of k "n div 16"] by (metis list.size(3))
    ultimately show ?thesis
      using dig val by (simp add: hex_body_append hex_digits_is_hex)
  qed
qed

lemma py_remove_absent:
  "\<exists>c \<in> set pat. c \<notin> set s \<Longrightarrow> py_remove pat s = s"
proof (induction pat s rule: py_remove.induct)
  case (1 pat)
  then show ?case by simp
next
  case (2 pat c cs)
  from "2.prems" have "\<not> prefix pat (c # cs)" by (metis set_mono_prefix subsetD)
  with 2 show ?case by auto
qed

lemma py_remove_char: "py_remove [x] s = filter (\<lambda>c. c \<noteq> x) s"
  by (induction "[x]" s rule: py_remove.induct) auto

lemma py_strip_chars_absent:
  assumes "set s \<inter> set cs = {}"
  shows "py_strip_chars cs s = s"
proof -
  have "dropWhile (\<lambda>c. c \<in> set cs) t = t" if "set t \<inter> set cs = {}" for t
    using that by (cases t) auto
  with assms show ?thesis by (simp add: py_strip_chars_def)
qed

lemma py_strip_absent:
  assumes "\<forall>c \<in> set s. \<not> py_isspace c"
  shows "py_strip s = s"
proof -
  have "py_lstrip t = t" if "\<forall>c \<in> set t. \<not> py_isspace c" for t
    using that by (cases t) (auto simp: py_lstrip_def)
  with assms show ?thesis by (simp add: py_strip_def)
qed

lemma py_int16_hex:
  assumes s: "\<forall>c \<in> set s. is_hex c" and v: "hex_body 0 False s = Some n"
  shows "py_int16 s = Some (int n)"
proof -
  from s have strip: "py_strip s = s"
    by (intro py_strip_absent) (auto dest: is_hex_plain(1))
  from v obtain c cs where c: "s = c # cs" by (cases s) auto
  with s have plain: "c \<noteq> CHR ''-''" "c \<noteq> CHR ''+''" by (simp_all add: is_hex_plain)
  from s have "take 2 s \<noteq> ''0x'' \<and> take 2 s \<noteq> ''0X''"
    using is_hex_plain(8,9) by (cases cs) (auto simp: c)
  with v have "hex_unsigned s = Some n" by (simp add: hex_unsigned_def)
  with strip c plain show ?thesis by (simp add: py_int16_def)
qed

lemma uuid_hex_is_hex: "c \<in> set (uuid_hex u) \<Longrightarrow> is_hex c"
  by (simp add: uuid_hex_def hex_digits_is_hex)

lemma uuid_str_chars: "c \<in> set (uuid_str u) \<Longrightarrow> c = CHR ''-'' \<or> is_hex c"
  by (auto simp: uuid_str_def Let_def dest!: in_set_takeD in_set_dropD dest: uuid_hex_is_hex)

lemma filter_dash_hex:
  "set t \<subseteq> set (uuid_hex u) \<Longrightarrow> filter (\<lambda>c. c \<noteq> CHR ''-'') t = t"
  by (rule filter_True) (auto dest!: uuid_hex_is_hex is_hex_plain(2))

lemma take_drop_5:
  "take 8 h @ take 4 (drop 8 h) @ take 4 (drop 12 h) @ take 4 (drop 16 h) @ drop 20 h = h"
proof -
  have step: "take 4 (drop n h) @ drop (n + 4) h = drop n h" for n
    by (metis append_take_drop_id drop_drop add.commute)
  show ?thesis using step [of 8] step [of 12] step [of 16] by simp
qed

lemma uuid_str_undash: "py_remove ''-'' (uuid_str u) = uuid_hex u"
proof -
  let ?h = "uuid_hex u"
  have sub: "set (take n (drop m ?h)) \<subseteq> set ?h" "set (take n ?h) \<subseteq> set ?h"
    "set (drop m ?h) \<subseteq> set ?h" for n m
    by (meson order_trans set_take_subset set_drop_subset)+
  note filters = filter_dash_hex [OF sub(1)] filter_dash_hex [OF sub(2)] filter_dash_hex [OF sub(3)]
  have "py_remove ''-'' (uuid_str u)
      = take 8 ?h @ take 4 (drop 8 ?h) @ take 4 (drop 12 ?h) @ take 4 (drop 16 ?h) @ drop 20 ?h"
    by (simp only: uuid_str_def Let_def py_remove_char filter_append filters) simp
  then show ?thesis by (simp only: take_drop_5)
qed

lemma uuid_str_excludes:
  "CHR '':'' \<notin> set (uuid_str u)" "CHR ''{'' \<notin> set (uuid_str u)" "CHR ''}'' \<notin> set (uuid_str u)"
  using uuid_str_chars [of _ u] is_hex_plain(4,6,7) by blast+

lemma uuid_str_no_prefix:
  "py_remove ''urn:'' (uuid_str u) = uuid_str u" "py_remove ''uuid:'' (uuid_str u) = uuid_str u"
  by (simp_all add: py_remove_absent uuid_str_excludes)

lemma uuid_str_strip: "py_strip_chars ''{}'' (uuid_str u) = uuid_str u"
  by (rule py_strip_chars_absent) (simp add: uuid_str_excludes)

lemma unat_uuid_bound: "unat (uuid_int u) < 16 ^ 32"
proof -
  have "unat (uuid_int u) < 2 ^ 128" using unsigned_less [of "uuid_int u", where 'a = nat] by simp
  also have "(2 ^ 128 :: nat) = 16 ^ 32" by simp
  finally show ?thesis .
qed

lemma uuid_str_ne [simp]: "uuid_str u \<noteq> []"
  by (simp add: uuid_str_def Let_def)

lemma uuid_parse_str: "uuid_parse (uuid_str u) = Some u"
proof -
  let ?h = "uuid_hex u" and ?n = "unat (uuid_int u)"
  have "hex_body 0 False ?h = Some ?n"
    unfolding uuid_hex_def by (rule hex_body_hex_digits) (simp, rule unat_uuid_bound)
  then have val: "py_int16 ?h = Some (int ?n)"
    by (intro py_int16_hex) (simp add: uuid_hex_is_hex)
  have len: "length ?h = 32" by (simp add: uuid_hex_def)
  have lt: "int ?n < 2 ^ 128" using unsigned_less [of "uuid_int u", where 'a = int] by simp
  show ?thesis
    by (simp add: uuid_parse_def Let_def uuid_str_no_prefix uuid_str_strip uuid_str_undash val len)
      (use lt in \<open>simp add: uuid.expand\<close>)
qed

lemma uuid_str_inject [simp]: "uuid_str a = uuid_str b \<longleftrightarrow> a = b"
  using uuid_parse_str option.inject by metis

end
