(* ===== verification/Clock.thy ===== *)
theory Clock
  imports Prelude
begin

text \<open>
  Python \<open>datetime\<close> values as the program handles them. An instant (\<open>timestamp\<close>) is a
  number of microseconds since 1970-01-01T00:00Z; a \<open>py_datetime\<close> is a wall clock reading
  with an optional UTC offset, \<open>None\<close> for a naive value. PostgreSQL's \<open>timestamptz\<close>
  stores the instant.
\<close>

type_synonym timestamp = int

record py_datetime =
  dt_wall :: int
  dt_offset :: "int option"  \<comment> \<open>seconds east of UTC\<close>

definition microseconds :: int where
  "microseconds = 1000000"

definition minutes :: "int \<Rightarrow> timestamp" where
  "minutes n = n * 60 * microseconds"

text \<open>\<open>v.tzinfo is None or v.tzinfo.utcoffset(v) is None\<close>\<close>

definition is_naive :: "py_datetime \<Rightarrow> bool" where
  "is_naive v = (dt_offset v = None)"

text \<open>The instant an aware value denotes (a naive value has none).\<close>

definition instant :: "py_datetime \<Rightarrow> timestamp" where
  "instant v = (case dt_offset v of None \<Rightarrow> dt_wall v | Some off \<Rightarrow> dt_wall v - off * microseconds)"

text \<open>
  \<open>a <= b\<close> on datetimes: aware values compare by instant, naive ones by wall clock, and a
  mixed comparison raises \<open>TypeError\<close> (\<open>None\<close>).
\<close>

definition dt_le :: "py_datetime \<Rightarrow> py_datetime \<Rightarrow> bool option" where
  "dt_le a b = (if is_naive a = is_naive b then Some (instant a \<le> instant b) else None)"

lemma dt_le_aware:
  "\<not> is_naive a \<Longrightarrow> \<not> is_naive b \<Longrightarrow> dt_le a b = Some (instant a \<le> instant b)"
  by (simp add: dt_le_def)

text \<open>The same instant, read in the zone of another offset, is an equal value.\<close>

definition astimezone :: "int \<Rightarrow> timestamp \<Rightarrow> py_datetime" where
  "astimezone off t = \<lparr>dt_wall = t + off * microseconds, dt_offset = Some off\<rparr>"

lemma instant_astimezone [simp]: "instant (astimezone off t) = t"
  by (simp add: instant_def astimezone_def)

lemma is_naive_astimezone [simp]: "\<not> is_naive (astimezone off t)"
  by (simp add: is_naive_def astimezone_def)

section \<open>isoformat\<close>

fun dec_digits :: "nat \<Rightarrow> int \<Rightarrow> string" where
  "dec_digits 0 n = []"
| "dec_digits (Suc k) n = dec_digits k (n div 10) @ [char_of (48 + nat (n mod 10))]"

text \<open>Proleptic Gregorian date of a day number (days since 1970-01-01).\<close>

definition civil_of_days :: "int \<Rightarrow> int \<times> int \<times> int" where
  "civil_of_days z0 =
     (let z = z0 + 719468;
          era = z div 146097;
          doe = z mod 146097;
          yoe = (doe - doe div 1460 + doe div 36524 - doe div 146096) div 365;
          doy = doe - (365 * yoe + yoe div 4 - yoe div 100);
          mp = (5 * doy + 2) div 153;
          d = doy - (153 * mp + 2) div 5 + 1;
          m = (if mp < 10 then mp + 3 else mp - 9);
          y = yoe + era * 400 + (if m \<le> 2 then 1 else 0)
      in (y, m, d))"

definition iso_offset :: "int \<Rightarrow> string" where
  "iso_offset off =
     (let a = \<bar>off\<bar>
      in (if off < 0 then ''-'' else ''+'') @ dec_digits 2 (a div 3600) @ '':''
         @ dec_digits 2 (a div 60 mod 60)
         @ (if a mod 60 = 0 then [] else '':'' @ dec_digits 2 (a mod 60)))"

definition isoformat :: "py_datetime \<Rightarrow> string" where
  "isoformat v =
     (let us = dt_wall v mod (86400 * microseconds);
          (y, m, d) = civil_of_days (dt_wall v div (86400 * microseconds));
          s = us div microseconds
      in dec_digits 4 y @ ''-'' @ dec_digits 2 m @ ''-'' @ dec_digits 2 d @ ''T''
         @ dec_digits 2 (s div 3600) @ '':'' @ dec_digits 2 (s div 60 mod 60) @ '':''
         @ dec_digits 2 (s mod 60)
         @ (if us mod microseconds = 0 then [] else ''.'' @ dec_digits 6 (us mod microseconds))
         @ (case dt_offset v of None \<Rightarrow> [] | Some off \<Rightarrow> iso_offset off))"

lemma isoformat_epoch: "isoformat (astimezone 0 0) = ''1970-01-01T00:00:00+00:00''"
  by code_simp

lemma isoformat_leap_day:
  "isoformat (astimezone 19800 1709164800250000) = ''2024-02-29T05:30:00.250000+05:30''"
  by code_simp

end
