(* ===== verification/Models.thy ===== *)
theory Models
  imports Uuid Clock
begin

text \<open>
  The data model of \<open>app/models\<close>: the enumerations, the four tables' rows, and the
  database with the constraints the models declare (primary and foreign keys, unique
  columns, check constraints, column lengths). Every write goes through the constraint
  check of its table, as in PostgreSQL.
\<close>

section \<open>Enumerations\<close>

datatype user_role = ADMIN | PROVIDER | CUSTOMER

datatype booking_status = PENDING | CONFIRMED | COMPLETED | CANCELLED

datatype notification_type =
    BOOKING_CREATED | BOOKING_CONFIRMED | BOOKING_CANCELLED
  | BOOKING_REMINDER | BOOKING_COMPLETED | BOOKING_OVERDUE

text \<open>The \<open>.value\<close> of each \<open>StrEnum\<close> member, and the member of a value.\<close>

fun role_value :: "user_role \<Rightarrow> string" where
  "role_value ADMIN = ''admin''"
| "role_value PROVIDER = ''provider''"
| "role_value CUSTOMER = ''customer''"

fun status_value :: "booking_status \<Rightarrow> string" where
  "status_value PENDING = ''pending''"
| "status_value CONFIRMED = ''confirmed''"
| "status_value COMPLETED = ''completed''"
| "status_value CANCELLED = ''cancelled''"

fun ntype_value :: "notification_type \<Rightarrow> string" where
  "ntype_value BOOKING_CREATED = ''booking_created''"
| "ntype_value BOOKING_CONFIRMED = ''booking_confirmed''"
| "ntype_value BOOKING_CANCELLED = ''booking_cancelled''"
| "ntype_value BOOKING_REMINDER = ''booking_reminder''"
| "ntype_value BOOKING_COMPLETED = ''booking_completed''"
| "ntype_value BOOKING_OVERDUE = ''booking_overdue''"

section \<open>Rows\<close>

record user =
  u_id :: uuid
  u_name :: string
  u_email :: string
  u_role :: user_role
  u_password_hash :: string
  u_created_at :: timestamp
  u_updated_at :: timestamp

record booking =
  b_id :: uuid
  b_customer_id :: uuid
  b_provider_id :: uuid
  b_service_name :: string
  b_start_time :: timestamp
  b_end_time :: timestamp
  b_status :: booking_status
  b_created_at :: timestamp
  b_updated_at :: timestamp

record review =
  r_id :: uuid
  r_booking_id :: uuid
  r_customer_id :: uuid
  r_provider_id :: uuid
  r_rating :: int
  r_comment :: "string option"
  r_created_at :: timestamp
  r_updated_at :: timestamp

record notification =
  n_id :: uuid
  n_user_id :: uuid
  n_booking_id :: "uuid option"
  n_type :: notification_type
  n_title :: string
  n_message :: string
  n_is_read :: bool
  n_created_at :: timestamp
  n_read_at :: "timestamp option"

section \<open>The database\<close>

record database =
  users :: "user list"
  bookings :: "booking list"
  reviews :: "review list"
  notifications :: "notification list"

definition get_user :: "database \<Rightarrow> uuid \<Rightarrow> user option" where
  "get_user db i = lookup_by u_id i (users db)"

definition get_booking :: "database \<Rightarrow> uuid \<Rightarrow> booking option" where
  "get_booking db i = lookup_by b_id i (bookings db)"

definition get_review :: "database \<Rightarrow> uuid \<Rightarrow> review option" where
  "get_review db i = lookup_by r_id i (reviews db)"

definition get_notification :: "database \<Rightarrow> uuid \<Rightarrow> notification option" where
  "get_notification db i = lookup_by n_id i (notifications db)"

text \<open>What PostgreSQL answers to a write that breaks a constraint.\<close>

datatype db_error =
    IntegrityError | DataError | StaleDataError | InvalidRequestError | MultipleResultsFound

section \<open>Constraints of one row\<close>

text \<open>
  \<open>String(255)\<close> columns reject longer values, and no text may hold a NUL (DataError); foreign keys and
  check constraints are IntegrityErrors. The uniqueness constraints compare with the other rows. The
  titles and messages of notifications are put together from the program's own words and from stored
  names, so only the size of a title matters.
\<close>

definition pg_text :: "string \<Rightarrow> bool" where
  "pg_text s \<longleftrightarrow> CHR 0x00 \<notin> set s"

text \<open>The offset of a page is a \<open>bigint\<close>.\<close>

definition pg_bigint :: "nat \<Rightarrow> bool" where
  "pg_bigint n \<longleftrightarrow> n < 2 ^ 63"

definition pg_string :: "nat \<Rightarrow> string \<Rightarrow> bool" where
  "pg_string n s \<longleftrightarrow> length s \<le> n \<and> pg_text s"

lemmas pg_defs = pg_text_def pg_string_def pg_bigint_def

definition has_user :: "database \<Rightarrow> uuid \<Rightarrow> bool" where
  "has_user db i \<longleftrightarrow> i \<in> u_id ` set (users db)"

definition has_booking :: "database \<Rightarrow> uuid \<Rightarrow> bool" where
  "has_booking db i \<longleftrightarrow> i \<in> b_id ` set (bookings db)"

definition user_sized :: "user \<Rightarrow> bool" where
  "user_sized u \<longleftrightarrow>
     pg_string 255 (u_name u) \<and> pg_string 255 (u_email u) \<and> pg_string 255 (u_password_hash u)"

definition booking_sized :: "booking \<Rightarrow> bool" where
  "booking_sized b \<longleftrightarrow> pg_string 255 (b_service_name b)"

definition comment_ok :: "string option \<Rightarrow> bool" where
  "comment_ok c \<longleftrightarrow> (case c of None \<Rightarrow> True | Some t \<Rightarrow> pg_text t)"

definition notification_sized :: "notification \<Rightarrow> bool" where
  "notification_sized n \<longleftrightarrow> length (n_title n) \<le> 255"

definition booking_checks :: "database \<Rightarrow> booking \<Rightarrow> bool" where
  "booking_checks db b \<longleftrightarrow>
     has_user db (b_customer_id b) \<and> has_user db (b_provider_id b)
     \<and> b_start_time b < b_end_time b \<and> b_customer_id b \<noteq> b_provider_id b"

definition review_checks :: "database \<Rightarrow> review \<Rightarrow> bool" where
  "review_checks db r \<longleftrightarrow>
     has_booking db (r_booking_id r) \<and> has_user db (r_customer_id r) \<and> has_user db (r_provider_id r)
     \<and> 1 \<le> r_rating r \<and> r_rating r \<le> 5"

definition notification_checks :: "database \<Rightarrow> notification \<Rightarrow> bool" where
  "notification_checks db n \<longleftrightarrow>
     has_user db (n_user_id n)
     \<and> (case n_booking_id n of None \<Rightarrow> True | Some i \<Rightarrow> has_booking db i)"

text \<open>
  \<open>uq_notifications_user_booking_type\<close>: a NULL \<open>booking_id\<close> never conflicts (SQL
  unique constraints treat NULLs as distinct).
\<close>

definition same_notification_key :: "notification \<Rightarrow> notification \<Rightarrow> bool" where
  "same_notification_key m n \<longleftrightarrow>
     n_user_id m = n_user_id n \<and> n_type m = n_type n
     \<and> n_booking_id m \<noteq> None \<and> n_booking_id m = n_booking_id n"

section \<open>Writes\<close>

definition insert_user :: "user \<Rightarrow> database \<Rightarrow> db_error + database" where
  "insert_user u db =
     (if \<not> user_sized u then Inl DataError
      else if has_user db (u_id u) \<or> u_email u \<in> u_email ` set (users db) then Inl IntegrityError
      else Inr (db\<lparr>users := users db @ [u]\<rparr>))"

definition insert_booking :: "booking \<Rightarrow> database \<Rightarrow> db_error + database" where
  "insert_booking b db =
     (if \<not> booking_sized b then Inl DataError
      else if has_booking db (b_id b) \<or> \<not> booking_checks db b then Inl IntegrityError
      else Inr (db\<lparr>bookings := bookings db @ [b]\<rparr>))"

definition insert_review :: "review \<Rightarrow> database \<Rightarrow> db_error + database" where
  "insert_review r db =
     (if \<not> comment_ok (r_comment r) then Inl DataError
      else if r_id r \<in> r_id ` set (reviews db) \<or> r_booking_id r \<in> r_booking_id ` set (reviews db)
         \<or> \<not> review_checks db r
      then Inl IntegrityError
      else Inr (db\<lparr>reviews := reviews db @ [r]\<rparr>))"

text \<open>
  An ORM UPDATE is emitted only for an object with a net change, and then sets
  \<open>updated_at\<close> to the transaction's \<open>now()\<close> (\<open>onupdate=func.now()\<close>).
\<close>

definition update_booking_row :: "timestamp \<Rightarrow> booking \<Rightarrow> database \<Rightarrow> db_error + database" where
  "update_booking_row now b db =
     (case get_booking db (b_id b) of
        None \<Rightarrow> Inl StaleDataError
      | Some old \<Rightarrow>
          if b = old then Inr db
          else if \<not> booking_sized b then Inl DataError
          else if \<not> booking_checks db b then Inl IntegrityError
          else Inr (db\<lparr>bookings := replace_by b_id (b\<lparr>b_updated_at := now\<rparr>) (bookings db)\<rparr>))"

definition update_review_row :: "timestamp \<Rightarrow> review \<Rightarrow> database \<Rightarrow> db_error + database" where
  "update_review_row now r db =
     (case get_review db (r_id r) of
        None \<Rightarrow> Inl StaleDataError
      | Some old \<Rightarrow>
          if r = old then Inr db
          else if \<not> comment_ok (r_comment r) then Inl DataError
          else if \<not> review_checks db r
               \<or> (\<exists>x \<in> set (reviews db). r_id x \<noteq> r_id r \<and> r_booking_id x = r_booking_id r)
          then Inl IntegrityError
          else Inr (db\<lparr>reviews := replace_by r_id (r\<lparr>r_updated_at := now\<rparr>) (reviews db)\<rparr>))"

definition delete_review_row :: "uuid \<Rightarrow> database \<Rightarrow> db_error + database" where
  "delete_review_row i db = Inr (db\<lparr>reviews := delete_by r_id i (reviews db)\<rparr>)"

definition update_notification_row :: "notification \<Rightarrow> database \<Rightarrow> db_error + database" where
  "update_notification_row n db =
     (case get_notification db (n_id n) of
        None \<Rightarrow> Inl StaleDataError
      | Some old \<Rightarrow>
          if n = old then Inr db
          else if \<not> notification_sized n then Inl DataError
          else if \<not> notification_checks db n
               \<or> (\<exists>m \<in> set (notifications db). n_id m \<noteq> n_id n \<and> same_notification_key m n)
          then Inl IntegrityError
          else Inr (db\<lparr>notifications := replace_by n_id n (notifications db)\<rparr>))"

text \<open>
  \<open>INSERT \<dots> ON CONFLICT ON CONSTRAINT uq_notifications_user_booking_type DO NOTHING
  RETURNING\<close>: the inserted row, or \<open>None\<close> and no change when the key is taken. Other
  violations are still errors.
\<close>

definition insert_notification_nothing ::
  "notification \<Rightarrow> database \<Rightarrow> db_error + notification option \<times> database" where
  "insert_notification_nothing n db =
     (if \<not> notification_sized n then Inl DataError
      else if (\<exists>m \<in> set (notifications db). same_notification_key m n) then Inr (None, db)
      else if n_id n \<in> n_id ` set (notifications db) \<or> \<not> notification_checks db n
      then Inl IntegrityError
      else Inr (Some n, db\<lparr>notifications := notifications db @ [n]\<rparr>))"

end
