(* ===== verification/Session.thy ===== *)
theory Session
  imports Models
begin

text \<open>
  The database session of \<open>app/db/session.py\<close> (\<open>autocommit=False, autoflush=False\<close>).
  \<open>store\<close> is the committed database; \<open>txn\<close> is what this transaction's statements
  see; \<open>pending\<close> holds the ORM changes that no flush has sent yet, so queries do not see
  them. \<open>commit\<close> flushes and publishes, \<open>rollback\<close> forgets, and closing the session
  (the \<open>finally\<close> of \<open>get_db\<close>) keeps only what was committed.

  The environment of a request is part of the record: the transaction's \<open>now()\<close>, the
  process clock, the sequence of \<open>uuid4()\<close> results, and the UTC offset the database
  session reports a stored instant in.
\<close>

section \<open>Exceptions of a request\<close>

datatype exn =
    HTTPException (status_code: int) (detail: string) (headers: "(string \<times> string) list")
  | DBError db_error
  | RedisError string
  | ValueError string
  | TypeError string
  | KeyError string

abbreviation http :: "int \<Rightarrow> string \<Rightarrow> exn" where
  "http code msg \<equiv> HTTPException code msg []"

section \<open>ORM changes\<close>

datatype orm_change =
    AddUser user
  | AddBooking booking
  | SaveBooking booking
  | AddReview review
  | SaveReview review
  | DeleteReview uuid
  | SaveNotification notification

fun apply_write :: "timestamp \<Rightarrow> orm_change \<Rightarrow> database \<Rightarrow> db_error + database" where
  "apply_write now (AddUser u) db = insert_user u db"
| "apply_write now (AddBooking b) db = insert_booking b db"
| "apply_write now (SaveBooking b) db = update_booking_row now b db"
| "apply_write now (AddReview r) db = insert_review r db"
| "apply_write now (SaveReview r) db = update_review_row now r db"
| "apply_write now (DeleteReview i) db = delete_review_row i db"
| "apply_write now (SaveNotification n) db = update_notification_row n db"

fun apply_writes :: "timestamp \<Rightarrow> orm_change list \<Rightarrow> database \<Rightarrow> db_error + database" where
  "apply_writes now [] db = Inr db"
| "apply_writes now (w # ws) db =
     (case apply_write now w db of Inl e \<Rightarrow> Inl e | Inr db' \<Rightarrow> apply_writes now ws db')"

section \<open>The session\<close>

record session =
  store :: database
  txn :: database
  pending :: "orm_change list"
  tx_now :: timestamp
  py_now :: timestamp
  rand :: "nat \<Rightarrow> uuid"
  drawn :: nat
  zone :: "timestamp \<Rightarrow> int"

type_synonym 'a service = "(session, exn, 'a) svc"

record environment =
  env_tx_now :: timestamp
  env_py_now :: timestamp
  env_rand :: "nat \<Rightarrow> uuid"
  env_zone :: "timestamp \<Rightarrow> int"

text \<open>\<open>SessionLocal()\<close>\<close>

definition open_session :: "environment \<Rightarrow> database \<Rightarrow> session" where
  "open_session env db =
     \<lparr>store = db, txn = db, pending = [], tx_now = env_tx_now env, py_now = env_py_now env,
      rand = env_rand env, drawn = 0, zone = env_zone env\<rparr>"

definition uuid4 :: "uuid service" where
  "uuid4 s = (Inr (rand s (drawn s)), s\<lparr>drawn := Suc (drawn s)\<rparr>)"

definition add_pending :: "orm_change \<Rightarrow> unit service" where
  "add_pending w = modifyE (\<lambda>s. s\<lparr>pending := pending s @ [w]\<rparr>)"

definition flush :: "unit service" where
  "flush s = (case apply_writes (tx_now s) (pending s) (txn s) of
       Inl e \<Rightarrow> (Inl (DBError e), s\<lparr>txn := store s, pending := []\<rparr>)
     | Inr db \<Rightarrow> (Inr (), s\<lparr>txn := db, pending := []\<rparr>))"

definition commit :: "unit service" where
  "commit = thenE flush (modifyE (\<lambda>s. s\<lparr>store := txn s\<rparr>))"

definition rollback :: "unit service" where
  "rollback = modifyE (\<lambda>s. s\<lparr>txn := store s, pending := []\<rparr>)"

text \<open>\<open>try: m except Exception: db.rollback(); raise\<close>\<close>

definition or_rollback :: "'a service \<Rightarrow> 'a service" where
  "or_rollback m = catchE m (\<lambda>e. thenE rollback (raiseE e))"

text \<open>
  \<open>get_db\<close>: the request runs in a fresh session, which is closed whatever happens; the
  database keeps what was committed.
\<close>

definition with_session :: "environment \<Rightarrow> 'a service \<Rightarrow> database \<Rightarrow> (exn + 'a) \<times> database" where
  "with_session env m db = (case m (open_session env db) of (r, s) \<Rightarrow> (r, store s))"

text \<open>\<open>db.get(Model, id)\<close>; the handlers only read objects they have not changed yet.\<close>

definition db_get_user :: "uuid \<Rightarrow> user option service" where
  "db_get_user i = readE (\<lambda>s. get_user (txn s) i)"

definition db_get_booking :: "uuid \<Rightarrow> booking option service" where
  "db_get_booking i = readE (\<lambda>s. get_booking (txn s) i)"

definition db_get_review :: "uuid \<Rightarrow> review option service" where
  "db_get_review i = readE (\<lambda>s. get_review (txn s) i)"

definition db_get_notification :: "uuid \<Rightarrow> notification option service" where
  "db_get_notification i = readE (\<lambda>s. get_notification (txn s) i)"

text \<open>
  A query whose parameters have SQL types: psycopg refuses a text with a NUL, and PostgreSQL an offset
  that is no \<open>bigint\<close>; \<open>fits\<close> says that they have none.
\<close>

definition select_rows :: "bool \<Rightarrow> (database \<Rightarrow> 'a) \<Rightarrow> 'a service" where
  "select_rows fits q = thenE (raise_if (\<not> fits) (DBError DataError)) (readE (\<lambda>s. q (txn s)))"

text \<open>\<open>db.refresh(obj)\<close>: read the row again; a missing row is an error.\<close>

definition refreshed :: "('k \<Rightarrow> 'r option service) \<Rightarrow> 'k \<Rightarrow> 'r service" where
  "refreshed get i = bindE (get i)
     (\<lambda>x. case x of None \<Rightarrow> raiseE (DBError InvalidRequestError) | Some r \<Rightarrow> returnE r)"

section \<open>Facts about sessions\<close>

lemma open_session_simps [simp]:
  "store (open_session env db) = db" "txn (open_session env db) = db"
  "pending (open_session env db) = []" "tx_now (open_session env db) = env_tx_now env"
  "py_now (open_session env db) = env_py_now env" "rand (open_session env db) = env_rand env"
  "drawn (open_session env db) = 0" "zone (open_session env db) = env_zone env"
  by (simp_all add: open_session_def)

lemmas db_get_defs = db_get_user_def db_get_booking_def db_get_review_def db_get_notification_def

lemma bindE_uuid4: "bindE uuid4 f s = f (rand s (drawn s)) (s\<lparr>drawn := Suc (drawn s)\<rparr>)"
  by (simp add: bindE_def uuid4_def)

lemma select_rows_run:
  "select_rows fits q s = (if fits then Inr (q (txn s)) else Inl (DBError DataError), s)"
  by (simp add: select_rows_def thenE_def bindE_def raise_if_apply readE_def)

lemma bindE_select:
  "bindE (select_rows fits q) k s = (if fits then k (q (txn s)) s else (Inl (DBError DataError), s))"
  by (simp add: bindE_def select_rows_run)

lemma thenE_add_pending: "thenE (add_pending w) k s = k (s\<lparr>pending := pending s @ [w]\<rparr>)"
  by (simp add: add_pending_def thenE_modifyE)

lemma thenE_flush:
  "thenE flush k s = (case apply_writes (tx_now s) (pending s) (txn s) of
      Inl e \<Rightarrow> (Inl (DBError e), s\<lparr>txn := store s, pending := []\<rparr>)
    | Inr db \<Rightarrow> k (s\<lparr>txn := db, pending := []\<rparr>))"
  by (simp add: thenE_def bindE_def flush_def split: sum.split)

lemmas session_run = svc_run bindE_uuid4 thenE_add_pending thenE_flush

lemma flush_nothing: "pending s = [] \<Longrightarrow> flush s = (Inr (), s)"
  by (simp add: flush_def)

lemma commit_Inr:
  "commit s = (Inr x, t) \<longleftrightarrow>
     (\<exists>db. apply_writes (tx_now s) (pending s) (txn s) = Inr db
        \<and> t = s\<lparr>txn := db, store := db, pending := []\<rparr>)"
  by (auto simp: commit_def thenE_def bindE_def flush_def split: sum.split)

lemma commit_Inl:
  "commit s = (Inl x, t) \<longleftrightarrow>
     (\<exists>e. apply_writes (tx_now s) (pending s) (txn s) = Inl e
        \<and> x = DBError e \<and> t = s\<lparr>txn := store s, pending := []\<rparr>)"
  by (auto simp: commit_def thenE_def bindE_def flush_def split: sum.split)

lemma thenE_commit:
  "thenE commit k s = (case apply_writes (tx_now s) (pending s) (txn s) of
      Inl e \<Rightarrow> (Inl (DBError e), s\<lparr>txn := store s, pending := []\<rparr>)
    | Inr db \<Rightarrow> k (s\<lparr>txn := db, pending := [], store := db\<rparr>))"
  by (simp add: thenE_def bindE_def commit_def flush_def split: sum.split)

lemma commit_store_cases:
  "store (snd (commit s)) = store s
   \<or> apply_writes (tx_now s) (pending s) (txn s) = Inr (store (snd (commit s)))"
  by (auto simp: commit_def thenE_def bindE_def flush_def split: sum.split)

text \<open>
  \<open>quiet m\<close>: \<open>m\<close> commits nothing and leaves no ORM change behind. The store of a
  session changes at \<open>commit\<close> and nowhere else.
\<close>

definition quiet :: "'a service \<Rightarrow> bool" where
  "quiet m \<longleftrightarrow>
     (\<forall>s. store (snd (m s)) = store s \<and> (pending s = [] \<longrightarrow> pending (snd (m s)) = []))"

lemma quietD: "quiet m \<Longrightarrow> m s = (r, t) \<Longrightarrow> store t = store s \<and> (pending s = [] \<longrightarrow> pending t = [])"
  by (metis quiet_def snd_conv)

lemma quiet_bindE [quiet_intros]:
  assumes m: "quiet m" and f: "\<And>x. quiet (f x)"
  shows "quiet (bindE m f)"
  unfolding quiet_def
proof
  fix s
  obtain r t where run: "m s = (r, t)" by (cases "m s")
  show "store (snd (bindE m f s)) = store s \<and> (pending s = [] \<longrightarrow> pending (snd (bindE m f s)) = [])"
  proof (cases r)
    case (Inl e)
    with run quietD [OF m run] show ?thesis by (simp add: bindE_def)
  next
    case (Inr x)
    obtain r' u where "f x t = (r', u)" by (cases "f x t")
    with run Inr quietD [OF m run] quietD [OF f this] show ?thesis by (simp add: bindE_def)
  qed
qed

lemma quiet_thenE [quiet_intros]: "quiet m \<Longrightarrow> quiet k \<Longrightarrow> quiet (thenE m k)"
  by (simp add: thenE_def quiet_bindE)

lemma quiet_basic [quiet_intros]:
  "quiet (returnE x)" "quiet (raiseE e)" "quiet (readE f)" "quiet (raise_if c e)" "quiet uuid4"
  "quiet flush" "quiet rollback" "quiet (db_get_user i)" "quiet (db_get_booking i)"
  "quiet (db_get_review i)" "quiet (db_get_notification i)"
  by (auto simp: quiet_def raise_if_apply uuid4_def flush_def rollback_def db_get_defs
      split: sum.split)

lemma quiet_select [quiet_intros]: "quiet (select_rows fits q)"
  by (simp add: quiet_def select_rows_run)

lemma keeps_select [keeps_intros]: "keeps I (select_rows fits q)"
  unfolding select_rows_def by (intro keeps_intros)

lemma quiet_if [quiet_intros]:
  "(c \<Longrightarrow> quiet m) \<Longrightarrow> (\<not> c \<Longrightarrow> quiet k) \<Longrightarrow> quiet (if c then m else k)"
  by simp

lemma quiet_case_option [quiet_intros]:
  "quiet m \<Longrightarrow> (\<And>x. quiet (f x)) \<Longrightarrow> quiet (case x of None \<Rightarrow> m | Some y \<Rightarrow> f y)"
  by (simp split: option.split)

lemma quiet_add_flush [quiet_intros]: "quiet k \<Longrightarrow> quiet (thenE (add_pending w) (thenE flush k))"
proof -
  have "quiet (thenE (add_pending w) flush)"
    by (auto simp: quiet_def thenE_add_pending flush_def split: sum.split)
  moreover assume "quiet k"
  ultimately have "quiet (thenE (thenE (add_pending w) flush) k)" by (rule quiet_thenE)
  then show ?thesis by (simp add: thenE_def bindE_assoc)
qed

section \<open>Atomic handlers\<close>

text \<open>\<open>safe m\<close>: if \<open>m\<close> raises, nothing has been committed.\<close>

definition safe :: "'a service \<Rightarrow> bool" where
  "safe m \<longleftrightarrow> (\<forall>s e t. pending s = [] \<longrightarrow> m s = (Inl e, t) \<longrightarrow> store t = store s)"

lemma safeI: "(\<And>s e t. pending s = [] \<Longrightarrow> m s = (Inl e, t) \<Longrightarrow> store t = store s) \<Longrightarrow> safe m"
  unfolding safe_def by blast

lemma safeD: "safe m \<Longrightarrow> pending s = [] \<Longrightarrow> m s = (Inl e, t) \<Longrightarrow> store t = store s"
  unfolding safe_def by blast

lemma safe_quiet:
  assumes "quiet m"
  shows "safe m"
proof (rule safeI)
  fix s e t assume "m s = (Inl e, t)"
  from quietD [OF assms this] show "store t = store s" by (rule conjunct1)
qed

lemma safe_bindE [safe_intros]:
  assumes m: "quiet m" and f: "\<And>x. safe (f x)"
  shows "safe (bindE m f)"
proof (rule safeI)
  fix s e t assume "pending s = []" and run: "bindE m f s = (Inl e, t)"
  obtain r u where mr: "m s = (r, u)" by (cases "m s")
  show "store t = store s"
  proof (cases r)
    case (Inl e')
    with mr run quietD [OF m mr] show ?thesis by (simp add: bindE_def)
  next
    case (Inr x)
    with mr run have "f x u = (Inl e, t)" by (simp add: bindE_def)
    moreover from quietD [OF m mr] \<open>pending s = []\<close> have "pending u = []" "store u = store s"
      by simp_all
    ultimately show ?thesis using safeD [OF f] by metis
  qed
qed

lemma safe_thenE [safe_intros]: "quiet m \<Longrightarrow> safe k \<Longrightarrow> safe (thenE m k)"
  by (simp add: thenE_def safe_bindE)

lemma safe_basic [safe_intros]: "safe (returnE x)" "safe (raiseE e)"
  by (simp_all add: safe_def)

lemma safe_if [safe_intros]:
  "(c \<Longrightarrow> safe m) \<Longrightarrow> (\<not> c \<Longrightarrow> safe k) \<Longrightarrow> safe (if c then m else k)"
  by simp

lemma safe_case_option [safe_intros]:
  "safe m \<Longrightarrow> (\<And>x. safe (f x)) \<Longrightarrow> safe (case x of None \<Rightarrow> m | Some y \<Rightarrow> f y)"
  by (simp split: option.split)

lemma safe_add_flush [safe_intros]: "safe k \<Longrightarrow> safe (thenE (add_pending w) (thenE flush k))"
proof -
  have "quiet (thenE (add_pending w) flush)"
    by (auto simp: quiet_def thenE_add_pending flush_def split: sum.split)
  moreover assume "safe k"
  ultimately have "safe (thenE (thenE (add_pending w) flush) k)" by (rule safe_thenE)
  then show ?thesis by (simp add: thenE_def bindE_assoc)
qed

text \<open>A handler that ends in a commit: the only failure is the commit's own.\<close>

lemma or_rollback_run:
  "or_rollback m s = (case m s of
      (Inl e, u) \<Rightarrow> (Inl e, u\<lparr>txn := store u, pending := []\<rparr>)
    | (Inr x, u) \<Rightarrow> (Inr x, u))"
  by (simp add: or_rollback_def catchE_def thenE_modifyE rollback_def split: prod.split sum.split)

lemma or_rollback_Inr: "or_rollback m s = (Inr x, t) \<longleftrightarrow> m s = (Inr x, t)"
  by (cases "m s"; cases "fst (m s)") (auto simp: or_rollback_run)

lemma or_rollback_Inl:
  "or_rollback m s = (Inl e, t) \<longleftrightarrow> (\<exists>u. m s = (Inl e, u) \<and> t = u\<lparr>txn := store u, pending := []\<rparr>)"
  by (cases "m s"; cases "fst (m s)") (auto simp: or_rollback_run)

lemma safe_commit [safe_intros]:
  "safe (or_rollback commit)" "safe (thenE (add_pending w) (or_rollback commit))"
  by (auto simp: safe_def thenE_add_pending or_rollback_Inl commit_Inl)

lemma refreshed_run:
  "refreshed get i s = (case get i s of
      (Inl e, t) \<Rightarrow> (Inl e, t)
    | (Inr None, t) \<Rightarrow> (Inl (DBError InvalidRequestError), t)
    | (Inr (Some r), t) \<Rightarrow> (Inr r, t))"
  by (auto simp: refreshed_def bindE_def split: prod.split sum.split option.split)

text \<open>
  Commit, then read the row back: what happens in full. \<open>look\<close> is the lookup of the
  table the row lives in; the premise says that the writes leave the row there.
\<close>

lemma commit_refresh_run:
  assumes get: "get i = readE (\<lambda>s. look (txn s) i)"
    and there: "\<And>db. apply_writes (tx_now s) (pending s) (txn s) = Inr db \<Longrightarrow> look db i \<noteq> None"
  shows "or_rollback (thenE commit (refreshed get i)) s =
     (case apply_writes (tx_now s) (pending s) (txn s) of
        Inl e \<Rightarrow> (Inl (DBError e), s\<lparr>txn := store s, pending := []\<rparr>)
      | Inr db \<Rightarrow> (Inr (the (look db i)), s\<lparr>txn := db, store := db, pending := []\<rparr>))"
proof (cases "apply_writes (tx_now s) (pending s) (txn s)")
  case (Inl e)
  then show ?thesis
    by (simp add: or_rollback_run thenE_def bindE_def commit_def flush_def)
next
  case (Inr db)
  with there obtain r where "look db i = Some r" by auto
  with Inr show ?thesis
    by (simp add: or_rollback_run thenE_def bindE_def commit_def flush_def refreshed_def get)
qed

lemma with_session_run:
  "with_session env m db = (r, db') \<longleftrightarrow> (\<exists>t. m (open_session env db) = (r, t) \<and> db' = store t)"
  by (auto simp: with_session_def split: prod.splits)

lemma with_session_error:
  assumes "safe m" and "with_session env m db = (Inl e, db')"
  shows "db' = db"
  using assms safeD [of m "open_session env db"] by (auto simp: with_session_run)

end
