(* ===== verification/Integrity.thy ===== *)
theory Integrity
  imports Session
begin

text \<open>
  Relational integrity: what the constraints of \<open>app/models\<close> promise about a whole
  database, and that every write keeps it. The interface the services rely on is the locale
  \<open>keyed_table\<close> (lookup after insert) and its extension \<open>updatable_table\<close> (lookup
  after update), interpreted on the tables of \<open>Models\<close>.
\<close>

section \<open>Integrity of a database\<close>

definition users_ok :: "database \<Rightarrow> bool" where
  "users_ok db \<longleftrightarrow>
     distinct (map u_id (users db)) \<and> distinct (map u_email (users db))
     \<and> (\<forall>u \<in> set (users db). user_sized u)"

definition bookings_ok :: "database \<Rightarrow> bool" where
  "bookings_ok db \<longleftrightarrow>
     distinct (map b_id (bookings db))
     \<and> (\<forall>b \<in> set (bookings db). booking_checks db b \<and> booking_sized b)"

definition reviews_ok :: "database \<Rightarrow> bool" where
  "reviews_ok db \<longleftrightarrow>
     distinct (map r_id (reviews db)) \<and> distinct (map r_booking_id (reviews db))
     \<and> (\<forall>r \<in> set (reviews db). review_checks db r \<and> comment_ok (r_comment r))"

definition notifications_ok :: "database \<Rightarrow> bool" where
  "notifications_ok db \<longleftrightarrow>
     distinct (map n_id (notifications db))
     \<and> (\<forall>m \<in> set (notifications db). \<forall>n \<in> set (notifications db).
          same_notification_key m n \<longrightarrow> n_id m = n_id n)
     \<and> (\<forall>n \<in> set (notifications db). notification_checks db n \<and> notification_sized n)"

definition integrity :: "database \<Rightarrow> bool" where
  "integrity db \<longleftrightarrow> users_ok db \<and> bookings_ok db \<and> reviews_ok db \<and> notifications_ok db"

lemmas integrity_defs = integrity_def users_ok_def bookings_ok_def reviews_ok_def notifications_ok_def

lemmas checks_defs = booking_checks_def review_checks_def notification_checks_def
  has_user_def has_booking_def

section \<open>Writes keep integrity\<close>

lemma distinct_map_snoc:
  "distinct (map f (xs @ [x])) \<longleftrightarrow> distinct (map f xs) \<and> f x \<notin> f ` set xs"
  by auto

text \<open>The constraints of one row look at the other tables through their keys only.\<close>

lemma checks_cong:
  assumes "u_id ` set (users d') = u_id ` set (users d)"
    and "b_id ` set (bookings d') = b_id ` set (bookings d)"
  shows "booking_checks d' = booking_checks d" "review_checks d' = review_checks d"
    "notification_checks d' = notification_checks d"
proof -
  have "has_user d' = has_user d" "has_booking d' = has_booking d"
    unfolding has_user_def [abs_def] has_booking_def [abs_def] assms by (rule refl)+
  then show "booking_checks d' = booking_checks d" "review_checks d' = review_checks d"
    "notification_checks d' = notification_checks d"
    by (auto simp: fun_eq_iff booking_checks_def review_checks_def notification_checks_def
        split: option.split)
qed

lemma checks_mono:
  assumes "u_id ` set (users d) \<subseteq> u_id ` set (users d')"
    and "b_id ` set (bookings d) \<subseteq> b_id ` set (bookings d')"
  shows "booking_checks d x \<Longrightarrow> booking_checks d' x" "review_checks d y \<Longrightarrow> review_checks d' y"
    "notification_checks d z \<Longrightarrow> notification_checks d' z"
proof -
  have mono: "has_user d i \<Longrightarrow> has_user d' i" "has_booking d i \<Longrightarrow> has_booking d' i" for i
    using assms by (auto simp: has_user_def has_booking_def)
  then show "booking_checks d x \<Longrightarrow> booking_checks d' x" "review_checks d y \<Longrightarrow> review_checks d' y"
    by (auto simp: booking_checks_def review_checks_def)
  show "notification_checks d z \<Longrightarrow> notification_checks d' z"
    using mono by (auto simp: notification_checks_def split: option.splits)
qed

lemma same_notification_key_sym: "same_notification_key a b = same_notification_key b a"
  unfolding same_notification_key_def by metis

lemma insert_user_integrity:
  assumes ins: "insert_user u db = Inr db'" and ok: "integrity db"
  shows "integrity db'"
proof -
  from ins have new: "user_sized u" "u_id u \<notin> u_id ` set (users db)"
      "u_email u \<notin> u_email ` set (users db)"
    and rows: "users db' = users db @ [u]" "bookings db' = bookings db"
      "reviews db' = reviews db" "notifications db' = notifications db"
    by (auto simp: insert_user_def has_user_def split: if_splits)
  have mono: "booking_checks db x \<Longrightarrow> booking_checks db' x"
    "review_checks db y \<Longrightarrow> review_checks db' y"
    "notification_checks db z \<Longrightarrow> notification_checks db' z" for x y z
    by (rule checks_mono, auto simp: rows)+
  with ok new show ?thesis
    unfolding integrity_defs rows distinct_map_snoc by (simp add: rows)
qed

lemma insert_booking_integrity:
  assumes ins: "insert_booking b db = Inr db'" and ok: "integrity db"
  shows "integrity db'"
proof -
  from ins have new: "booking_sized b" "booking_checks db b" "b_id b \<notin> b_id ` set (bookings db)"
    and rows: "users db' = users db" "bookings db' = bookings db @ [b]"
      "reviews db' = reviews db" "notifications db' = notifications db"
    by (auto simp: insert_booking_def has_booking_def split: if_splits)
  have mono: "booking_checks db x \<Longrightarrow> booking_checks db' x"
    "review_checks db y \<Longrightarrow> review_checks db' y"
    "notification_checks db z \<Longrightarrow> notification_checks db' z" for x y z
    by (rule checks_mono, auto simp: rows)+
  with ok new show ?thesis
    unfolding integrity_defs rows distinct_map_snoc by (simp add: rows)
qed

lemma insert_review_integrity:
  assumes ins: "insert_review r db = Inr db'" and ok: "integrity db"
  shows "integrity db'"
proof -
  from ins have new: "comment_ok (r_comment r)" "review_checks db r" "r_id r \<notin> r_id ` set (reviews db)"
      "r_booking_id r \<notin> r_booking_id ` set (reviews db)"
    and rows: "users db' = users db" "bookings db' = bookings db"
      "reviews db' = reviews db @ [r]" "notifications db' = notifications db"
    by (auto simp: insert_review_def split: if_splits)
  have checks: "booking_checks db' = booking_checks db" "review_checks db' = review_checks db"
    "notification_checks db' = notification_checks db"
    by (rule checks_cong; simp add: rows)+
  with ok new show ?thesis
    unfolding integrity_defs rows distinct_map_snoc by (simp add: rows)
qed

lemma update_booking_row_integrity:
  assumes upd: "update_booking_row now b db = Inr db'" and ok: "integrity db"
  shows "integrity db'"
proof (cases "db' = db")
  case True
  with ok show ?thesis by simp
next
  case False
  let ?b = "b\<lparr>b_updated_at := now\<rparr>"
  from upd False have new: "booking_sized b" "booking_checks db b"
    and rows: "bookings db' = replace_by b_id ?b (bookings db)" "users db' = users db"
      "reviews db' = reviews db" "notifications db' = notifications db"
    by (auto simp: update_booking_row_def split: option.splits if_splits)
  have checks: "booking_checks db' = booking_checks db" "review_checks db' = review_checks db"
    "notification_checks db' = notification_checks db"
    by (rule checks_cong; simp add: rows)+
  have "bookings_ok db'"
    using ok new
    by (auto simp: integrity_def bookings_ok_def checks rows booking_sized_def booking_checks_def
        dest!: in_replace_byD)
  with ok show ?thesis
    by (simp add: integrity_def users_ok_def reviews_ok_def notifications_ok_def checks rows)
qed

lemma distinct_map_replace_other:
  assumes "distinct (map key xs)" and "distinct (map g xs)"
    and "\<And>x. x \<in> set xs \<Longrightarrow> key x \<noteq> key r \<Longrightarrow> g x \<noteq> g r"
  shows "distinct (map g (replace_by key r xs))"
  using assms
proof (induction xs)
  case Nil
  then show ?case by (simp add: replace_by_def)
next
  case (Cons x xs)
  then have IH: "distinct (map g (replace_by key r xs))" by simp
  show ?case
  proof (cases "key x = key r")
    case True
    with Cons.prems(1) have new: "key r \<notin> key ` set xs" by auto
    have "g r \<notin> g ` set xs"
    proof
      assume "g r \<in> g ` set xs"
      then obtain y where y: "y \<in> set xs" "g y = g r" by auto
      with new have "key y \<noteq> key r" by (auto simp: image_iff)
      with y Cons.prems(3) [of y] show False by simp
    qed
    with Cons.prems(2) True new show ?thesis
      by (simp add: replace_by_simps replace_by_absent)
  next
    case False
    with Cons.prems have "g x \<notin> g ` set (replace_by key r xs)"
      by (auto dest!: in_replace_byD)
    with IH False show ?thesis by (auto simp: replace_by_simps)
  qed
qed

lemma update_review_row_integrity:
  assumes upd: "update_review_row now r db = Inr db'" and ok: "integrity db"
  shows "integrity db'"
proof (cases "db' = db")
  case True
  with ok show ?thesis by simp
next
  case False
  let ?r = "r\<lparr>r_updated_at := now\<rparr>"
  from upd False have new: "review_checks db r" "comment_ok (r_comment r)"
      "\<And>x. x \<in> set (reviews db) \<Longrightarrow> r_id x \<noteq> r_id r \<Longrightarrow> r_booking_id x \<noteq> r_booking_id r"
    and rows: "reviews db' = replace_by r_id ?r (reviews db)" "users db' = users db"
      "bookings db' = bookings db" "notifications db' = notifications db"
    by (auto simp: update_review_row_def split: option.splits if_splits)
  have checks: "booking_checks db' = booking_checks db" "review_checks db' = review_checks db"
    "notification_checks db' = notification_checks db"
    by (rule checks_cong; simp add: rows)+
  have "distinct (map r_booking_id (replace_by r_id ?r (reviews db)))"
    by (rule distinct_map_replace_other) (use ok new in \<open>auto simp: integrity_def reviews_ok_def\<close>)
  moreover have "review_checks db ?r" "comment_ok (r_comment ?r)"
    using new(1,2) by (simp_all add: review_checks_def)
  ultimately have "reviews_ok db'"
    using ok by (auto simp: integrity_def reviews_ok_def checks rows dest!: in_replace_byD)
  with ok show ?thesis
    by (simp add: integrity_def users_ok_def bookings_ok_def notifications_ok_def checks rows)
qed

lemma delete_review_row_integrity:
  assumes del: "delete_review_row i db = Inr db'" and ok: "integrity db"
  shows "integrity db'"
proof -
  from del have rows: "users db' = users db" "bookings db' = bookings db"
      "reviews db' = delete_by r_id i (reviews db)" "notifications db' = notifications db"
    by (auto simp: delete_review_row_def)
  have checks: "booking_checks db' = booking_checks db" "review_checks db' = review_checks db"
    "notification_checks db' = notification_checks db"
    by (rule checks_cong; simp add: rows)+
  with ok show ?thesis
    by (simp add: integrity_defs rows set_delete_by)
qed

lemma update_notification_row_integrity:
  assumes upd: "update_notification_row n db = Inr db'" and ok: "integrity db"
  shows "integrity db'"
proof (cases "db' = db")
  case True
  with ok show ?thesis by simp
next
  case False
  from upd False have new: "notification_sized n" "notification_checks db n"
      "\<And>m. m \<in> set (notifications db) \<Longrightarrow> n_id m \<noteq> n_id n \<Longrightarrow> \<not> same_notification_key m n"
    and rows: "notifications db' = replace_by n_id n (notifications db)" "users db' = users db"
      "bookings db' = bookings db" "reviews db' = reviews db"
    by (auto simp: update_notification_row_def split: option.splits if_splits)
  have checks: "booking_checks db' = booking_checks db" "review_checks db' = review_checks db"
    "notification_checks db' = notification_checks db"
    by (rule checks_cong; simp add: rows)+
  from new(3) have
    "\<And>m. m \<in> set (notifications db) \<Longrightarrow> n_id m \<noteq> n_id n \<Longrightarrow> \<not> same_notification_key n m"
    using same_notification_key_sym [of n] by blast
  with ok new have "notifications_ok db'"
    by (auto simp: integrity_def notifications_ok_def checks rows dest!: in_replace_byD)
  with ok show ?thesis
    by (simp add: integrity_def users_ok_def bookings_ok_def reviews_ok_def checks rows)
qed

lemma insert_notification_integrity:
  assumes ins: "insert_notification_nothing n db = Inr (x, db')" and ok: "integrity db"
  shows "integrity db'"
proof (cases x)
  case None
  with ins ok show ?thesis by (auto simp: insert_notification_nothing_def split: if_splits)
next
  case (Some y)
  with ins have new: "notification_sized n" "notification_checks db n"
      "\<And>m. m \<in> set (notifications db) \<Longrightarrow> \<not> same_notification_key m n"
      "n_id n \<notin> n_id ` set (notifications db)"
    and rows: "notifications db' = notifications db @ [n]" "users db' = users db"
      "bookings db' = bookings db" "reviews db' = reviews db"
    by (auto simp: insert_notification_nothing_def split: if_splits)
  have checks: "booking_checks db' = booking_checks db" "review_checks db' = review_checks db"
    "notification_checks db' = notification_checks db"
    by (rule checks_cong; simp add: rows)+
  from new(3) have "\<And>m. m \<in> set (notifications db) \<Longrightarrow> \<not> same_notification_key n m"
    using same_notification_key_sym [of n] by blast
  with ok new have "notifications_ok db'"
    by (auto simp: integrity_def notifications_ok_def checks rows)
  with ok show ?thesis
    by (simp add: integrity_def users_ok_def bookings_ok_def reviews_ok_def checks rows)
qed

lemma apply_write_integrity:
  "apply_write now w db = Inr db' \<Longrightarrow> integrity db \<Longrightarrow> integrity db'"
  by (cases w)
    (auto intro: insert_user_integrity insert_booking_integrity insert_review_integrity
      update_booking_row_integrity update_review_row_integrity delete_review_row_integrity
      update_notification_row_integrity)

lemma apply_writes_integrity:
  "apply_writes now ws db = Inr db' \<Longrightarrow> integrity db \<Longrightarrow> integrity db'"
  by (induction ws arbitrary: db) (auto split: sum.splits dest: apply_write_integrity)

text \<open>Both views of a session, committed and uncommitted, stay within the constraints.\<close>

definition session_ok :: "session \<Rightarrow> bool" where
  "session_ok s \<longleftrightarrow> integrity (store s) \<and> integrity (txn s)"

lemma session_ok_open [simp]: "session_ok (open_session env db) \<longleftrightarrow> integrity db"
  by (simp add: session_ok_def)

lemma keeps_session_ok_basic [keeps_intros]:
  "keeps session_ok (add_pending w)" "keeps session_ok uuid4" "keeps session_ok rollback"
  by (simp_all add: keeps_def session_ok_def add_pending_def uuid4_def rollback_def)

lemma keeps_flush [keeps_intros]: "keeps session_ok flush"
proof (rule keepsI)
  fix s assume ok: "session_ok s"
  show "session_ok (snd (flush s))"
  proof (cases "apply_writes (tx_now s) (pending s) (txn s)")
    case (Inl e)
    with ok show ?thesis by (simp add: flush_def session_ok_def)
  next
    case (Inr db)
    with ok apply_writes_integrity [OF Inr] show ?thesis by (simp add: flush_def session_ok_def)
  qed
qed

lemma keeps_commit [keeps_intros]: "keeps session_ok commit"
  unfolding commit_def
  by (intro keeps_intros) (simp add: keeps_def session_ok_def)

lemma keeps_or_rollback [keeps_intros]:
  "keeps session_ok m \<Longrightarrow> keeps session_ok (or_rollback m)"
  unfolding or_rollback_def by (intro keeps_intros)

section \<open>The table interface\<close>

locale keyed_table =
  fixes get :: "'d \<Rightarrow> 'k \<Rightarrow> 'r option"
    and ins :: "'r \<Rightarrow> 'd \<Rightarrow> 'e + 'd"
    and key :: "'r \<Rightarrow> 'k"
  assumes get_key: "get d k = Some r \<Longrightarrow> key r = k"
    and ins_fresh: "ins r d = Inr d' \<Longrightarrow> get d (key r) = None"
    and get_ins: "ins r d = Inr d' \<Longrightarrow> get d' k = (if k = key r then Some r else get d k)"
begin

lemma get_ins_same: "ins r d = Inr d' \<Longrightarrow> get d' (key r) = Some r"
  by (simp add: get_ins)

lemma get_ins_other: "ins r d = Inr d' \<Longrightarrow> get d k = Some x \<Longrightarrow> get d' k = Some x"
  using ins_fresh [of r d d'] by (auto simp: get_ins)

lemma ins_taken: "get d (key r) = Some x \<Longrightarrow> \<exists>e. ins r d = Inl e"
  using ins_fresh [of r d] by (cases "ins r d") auto

lemma ins_twice: "ins r d = Inr d' \<Longrightarrow> key r' = key r \<Longrightarrow> \<exists>e. ins r' d' = Inl e"
  by (rule ins_taken [of _ _ r]) (simp add: get_ins)

end

locale updatable_table = keyed_table +
  fixes upd :: "'r \<Rightarrow> 'd \<Rightarrow> 'e + 'd"
    and same :: "'r \<Rightarrow> 'r \<Rightarrow> bool"
  assumes upd_present: "upd r d = Inr d' \<Longrightarrow> get d (key r) \<noteq> None"
    and get_upd_other: "upd r d = Inr d' \<Longrightarrow> k \<noteq> key r \<Longrightarrow> get d' k = get d k"
    and get_upd_same: "upd r d = Inr d' \<Longrightarrow> \<exists>x. get d' (key r) = Some x \<and> same r x"
begin

lemma upd_dom: "upd r d = Inr d' \<Longrightarrow> (get d' k = None) = (get d k = None)"
  using upd_present [of r d d'] get_upd_same [of r d d'] get_upd_other [of r d d' k]
  by (cases "k = key r") auto

lemma upd_missing: "get d (key r) = None \<Longrightarrow> \<exists>e. upd r d = Inl e"
  using upd_present [of r d] by (cases "upd r d") auto

lemma upd_after_ins: "ins r d = Inr d' \<Longrightarrow> upd x d' = Inr d'' \<Longrightarrow> key x = key r \<Longrightarrow>
    \<exists>y. get d'' (key r) = Some y \<and> same x y"
  using get_upd_same [of x d' d''] by simp

end

text \<open>Rows that agree on everything but \<open>updated_at\<close>, which an UPDATE sets itself.\<close>

definition same_booking :: "booking \<Rightarrow> booking \<Rightarrow> bool" where
  "same_booking a b \<longleftrightarrow> b\<lparr>b_updated_at := b_updated_at a\<rparr> = a"

definition same_review :: "review \<Rightarrow> review \<Rightarrow> bool" where
  "same_review a b \<longleftrightarrow> b\<lparr>r_updated_at := r_updated_at a\<rparr> = a"

lemma same_booking_fields:
  "same_booking a b \<Longrightarrow> b_id b = b_id a \<and> b_customer_id b = b_customer_id a
     \<and> b_provider_id b = b_provider_id a \<and> b_service_name b = b_service_name a
     \<and> b_start_time b = b_start_time a \<and> b_end_time b = b_end_time a
     \<and> b_status b = b_status a \<and> b_created_at b = b_created_at a"
  by (cases a; cases b) (simp add: same_booking_def)

interpretation user_table: keyed_table get_user insert_user u_id
  by unfold_locales
    (auto simp: get_user_def insert_user_def has_user_def lookup_by_None lookup_by_append
      split: if_splits option.splits dest: lookup_by_Some)

interpretation booking_table:
  updatable_table get_booking insert_booking b_id "update_booking_row now" same_booking for now
proof unfold_locales
  fix b db db' k
  assume upd: "update_booking_row now b db = Inr db'"
  show "get_booking db (b_id b) \<noteq> None"
    using upd by (auto simp: update_booking_row_def split: option.splits)
  show "get_booking db' k = get_booking db k" if "k \<noteq> b_id b"
    using upd that
    by (auto simp: update_booking_row_def get_booking_def lookup_by_replace
        split: option.splits if_splits)
  show "\<exists>x. get_booking db' (b_id b) = Some x \<and> same_booking b x"
    using upd
    by (cases b)
      (auto simp: update_booking_row_def get_booking_def lookup_by_replace same_booking_def
        split: option.splits if_splits)
qed (auto simp: get_booking_def insert_booking_def has_booking_def lookup_by_None lookup_by_append
    split: if_splits option.splits dest: lookup_by_Some)

interpretation review_table:
  updatable_table get_review insert_review r_id "update_review_row now" same_review for now
proof unfold_locales
  fix r db db' k
  assume upd: "update_review_row now r db = Inr db'"
  show "get_review db (r_id r) \<noteq> None"
    using upd by (auto simp: update_review_row_def split: option.splits)
  show "get_review db' k = get_review db k" if "k \<noteq> r_id r"
    using upd that
    by (auto simp: update_review_row_def get_review_def lookup_by_replace
        split: option.splits if_splits)
  show "\<exists>x. get_review db' (r_id r) = Some x \<and> same_review r x"
    using upd
    by (cases r)
      (auto simp: update_review_row_def get_review_def lookup_by_replace same_review_def
        split: option.splits if_splits)
qed (auto simp: get_review_def insert_review_def lookup_by_None lookup_by_append
    split: if_splits option.splits dest: lookup_by_Some)

section \<open>Fresh identifiers\<close>

text \<open>
  What the program relies on when it draws \<open>uuid4()\<close>: the first \<open>k\<close> identifiers of a
  request are distinct and not in use.
\<close>

definition fresh_ids :: "nat \<Rightarrow> environment \<Rightarrow> database \<Rightarrow> bool" where
  "fresh_ids k env db \<longleftrightarrow> inj_on (env_rand env) {..<k} \<and>
     (\<forall>i < k. env_rand env i \<notin> u_id ` set (users db) \<union> b_id ` set (bookings db)
         \<union> r_id ` set (reviews db) \<union> n_id ` set (notifications db))"

lemma fresh_idsD:
  assumes "fresh_ids k env db" and "i < k"
  shows "\<not> has_booking db (env_rand env i)" "env_rand env i \<notin> n_id ` set (notifications db)"
    "env_rand env i \<notin> r_id ` set (reviews db)" "\<not> has_user db (env_rand env i)"
    "j < k \<Longrightarrow> env_rand env i = env_rand env j \<longleftrightarrow> i = j"
  using assms by (auto simp: fresh_ids_def has_booking_def has_user_def dest: inj_onD)

lemma get_user_has: "get_user db i = Some p \<Longrightarrow> has_user db i"
  by (auto simp: has_user_def get_user_def dest!: lookup_by_Some)

lemma get_booking_has: "get_booking db i = Some b \<Longrightarrow> has_booking db i"
  by (auto simp: has_booking_def get_booking_def dest!: lookup_by_Some)

end
