(* ===== verification/Samples.thy ===== *)
theory Samples
  imports Integrity
begin

text \<open>
  A small database on which the general theorems are exercised: two customers, two
  providers, an administrator, and bookings in several states. Times are microseconds;
  \<open>hour\<close> counts from the epoch.
\<close>

definition hour :: "int \<Rightarrow> timestamp" where
  "hour n = n * 3600000000"

definition ada :: user where
  "ada = \<lparr>u_id = UUID 1, u_name = ''Ada'', u_email = ''ada@example.com'', u_role = CUSTOMER,
     u_password_hash = ''h1'', u_created_at = 0, u_updated_at = 0\<rparr>"

definition bob :: user where
  "bob = \<lparr>u_id = UUID 2, u_name = ''Bob'', u_email = ''bob@example.com'', u_role = PROVIDER,
     u_password_hash = ''h2'', u_created_at = 0, u_updated_at = 0\<rparr>"

definition cleo :: user where
  "cleo = \<lparr>u_id = UUID 3, u_name = ''Cleo'', u_email = ''cleo@example.com'', u_role = PROVIDER,
     u_password_hash = ''h3'', u_created_at = 0, u_updated_at = 0\<rparr>"

definition dan :: user where
  "dan = \<lparr>u_id = UUID 4, u_name = ''Dan'', u_email = ''dan@example.com'', u_role = CUSTOMER,
     u_password_hash = ''h4'', u_created_at = 0, u_updated_at = 0\<rparr>"

definition eve :: user where
  "eve = \<lparr>u_id = UUID 5, u_name = ''Eve'', u_email = ''eve@example.com'', u_role = ADMIN,
     u_password_hash = ''h5'', u_created_at = 0, u_updated_at = 0\<rparr>"

text \<open>Ada's booking with Bob, in a given state.\<close>

definition sample_booking :: "booking_status \<Rightarrow> booking" where
  "sample_booking st = \<lparr>b_id = UUID 10, b_customer_id = UUID 1, b_provider_id = UUID 2,
     b_service_name = ''Haircut'', b_start_time = hour 10, b_end_time = hour 11,
     b_status = st, b_created_at = 0, b_updated_at = 0\<rparr>"

definition no_bookings :: database where
  "no_bookings = \<lparr>users = [ada, bob, cleo, dan, eve], bookings = [], reviews = [], notifications = []\<rparr>"

definition sample_db :: "booking_status \<Rightarrow> database" where
  "sample_db st = no_bookings\<lparr>bookings := [sample_booking st]\<rparr>"

definition sample_env :: environment where
  "sample_env = \<lparr>env_tx_now = hour 1, env_py_now = hour 1,
     env_rand = (\<lambda>n. UUID (100 + of_nat n)), env_zone = (\<lambda>_. 0)\<rparr>"

lemmas sample_defs = hour_def ada_def bob_def cleo_def dan_def eve_def sample_booking_def
  no_bookings_def sample_db_def sample_env_def

lemma no_bookings_integrity [simp]: "integrity no_bookings"
  by (simp add: integrity_defs sample_defs user_sized_def pg_defs)

lemma sample_db_integrity [simp]: "integrity (sample_db st)"
  by (simp add: integrity_defs sample_defs user_sized_def booking_sized_def booking_checks_def
      has_user_def pg_defs)

lemma sample_rows [simp]:
  "get_booking (sample_db st) (UUID 10) = Some (sample_booking st)"
  "get_booking (sample_db st) (UUID 11) = None"
  "get_user (sample_db st) (UUID 2) = Some bob" "get_user (sample_db st) (UUID 3) = Some cleo"
  "bookings (sample_db st) = [sample_booking st]" "b_status (sample_booking st) = st"
  "b_id (sample_booking st) = UUID 10" "notifications (sample_db st) = []"
  "reviews (sample_db st) = []"
  "has_user (sample_db st) (UUID 1)" "has_user (sample_db st) (UUID 4)"
  by (simp_all add: get_booking_def get_user_def has_user_def lookup_by_def sample_defs)

text \<open>The first three identifiers of \<open>sample_env\<close> are new to the sample databases.\<close>

lemma less_3_cases: "(i::nat) < 3 \<longleftrightarrow> i = 0 \<or> i = 1 \<or> i = 2"
  by auto

lemma sample_fresh [simp]:
  "k \<le> 3 \<Longrightarrow> fresh_ids k sample_env no_bookings"
  "k \<le> 3 \<Longrightarrow> fresh_ids k sample_env (sample_db st)"
proof -
  assume k: "k \<le> 3"
  have "inj_on (env_rand sample_env) {..<3}"
    by (auto simp: inj_on_def less_3_cases sample_env_def)
  moreover have "env_rand sample_env i \<notin> u_id ` set (users (sample_db st))
      \<union> b_id ` set (bookings (sample_db st)) \<union> r_id ` set (reviews (sample_db st))
      \<union> n_id ` set (notifications (sample_db st))" if "i < 3" for i
    using that by (auto simp: less_3_cases sample_defs)
  ultimately have "fresh_ids 3 sample_env (sample_db st)" "fresh_ids 3 sample_env no_bookings"
    by (auto simp: fresh_ids_def sample_db_def no_bookings_def)
  with k show "fresh_ids k sample_env no_bookings" "fresh_ids k sample_env (sample_db st)"
    by (auto simp: fresh_ids_def inj_on_def)
qed

end
