(* ===== verification/Providers.thy ===== *)
theory Providers
  imports Samples "HOL-Library.List_Lexorder"
begin

text \<open>
  \<open>app/services/provider_service.py\<close>: the provider directory with its \<open>ILIKE\<close> search,
  and the availability check on which every schedule decision rests.
\<close>

section \<open>SQL LIKE\<close>

text \<open>
  PostgreSQL's pattern language: \<open>%\<close> any sequence, \<open>_\<close> any character, backslash the
  escape. A pattern that ends in the escape is an SQL error; the patterns of this program end
  in \<open>%\<close>.
\<close>

fun like :: "string \<Rightarrow> string \<Rightarrow> bool" where
  "like [] s = (s = [])"
| "like (p # ps) [] = (p = CHR ''%'' \<and> like ps [])"
| "like (p # ps) (c # cs) =
     (if p = CHR ''%'' then like ps (c # cs) \<or> like (p # ps) cs
      else if p = CHR ''_'' then like ps cs
      else if p = CHR 0x5C then (case ps of [] \<Rightarrow> False | q # qs \<Rightarrow> q = c \<and> like qs cs)
      else p = c \<and> like ps cs)"

definition ilike :: "string \<Rightarrow> string \<Rightarrow> bool" where
  "ilike s pat = like (py_lower pat) (py_lower s)"

section \<open>Operations\<close>

text \<open>
  \<open>strxfrm\<close> is the database collation's sort key of a string. The search argument is the
  query parameter, \<open>None\<close> when absent.
\<close>

definition search_matches :: "string option \<Rightarrow> user \<Rightarrow> bool" where
  "search_matches search u = (case search of
       None \<Rightarrow> True
     | Some t \<Rightarrow>
         if py_strip t = [] then True
         else let pat = ''%'' @ py_strip t @ ''%'' in ilike (u_name u) pat \<or> ilike (u_email u) pat)"

definition list_providers ::
  "(string \<Rightarrow> nat list) \<Rightarrow> database \<Rightarrow> string option \<Rightarrow> nat \<Rightarrow> nat \<Rightarrow> user list" where
  "list_providers strxfrm db search skip limit =
     (let rows = filter (\<lambda>u. u_role u = PROVIDER) (users db);
          rows = filter (search_matches search) rows
      in paginate skip limit (sort_key (\<lambda>u. (strxfrm (u_name u), u_id u)) rows))"

definition get_provider_by_id :: "uuid \<Rightarrow> user service" where
  "get_provider_by_id pid =
     bindE (db_get_user pid) (\<lambda>x. case x of
       None \<Rightarrow> raiseE (http 404 ''Provider not found'')
     | Some p \<Rightarrow>
         thenE (raise_if (u_role p \<noteq> PROVIDER)
                  (http 400 ''Selected user is not registered as a service provider''))
         (returnE p))"

text \<open>One row of the conflict query of \<open>is_provider_available\<close>.\<close>

definition conflicts :: "uuid \<Rightarrow> timestamp \<Rightarrow> timestamp \<Rightarrow> uuid option \<Rightarrow> booking \<Rightarrow> bool" where
  "conflicts pid start_time end_time exclude b \<longleftrightarrow>
     b_provider_id b = pid \<and> b_status b \<noteq> CANCELLED
     \<and> b_start_time b < end_time \<and> start_time < b_end_time b
     \<and> (case exclude of None \<Rightarrow> True | Some i \<Rightarrow> b_id b \<noteq> i)"

definition is_provider_available ::
  "database \<Rightarrow> uuid \<Rightarrow> timestamp \<Rightarrow> timestamp \<Rightarrow> uuid option \<Rightarrow> bool" where
  "is_provider_available db pid start_time end_time exclude =
     (take 1 (filter (conflicts pid start_time end_time exclude) (bookings db)) = [])"

record availability =
  av_provider_id :: uuid
  av_start_time :: timestamp
  av_end_time :: timestamp
  av_available :: bool

text \<open>
  The response model checks its own range (\<open>validate_time_range\<close>); outside the
  range it raises pydantic's error, a \<open>ValueError\<close>.
\<close>

definition availability_response :: "uuid \<Rightarrow> timestamp \<Rightarrow> timestamp \<Rightarrow> bool \<Rightarrow> availability service" where
  "availability_response pid start_time end_time ok =
     thenE (raise_if (end_time \<le> start_time) (ValueError ''end_time must be after start_time''))
     (returnE \<lparr>av_provider_id = pid, av_start_time = start_time, av_end_time = end_time,
        av_available = ok\<rparr>)"

definition check_provider_availability ::
  "uuid \<Rightarrow> timestamp \<Rightarrow> timestamp \<Rightarrow> availability service" where
  "check_provider_availability pid start_time end_time =
     thenE (get_provider_by_id pid)
     (bindE (readE (\<lambda>s. is_provider_available (txn s) pid start_time end_time None)) (\<lambda>ok.
        availability_response pid start_time end_time ok))"

section \<open>Search\<close>

definition plain_char :: "char \<Rightarrow> bool" where
  "plain_char c \<longleftrightarrow> c \<noteq> CHR ''%'' \<and> c \<noteq> CHR ''_'' \<and> c \<noteq> CHR 0x5C"

lemma like_percent: "like ''%'' s"
  by (induction s) auto

lemma like_percent_Cons: "like (CHR ''%'' # ps) s \<longleftrightarrow> (\<exists>t. suffix t s \<and> like ps t)"
proof (induction s)
  case Nil
  then show ?case by (auto simp: suffix_def)
next
  case (Cons c cs)
  have "(\<exists>t. suffix t (c # cs) \<and> like ps t) \<longleftrightarrow> like ps (c # cs) \<or> (\<exists>t. suffix t cs \<and> like ps t)"
    by (auto simp: suffix_Cons)
  with Cons show ?case by simp
qed

lemma like_plain_prefix:
  "\<forall>c \<in> set t. plain_char c \<Longrightarrow> like (t @ ''%'') s \<longleftrightarrow> prefix t s"
proof (induction t arbitrary: s)
  case Nil
  then show ?case by (simp add: like_percent)
next
  case (Cons c t)
  then show ?case by (cases s) (auto simp: plain_char_def)
qed

text \<open>Without wildcard characters, the pattern of the search means "contains".\<close>

lemma like_contains:
  assumes "\<forall>c \<in> set t. plain_char c"
  shows "like (''%'' @ t @ ''%'') s \<longleftrightarrow> sublist t s"
proof -
  have "like (''%'' @ t @ ''%'') s \<longleftrightarrow> (\<exists>u. suffix u s \<and> prefix t u)"
    using like_percent_Cons [of "t @ ''%''" s] like_plain_prefix [OF assms] by simp
  also have "\<dots> \<longleftrightarrow> sublist t s" by (auto simp: sublist_def suffix_def prefix_def)
  finally show ?thesis .
qed

lemma list_providers_set:
  "u \<in> set (list_providers k db search skip limit) \<Longrightarrow>
     u \<in> set (users db) \<and> u_role u = PROVIDER \<and> search_matches search u"
  using set_paginate by (fastforce simp: list_providers_def Let_def)

section \<open>Availability\<close>

lemma is_provider_available_iff:
  "is_provider_available db pid a z ex \<longleftrightarrow> (\<forall>b \<in> set (bookings db). \<not> conflicts pid a z ex b)"
  by (auto simp: is_provider_available_def take_eq_Nil2 filter_empty_conv)

lemma quiet_get_provider [quiet_intros]: "quiet (get_provider_by_id pid)"
  unfolding get_provider_by_id_def by (intro quiet_intros)

lemma quiet_check_availability [quiet_intros]: "quiet (check_provider_availability pid a z)"
  unfolding check_provider_availability_def availability_response_def by (intro quiet_intros)

section \<open>Properties\<close>

text \<open>
  C32: an accepted search term without SQL wildcards finds exactly the providers whose name or
  email contains the stripped term, whatever the case; they come in the collation's name order
  and each is on some page.
\<close>

theorem search_finds_substrings:
  assumes plain: "\<forall>c \<in> set (py_lower (py_strip t)). plain_char c" and page: "0 < n"
  shows "(\<exists>k. u \<in> set (list_providers strxfrm db (Some t) (k * n) n)) \<longleftrightarrow>
    u \<in> set (users db) \<and> u_role u = PROVIDER
    \<and> (py_strip t = [] \<or> sublist (py_lower (py_strip t)) (py_lower (u_name u))
        \<or> sublist (py_lower (py_strip t)) (py_lower (u_email u)))"
proof -
  have pct: "py_lower (''%'' @ py_strip t @ ''%'') = ''%'' @ py_lower (py_strip t) @ ''%''"
    by (simp add: py_lower_def py_lower_char_def Let_def)
  have "search_matches (Some t) u \<longleftrightarrow> py_strip t = []
      \<or> sublist (py_lower (py_strip t)) (py_lower (u_name u))
      \<or> sublist (py_lower (py_strip t)) (py_lower (u_email u))"
    using like_contains [OF plain] by (simp add: search_matches_def ilike_def Let_def pct del: append.simps)
  then show ?thesis
    unfolding list_providers_def Let_def by (subst paginate_cover [OF page, symmetric]) auto
qed

lemma search_finds_substrings_witness:
  "\<exists>k. bob \<in> set (list_providers (\<lambda>_. []) no_bookings (Some '' BO '') (k * 20) 20)"
  by (subst search_finds_substrings) code_simp+

text \<open>
  a slot is available exactly when no booking of the provider that is not cancelled, other than
  the excluded one, shares an instant with the half-open slot: slots that merely touch are free.
\<close>

lemma available_iff_disjoint:
  assumes "start_time < end_time"
    and "\<forall>b \<in> set (bookings db). b_start_time b < b_end_time b"
  shows "is_provider_available db pid start_time end_time exclude \<longleftrightarrow>
    (\<forall>b \<in> set (bookings db). b_provider_id b = pid \<and> b_status b \<noteq> CANCELLED \<and> exclude \<noteq> Some (b_id b)
       \<longrightarrow> {start_time..<end_time} \<inter> {b_start_time b..<b_end_time b} = {})"
proof -
  have "{start_time..<end_time} \<inter> {b_start_time b..<b_end_time b} = {}
      \<longleftrightarrow> \<not> (b_start_time b < end_time \<and> start_time < b_end_time b)"
    if "b \<in> set (bookings db)" for b
    using that assms by (auto simp: Int_atLeastLessThan)
  then show ?thesis
    by (auto simp: is_provider_available_iff conflicts_def split: option.splits)
qed

end
