(* ===== verification/Notifications.thy ===== *)
theory Notifications
  imports Samples
begin

text \<open>
  \<open>app/services/notification_service.py\<close>: notifications with database-level
  deduplication, the listing scoped to one user, and the two read markers.
\<close>

section \<open>Operations\<close>

text \<open>
  A Core INSERT, executed at once inside the transaction. The Python-side defaults of the
  model supply \<open>id\<close> and \<open>is_read\<close>, the server default supplies \<open>created_at\<close>. A failed
  statement aborts the transaction.
\<close>

definition new_notification ::
  "uuid \<Rightarrow> timestamp \<Rightarrow> uuid \<Rightarrow> notification_type \<Rightarrow> string \<Rightarrow> string \<Rightarrow> uuid option \<Rightarrow> notification" where
  "new_notification i now uid ty title msg bid =
     \<lparr>n_id = i, n_user_id = uid, n_booking_id = bid, n_type = ty, n_title = title, n_message = msg,
      n_is_read = False, n_created_at = now, n_read_at = None\<rparr>"

definition execute_insert :: "notification \<Rightarrow> notification option service" where
  "execute_insert n s = (case insert_notification_nothing n (txn s) of
       Inl e \<Rightarrow> (Inl (DBError e), s\<lparr>txn := store s, pending := []\<rparr>)
     | Inr (x, db) \<Rightarrow> (Inr x, s\<lparr>txn := db\<rparr>))"

definition create_notification ::
  "uuid \<Rightarrow> notification_type \<Rightarrow> string \<Rightarrow> string \<Rightarrow> uuid option \<Rightarrow> notification option service" where
  "create_notification uid ty title msg bid =
     bindE uuid4 (\<lambda>i. bindE (readE tx_now) (\<lambda>now.
       execute_insert (new_notification i now uid ty title msg bid)))"

definition list_notifications :: "database \<Rightarrow> uuid \<Rightarrow> nat \<Rightarrow> nat \<Rightarrow> bool \<Rightarrow> notification list" where
  "list_notifications db uid skip limit unread_only =
     (let rows = filter (\<lambda>n. n_user_id n = uid) (notifications db);
          rows = (if unread_only then filter (\<lambda>n. \<not> n_is_read n) rows else rows)
      in paginate skip limit (order_by_desc (\<lambda>n. (n_created_at n, n_id n)) rows))"

definition mark_notification_as_read :: "uuid \<Rightarrow> uuid \<Rightarrow> notification service" where
  "mark_notification_as_read nid uid =
     bindE (db_get_notification nid) (\<lambda>x. case x of
       None \<Rightarrow> raiseE (http 404 ''Notification not found'')
     | Some n \<Rightarrow>
         thenE (raise_if (n_user_id n \<noteq> uid)
                  (http 403 ''Not authorized to access this notification''))
         (if \<not> n_is_read n
          then bindE (readE py_now) (\<lambda>now.
            thenE (add_pending (SaveNotification (n\<lparr>n_is_read := True, n_read_at := Some now\<rparr>)))
            (or_rollback (thenE commit (refreshed db_get_notification nid))))
          else returnE n))"

text \<open>The bulk UPDATE of \<open>mark_all_as_read\<close> and its row count.\<close>

definition unread_of :: "uuid \<Rightarrow> notification \<Rightarrow> bool" where
  "unread_of uid n \<longleftrightarrow> n_user_id n = uid \<and> \<not> n_is_read n"

definition mark_row :: "uuid \<Rightarrow> timestamp \<Rightarrow> notification \<Rightarrow> notification" where
  "mark_row uid now n =
     (if unread_of uid n then n\<lparr>n_is_read := True, n_read_at := Some now\<rparr> else n)"

definition mark_all_rows :: "uuid \<Rightarrow> timestamp \<Rightarrow> database \<Rightarrow> database" where
  "mark_all_rows uid now db =
     db\<lparr>notifications := map (mark_row uid now) (notifications db)\<rparr>"

definition mark_all_as_read :: "uuid \<Rightarrow> nat service" where
  "mark_all_as_read uid =
     bindE (readE py_now) (\<lambda>now.
     bindE (readE (\<lambda>s. length (filter (unread_of uid) (notifications (txn s))))) (\<lambda>rowcount.
     thenE (modifyE (\<lambda>s. s\<lparr>txn := mark_all_rows uid now (txn s)\<rparr>))
     (thenE (or_rollback commit) (returnE rowcount))))"

section \<open>Integrity\<close>

lemma new_notification_simps [simp]:
  "n_id (new_notification i now uid ty title msg bid) = i"
  "n_user_id (new_notification i now uid ty title msg bid) = uid"
  "n_booking_id (new_notification i now uid ty title msg bid) = bid"
  "n_type (new_notification i now uid ty title msg bid) = ty"
  "n_title (new_notification i now uid ty title msg bid) = title"
  "n_message (new_notification i now uid ty title msg bid) = msg"
  "n_is_read (new_notification i now uid ty title msg bid) = False"
  "n_created_at (new_notification i now uid ty title msg bid) = now"
  "n_read_at (new_notification i now uid ty title msg bid) = None"
  by (simp_all add: new_notification_def)

lemma quiet_execute_insert [quiet_intros]: "quiet (execute_insert n)"
  by (auto simp: quiet_def execute_insert_def split: sum.split prod.split)

lemma quiet_create_notification [quiet_intros]:
  "quiet (create_notification uid ty title msg bid)"
  unfolding create_notification_def by (intro quiet_intros)

lemma keeps_execute_insert [keeps_intros]: "keeps session_ok (execute_insert n)"
  by (rule keepsI)
    (auto simp: session_ok_def execute_insert_def split: sum.split prod.split
      dest: insert_notification_integrity)

lemma keeps_create_notification [keeps_intros]:
  "keeps session_ok (create_notification uid ty title msg bid)"
  unfolding create_notification_def by (intro keeps_intros)

lemma keeps_mark_notification [keeps_intros]:
  "keeps session_ok (mark_notification_as_read nid uid)"
  unfolding mark_notification_as_read_def db_get_notification_def refreshed_def
  by (intro keeps_intros)

lemma mark_all_rows_other [simp]:
  "users (mark_all_rows uid now db) = users db" "bookings (mark_all_rows uid now db) = bookings db"
  "reviews (mark_all_rows uid now db) = reviews db"
  by (simp_all add: mark_all_rows_def)

lemma mark_row_simps [simp]:
  "n_id (mark_row uid now n) = n_id n" "n_user_id (mark_row uid now n) = n_user_id n"
  "n_booking_id (mark_row uid now n) = n_booking_id n" "n_type (mark_row uid now n) = n_type n"
  "n_title (mark_row uid now n) = n_title n" "\<not> unread_of uid (mark_row uid now n)"
  by (simp_all add: mark_row_def unread_of_def)

lemma mark_all_rows_integrity: "integrity db \<Longrightarrow> integrity (mark_all_rows uid now db)"
proof -
  assume ok: "integrity db"
  let ?f = "mark_row uid now"
  have rows: "notifications (mark_all_rows uid now db) = map ?f (notifications db)"
    by (simp add: mark_all_rows_def)
  have checks: "booking_checks (mark_all_rows uid now db) = booking_checks db"
    "review_checks (mark_all_rows uid now db) = review_checks db"
    "notification_checks (mark_all_rows uid now db) = notification_checks db"
    by (rule checks_cong; simp)+
  have f: "same_notification_key (?f m) (?f n) = same_notification_key m n"
    "notification_checks db (?f n) = notification_checks db n"
    "notification_sized (?f n) = notification_sized n" for m n
    by (simp_all add: same_notification_key_def notification_checks_def notification_sized_def)
  have ids: "map n_id (map ?f ns) = map n_id ns" for ns
    by (induction ns) simp_all
  from ok show ?thesis
    unfolding integrity_defs checks rows ids by (simp add: f)
qed

section \<open>Behaviour\<close>

text \<open>What a call to \<open>create_notification\<close> does to the transaction.\<close>

lemma create_notification_run:
  "create_notification uid ty title msg bid s =
     (let n = new_notification (rand s (drawn s)) (tx_now s) uid ty title msg bid;
          t = s\<lparr>drawn := Suc (drawn s)\<rparr>
      in case insert_notification_nothing n (txn s) of
           Inl e \<Rightarrow> (Inl (DBError e), t\<lparr>txn := store s, pending := []\<rparr>)
         | Inr (x, db) \<Rightarrow> (Inr x, t\<lparr>txn := db\<rparr>))"
  by (simp add: create_notification_def session_run execute_insert_def Let_def
      split: sum.split prod.split)

lemma thenE_create_notification:
  "thenE (create_notification uid ty title msg bid) k s =
     (let n = new_notification (rand s (drawn s)) (tx_now s) uid ty title msg bid;
          t = s\<lparr>drawn := Suc (drawn s)\<rparr>
      in case insert_notification_nothing n (txn s) of
           Inl e \<Rightarrow> (Inl (DBError e), t\<lparr>txn := store s, pending := []\<rparr>)
         | Inr (x, db) \<Rightarrow> k (t\<lparr>txn := db\<rparr>))"
  by (simp add: thenE_def bindE_def create_notification_run Let_def split: sum.split prod.split)

definition has_notification :: "database \<Rightarrow> uuid \<Rightarrow> uuid \<Rightarrow> notification_type \<Rightarrow> bool" where
  "has_notification db uid bid ty \<longleftrightarrow>
     (\<exists>n \<in> set (notifications db). n_user_id n = uid \<and> n_booking_id n = Some bid \<and> n_type n = ty)"

lemma insert_notification_cases:
  assumes "insert_notification_nothing (new_notification i now uid ty title msg (Some bid)) db = Inr (x, db')"
  shows "if has_notification db uid bid ty then x = None \<and> db' = db
         else x = Some (new_notification i now uid ty title msg (Some bid))
           \<and> db' = db\<lparr>notifications := notifications db
                    @ [new_notification i now uid ty title msg (Some bid)]\<rparr>"
  using assms
  by (auto simp: insert_notification_nothing_def has_notification_def same_notification_key_def
      split: if_splits)

lemma list_notifications_set:
  "n \<in> set (list_notifications db uid skip limit u) \<Longrightarrow>
     n \<in> set (notifications db) \<and> n_user_id n = uid \<and> (u \<longrightarrow> \<not> n_is_read n)"
  using set_paginate by (fastforce simp: list_notifications_def Let_def split: if_splits)

lemma mark_all_run:
  "pending s = [] \<Longrightarrow> mark_all_as_read uid s =
     (Inr (length (filter (unread_of uid) (notifications (txn s)))),
      s\<lparr>txn := mark_all_rows uid (py_now s) (txn s), store := mark_all_rows uid (py_now s) (txn s)\<rparr>)"
  by (simp add: mark_all_as_read_def session_run or_rollback_def catchE_def commit_def flush_def
      thenE_def bindE_def)

lemma unread_after_mark_all [simp]:
  "filter (unread_of uid) (notifications (mark_all_rows uid now db)) = []"
  by (simp add: mark_all_rows_def filter_empty_conv)

lemma filter_mark_row:
  "filter (\<lambda>n. n_user_id n \<noteq> uid) (map (mark_row uid now) ns) = filter (\<lambda>n. n_user_id n \<noteq> uid) ns"
  by (induction ns) (auto simp: mark_row_def unread_of_def)

lemma mark_all_rows_frame:
  "filter (\<lambda>n. n_user_id n \<noteq> uid) (notifications (mark_all_rows uid now db))
     = filter (\<lambda>n. n_user_id n \<noteq> uid) (notifications db)"
  by (simp add: mark_all_rows_def filter_mark_row)

section \<open>A call that cannot fail\<close>

text \<open>
  The effect of \<open>create_notification\<close> on the database when its references exist: at most
  one row per recipient, booking and type.
\<close>

definition post :: "uuid \<Rightarrow> timestamp \<Rightarrow> uuid \<Rightarrow> notification_type \<Rightarrow> string \<Rightarrow> string \<Rightarrow> uuid
    \<Rightarrow> database \<Rightarrow> database" where
  "post i now uid ty title msg bid d =
     (if has_notification d uid bid ty then d
      else d\<lparr>notifications := notifications d @ [new_notification i now uid ty title msg (Some bid)]\<rparr>)"

lemma post_rows [simp]:
  "users (post i now uid ty title msg bid d) = users d"
  "bookings (post i now uid ty title msg bid d) = bookings d"
  "reviews (post i now uid ty title msg bid d) = reviews d"
  "has_user (post i now uid ty title msg bid d) = has_user d"
  "has_booking (post i now uid ty title msg bid d) = has_booking d"
  by (simp_all add: post_def has_user_def [abs_def] has_booking_def [abs_def])

lemma has_notification_post [simp]:
  "has_notification (post i now uid ty title msg bid d) uid' bid' ty' \<longleftrightarrow>
     has_notification d uid' bid' ty' \<or> uid' = uid \<and> bid' = bid \<and> ty' = ty"
  by (auto simp: post_def has_notification_def)

lemma post_notifications:
  "notifications (post i now uid ty title msg bid d) = notifications d @
     (if has_notification d uid bid ty then [] else [new_notification i now uid ty title msg (Some bid)])"
  by (simp add: post_def)

lemma insert_notification_post:
  assumes "has_user d uid" and "has_booking d bid" and "length title \<le> 255"
    and "i \<notin> n_id ` set (notifications d)"
  shows "insert_notification_nothing (new_notification i now uid ty title msg (Some bid)) d =
    Inr (if has_notification d uid bid ty then None
         else Some (new_notification i now uid ty title msg (Some bid)),
         post i now uid ty title msg bid d)"
  using assms
  by (auto simp: insert_notification_nothing_def has_notification_def same_notification_key_def
      notification_sized_def notification_checks_def post_def)

lemma thenE_post:
  assumes "has_user (txn s) uid" and "has_booking (txn s) bid" and "length title \<le> 255"
    and "rand s (drawn s) \<notin> n_id ` set (notifications (txn s))"
  shows "thenE (create_notification uid ty title msg (Some bid)) k s =
    k (s\<lparr>drawn := Suc (drawn s), txn := post (rand s (drawn s)) (tx_now s) uid ty title msg bid (txn s)\<rparr>)"
  using assms by (simp add: thenE_create_notification insert_notification_post Let_def)

lemma told_run:
  assumes "has_user (txn s) uid" and "has_booking (txn s) bid" and "length title \<le> 255"
    and "rand s (drawn s) \<notin> n_id ` set (notifications (txn s))"
  shows "thenE (create_notification uid ty title msg (Some bid)) (returnE ()) s =
    (Inr (), s\<lparr>drawn := Suc (drawn s),
       txn := post (rand s (drawn s)) (tx_now s) uid ty title msg bid (txn s)\<rparr>)"
  by (simp add: thenE_post [OF assms])

section \<open>Properties\<close>

text \<open>
  notifications for a booking are idempotent. When the references of the call exist, it
  answers with the new row or \<open>None\<close>; afterwards the recipient has a message of this type for
  this booking, no two messages of a user for one booking have the same type if that held before,
  and calling it again stores nothing.
\<close>

lemma create_notification_idempotent:
  assumes run: "create_notification uid ty title msg (Some bid) s = (Inr x, t)"
    and again: "create_notification uid ty title' msg' (Some bid) t = (Inr y, t')"
  shows "(x = None \<longleftrightarrow> has_notification (txn s) uid bid ty) \<and> has_notification (txn t) uid bid ty
    \<and> y = None \<and> txn t' = txn t \<and> store t' = store s"
proof -
  from run obtain d where
      ins: "insert_notification_nothing (new_notification (rand s (drawn s)) (tx_now s) uid ty title msg
        (Some bid)) (txn s) = Inr (x, d)" and t: "t = s\<lparr>drawn := Suc (drawn s), txn := d\<rparr>"
    by (auto simp: create_notification_run Let_def split: sum.splits prod.splits)
  from insert_notification_cases [OF ins] have 1: "x = None \<longleftrightarrow> has_notification (txn s) uid bid ty"
      and 2: "has_notification (txn t) uid bid ty"
    by (auto simp: t has_notification_def split: if_splits)
  from again obtain d' where
      ins': "insert_notification_nothing (new_notification (rand t (drawn t)) (tx_now t) uid ty title' msg'
        (Some bid)) (txn t) = Inr (y, d')" and t': "t' = t\<lparr>drawn := Suc (drawn t), txn := d'\<rparr>"
    by (auto simp: create_notification_run Let_def split: sum.splits prod.splits)
  from insert_notification_cases [OF ins'] 2 have "y = None" "d' = txn t" by simp_all
  with 1 2 t t' show ?thesis by simp
qed

text \<open>
  Marking everything as read: the call answers with the number of the caller's unread messages,
  afterwards none is unread, the messages of other users are untouched, and no message is lost.
\<close>

theorem mark_all_as_read_exact:
  "\<exists>db'. with_session env (mark_all_as_read uid) db =
     (Inr (length (filter (\<lambda>n. n_user_id n = uid \<and> \<not> n_is_read n) (notifications db))), db')
   \<and> filter (\<lambda>n. n_user_id n = uid \<and> \<not> n_is_read n) (notifications db') = []
   \<and> filter (\<lambda>n. n_user_id n \<noteq> uid) (notifications db') = filter (\<lambda>n. n_user_id n \<noteq> uid) (notifications db)
   \<and> map n_id (notifications db') = map n_id (notifications db)
   \<and> users db' = users db \<and> bookings db' = bookings db \<and> reviews db' = reviews db"
proof -
  have un: "unread_of uid = (\<lambda>n. n_user_id n = uid \<and> \<not> n_is_read n)"
    by (simp add: unread_of_def fun_eq_iff)
  have ids: "map n_id (notifications (mark_all_rows uid now db)) = map n_id (notifications db)" for now
    by (simp add: mark_all_rows_def)
  show ?thesis
    using unread_after_mark_all [of uid "env_py_now env" db]
    by (simp add: with_session_def mark_all_run un mark_all_rows_frame ids)
qed

end
