(* ===== verification/Bookings.thy ===== *)
theory Bookings
  imports Providers Notifications
begin

text \<open>
  \<open>app/services/booking_service.py\<close>: the booking life cycle. The status rules, the
  handlers that create, read, list, update, cancel and delete bookings, and the
  notifications they send.
\<close>

section \<open>Request bodies\<close>

text \<open>The validated bodies (\<open>BookingCreate\<close>, \<open>BookingUpdate\<close>); times are instants.\<close>

record booking_create =
  bc_provider_id :: uuid
  bc_service_name :: string
  bc_start_time :: timestamp
  bc_end_time :: timestamp

record booking_update =
  bu_service_name :: "string option"
  bu_start_time :: "timestamp option"
  bu_end_time :: "timestamp option"
  bu_status :: "booking_status option"

section \<open>Status rules\<close>

fun VALID_TRANSITIONS :: "booking_status \<Rightarrow> booking_status set" where
  "VALID_TRANSITIONS PENDING = {CONFIRMED, CANCELLED}"
| "VALID_TRANSITIONS CONFIRMED = {COMPLETED, CANCELLED}"
| "VALID_TRANSITIONS COMPLETED = {}"
| "VALID_TRANSITIONS CANCELLED = {}"

definition ROLE_ALLOWED_TRANSITIONS :: "booking_status \<times> booking_status \<Rightarrow> user_role set" where
  "ROLE_ALLOWED_TRANSITIONS t =
     (if t = (PENDING, CONFIRMED) then {PROVIDER, ADMIN}
      else if t = (PENDING, CANCELLED) then {CUSTOMER, PROVIDER, ADMIN}
      else if t = (CONFIRMED, COMPLETED) then {PROVIDER, ADMIN}
      else if t = (CONFIRMED, CANCELLED) then {CUSTOMER, PROVIDER, ADMIN}
      else {})"

definition validate_status_transition ::
  "booking_status \<Rightarrow> booking_status \<Rightarrow> user_role \<Rightarrow> exn + unit" where
  "validate_status_transition current target role =
     (if current = CANCELLED then
        (if target = CANCELLED then Inl (http 400 ''Booking is already cancelled'')
         else Inl (http 400 ''Cannot modify a cancelled booking''))
      else if current = COMPLETED then
        (if target = CANCELLED then Inl (http 400 ''Cannot cancel an already completed booking'')
         else Inl (http 400 ''Cannot modify a completed booking''))
      else if target = current then Inr ()
      else if target \<notin> VALID_TRANSITIONS current then
        Inl (http 400 (''Cannot transition booking status from '' @ [CHR 0x27]
          @ status_value current @ [CHR 0x27] @ '' to '' @ [CHR 0x27] @ status_value target
          @ [CHR 0x27]))
      else if role \<notin> ROLE_ALLOWED_TRANSITIONS (current, target) then
        (if role = CUSTOMER \<and> target \<in> {CONFIRMED, COMPLETED}
         then Inl (http 403 ''Customers are not permitted to confirm or complete bookings'')
         else Inl (http 403 ''Insufficient permissions to execute this status transition''))
      else Inr ())"

text \<open>A pure check used inside a handler.\<close>

definition checkE :: "'e + 'a \<Rightarrow> ('s, 'e, 'a) svc" where
  "checkE r s = (r, s)"

section \<open>Handlers\<close>

definition notify_cancellation :: "booking \<Rightarrow> user \<Rightarrow> unit service" where
  "notify_cancellation b actor =
     (let message = ''Booking for '' @ b_service_name b @ '' has been cancelled.''
      in thenE
           (if u_id actor \<noteq> b_customer_id b
            then thenE (create_notification (b_customer_id b) BOOKING_CANCELLED
                          ''Booking Cancelled'' message (Some (b_id b))) (returnE ())
            else returnE ())
           (if u_id actor \<noteq> b_provider_id b
            then thenE (create_notification (b_provider_id b) BOOKING_CANCELLED
                          ''Booking Cancelled'' message (Some (b_id b))) (returnE ())
            else returnE ()))"

definition check_provider_conflict ::
  "uuid \<Rightarrow> timestamp \<Rightarrow> timestamp \<Rightarrow> uuid option \<Rightarrow> unit service" where
  "check_provider_conflict pid start_time end_time exclude =
     bindE (readE (\<lambda>s. is_provider_available (txn s) pid start_time end_time exclude)) (\<lambda>ok.
       raise_if (\<not> ok) (http 409 ''Provider has an overlapping booking for the requested time slot''))"

text \<open>
  \<open>create_booking\<close> in its two halves, as the code orders them: the reads that decide
  (steps 1 to 4) and the writes (step 5). Nothing between them locks the rows the decision
  rests on.
\<close>

definition create_booking_checks :: "uuid \<Rightarrow> booking_create \<Rightarrow> unit service" where
  "create_booking_checks customer_id b =
     thenE (raise_if (customer_id = bc_provider_id b)
              (http 400 ''Customer cannot book themselves as a provider''))
     (bindE (db_get_user (bc_provider_id b)) (\<lambda>x. case x of
        None \<Rightarrow> raiseE (http 404 ''Provider not found'')
      | Some p \<Rightarrow>
          thenE (raise_if (u_role p \<noteq> PROVIDER)
                   (http 400 ''Selected user is not registered as a service provider''))
          (check_provider_conflict (bc_provider_id b) (bc_start_time b) (bc_end_time b) None)))"

definition new_booking :: "uuid \<Rightarrow> timestamp \<Rightarrow> uuid \<Rightarrow> booking_create \<Rightarrow> booking" where
  "new_booking i now customer_id b =
     \<lparr>b_id = i, b_customer_id = customer_id, b_provider_id = bc_provider_id b,
      b_service_name = bc_service_name b, b_start_time = bc_start_time b,
      b_end_time = bc_end_time b, b_status = PENDING, b_created_at = now, b_updated_at = now\<rparr>"

definition create_booking_persist :: "uuid \<Rightarrow> booking_create \<Rightarrow> booking service" where
  "create_booking_persist customer_id b =
     bindE uuid4 (\<lambda>i. bindE (readE tx_now) (\<lambda>now.
       let bk = new_booking i now customer_id b in
       thenE (add_pending (AddBooking bk))
       (thenE flush
       (thenE (create_notification (b_provider_id bk) BOOKING_CREATED ''New Booking Request''
                 (''A new booking request for '' @ b_service_name bk @ '' has been submitted.'')
                 (Some (b_id bk)))
       (or_rollback (thenE commit (refreshed db_get_booking i)))))))"

definition create_booking :: "uuid \<Rightarrow> booking_create \<Rightarrow> booking service" where
  "create_booking customer_id b =
     thenE (create_booking_checks customer_id b) (create_booking_persist customer_id b)"

definition get_booking_by_id :: "uuid \<Rightarrow> user \<Rightarrow> booking service" where
  "get_booking_by_id bid u =
     bindE (db_get_booking bid) (\<lambda>x. case x of
       None \<Rightarrow> raiseE (http 404 ''Booking not found'')
     | Some b \<Rightarrow>
         if u_role u = ADMIN then returnE b
         else if u_role u = CUSTOMER \<and> b_customer_id b = u_id u then returnE b
         else if u_role u = PROVIDER \<and> b_provider_id b = u_id u then returnE b
         else raiseE (http 403 ''Not authorized to access this booking''))"

definition list_bookings ::
  "database \<Rightarrow> user \<Rightarrow> booking_status option \<Rightarrow> nat \<Rightarrow> nat \<Rightarrow> booking list" where
  "list_bookings db u status_filter skip limit =
     (let rows = (case u_role u of
            CUSTOMER \<Rightarrow> filter (\<lambda>b. b_customer_id b = u_id u) (bookings db)
          | PROVIDER \<Rightarrow> filter (\<lambda>b. b_provider_id b = u_id u) (bookings db)
          | ADMIN \<Rightarrow> bookings db);
          rows = (case status_filter of None \<Rightarrow> rows | Some st \<Rightarrow> filter (\<lambda>b. b_status b = st) rows)
      in paginate skip limit (sort_key (\<lambda>b. (b_start_time b, b_id b)) rows))"

text \<open>
  The end of the handlers that change a loaded booking: the object is dirty, the commit
  flushes it, and the row is read back. The attribute assignments of the code happen
  earlier, but with \<open>autoflush=False\<close> no query sees them before this flush.
\<close>

definition save_booking :: "booking \<Rightarrow> booking service" where
  "save_booking b =
     thenE (add_pending (SaveBooking b))
     (or_rollback (thenE commit (refreshed db_get_booking (b_id b))))"

text \<open>\<open>update_booking\<close>: the three numbered steps of the code, then the commit.\<close>

definition may_modify :: "user \<Rightarrow> booking \<Rightarrow> bool" where
  "may_modify u b \<longleftrightarrow>
     u_role u = ADMIN
     \<or> (u_role u = CUSTOMER \<and> b_customer_id b = u_id u)
     \<or> (u_role u = PROVIDER \<and> b_provider_id b = u_id u)"

definition update_status :: "user \<Rightarrow> booking_update \<Rightarrow> booking \<Rightarrow> booking service" where
  "update_status u upd b = (case bu_status upd of
       None \<Rightarrow> returnE b
     | Some st \<Rightarrow>
         if st = b_status b then returnE b
         else thenE (checkE (validate_status_transition (b_status b) st (u_role u)))
           (let b' = b\<lparr>b_status := st\<rparr> in
            thenE
              (case st of
                 CONFIRMED \<Rightarrow> thenE (create_notification (b_customer_id b') BOOKING_CONFIRMED
                     ''Booking Confirmed''
                     (''Your booking for '' @ b_service_name b' @ '' has been confirmed.'')
                     (Some (b_id b'))) (returnE ())
               | COMPLETED \<Rightarrow> thenE (create_notification (b_customer_id b') BOOKING_COMPLETED
                     ''Booking Completed''
                     (''Your booking for '' @ b_service_name b' @ '' has been completed.'')
                     (Some (b_id b'))) (returnE ())
               | CANCELLED \<Rightarrow> notify_cancellation b' u
               | PENDING \<Rightarrow> returnE ())
            (returnE b')))"

definition reschedule :: "booking_update \<Rightarrow> booking \<Rightarrow> booking service" where
  "reschedule upd b =
     (if bu_start_time upd \<noteq> None \<or> bu_end_time upd \<noteq> None then
        (let new_start = (case bu_start_time upd of None \<Rightarrow> b_start_time b | Some t \<Rightarrow> t);
             new_end = (case bu_end_time upd of None \<Rightarrow> b_end_time b | Some t \<Rightarrow> t)
         in thenE (raise_if (new_end \<le> new_start) (http 400 ''end_time must be after start_time''))
            (thenE (check_provider_conflict (b_provider_id b) new_start new_end (Some (b_id b)))
            (returnE (b\<lparr>b_start_time := new_start, b_end_time := new_end\<rparr>))))
      else returnE b)"

definition rename_service :: "booking_update \<Rightarrow> booking \<Rightarrow> booking" where
  "rename_service upd b =
     (case bu_service_name upd of None \<Rightarrow> b | Some nm \<Rightarrow> b\<lparr>b_service_name := nm\<rparr>)"

definition update_booking :: "uuid \<Rightarrow> booking_update \<Rightarrow> user \<Rightarrow> booking service" where
  "update_booking bid upd u =
     bindE (db_get_booking bid) (\<lambda>x. case x of
       None \<Rightarrow> raiseE (http 404 ''Booking not found'')
     | Some b \<Rightarrow>
         thenE (raise_if (\<not> may_modify u b) (http 403 ''Not authorized to modify this booking''))
         (if b_status b \<in> {CANCELLED, COMPLETED} then
            thenE (case bu_status upd of
                     None \<Rightarrow> returnE ()
                   | Some st \<Rightarrow> checkE (validate_status_transition (b_status b) st (u_role u)))
            (raiseE (http 400 (''Cannot modify a '' @ status_value (b_status b) @ '' booking'')))
          else
            bindE (update_status u upd b) (\<lambda>b1.
            bindE (reschedule upd b1) (\<lambda>b2.
            save_booking (rename_service upd b2)))))"

definition cancel_booking :: "uuid \<Rightarrow> user \<Rightarrow> booking service" where
  "cancel_booking bid u =
     bindE (get_booking_by_id bid u) (\<lambda>b.
     thenE (checkE (validate_status_transition (b_status b) CANCELLED (u_role u)))
     (let b' = b\<lparr>b_status := CANCELLED\<rparr> in
      thenE (notify_cancellation b' u) (save_booking b')))"

definition delete_booking :: "uuid \<Rightarrow> user \<Rightarrow> unit service" where
  "delete_booking bid u =
     bindE (db_get_booking bid) (\<lambda>x. case x of
       None \<Rightarrow> raiseE (http 404 ''Booking not found'')
     | Some b \<Rightarrow>
         thenE (raise_if (u_role u = PROVIDER)
                  (http 403 ''Providers are not permitted to delete bookings''))
         (thenE (raise_if (u_role u = CUSTOMER \<and> b_customer_id b \<noteq> u_id u)
                  (http 403 ''Not authorized to delete this booking''))
         (thenE (raise_if (b_status b = COMPLETED)
                  (http 400 (''Completed bookings are historical business records and cannot ''
                     @ ''be deleted'')))
         (thenE (raise_if (b_status b = CONFIRMED)
                  (http 400 (''Confirmed bookings cannot be deleted directly; ''
                     @ ''please use the cancellation workflow'')))
         (thenE (raise_if (b_status b = CANCELLED) (http 400 ''Booking is already cancelled''))
         (let b' = b\<lparr>b_status := CANCELLED\<rparr> in
          thenE (notify_cancellation b' u)
          (thenE (add_pending (SaveBooking b')) (or_rollback commit))))))))"

section \<open>Handlers raise before they commit, and keep the constraints\<close>

lemma checkE_apply: "checkE r s = (r, s)"
  by (simp add: checkE_def)

lemma quiet_checkE [quiet_intros]: "quiet (checkE r)"
  by (simp add: quiet_def checkE_def)

lemma keeps_checkE [keeps_intros]: "keeps I (checkE r)"
  by (simp add: keeps_def checkE_def)

lemma quiet_notify_cancellation [quiet_intros]: "quiet (notify_cancellation b u)"
  unfolding notify_cancellation_def Let_def by (intro quiet_intros)

lemma quiet_check_provider_conflict [quiet_intros]: "quiet (check_provider_conflict pid a z ex)"
  unfolding check_provider_conflict_def by (intro quiet_intros)

lemma quiet_create_booking_checks [quiet_intros]: "quiet (create_booking_checks cid b)"
  unfolding create_booking_checks_def by (intro quiet_intros)

lemma quiet_get_booking_by_id [quiet_intros]: "quiet (get_booking_by_id bid u)"
  unfolding get_booking_by_id_def by (intro quiet_intros)

lemma quiet_update_status [quiet_intros]: "quiet (update_status u upd b)"
  unfolding update_status_def Let_def
  by (auto intro!: quiet_intros split: option.split booking_status.split)

lemma quiet_reschedule [quiet_intros]: "quiet (reschedule upd b)"
  unfolding reschedule_def Let_def by (intro quiet_intros)

text \<open>The two ways a handler ends, run symbolically.\<close>

lemma update_row_get:
  "update_booking_row now b db = Inr d \<Longrightarrow> \<exists>r. get_booking d (b_id b) = Some r \<and> same_booking b r"
  by (rule booking_table.get_upd_same)

lemma save_booking_run:
  assumes "pending s = []"
  shows "save_booking b s =
    (case update_booking_row (tx_now s) b (txn s) of
       Inl e \<Rightarrow> (Inl (DBError e), s\<lparr>txn := store s, pending := []\<rparr>)
     | Inr d \<Rightarrow> (Inr (the (get_booking d (b_id b))), s\<lparr>txn := d, store := d, pending := []\<rparr>))"
proof -
  let ?s = "s\<lparr>pending := [SaveBooking b]\<rparr>"
  have "or_rollback (thenE commit (refreshed db_get_booking (b_id b))) ?s =
     (case apply_writes (tx_now ?s) (pending ?s) (txn ?s) of
        Inl e \<Rightarrow> (Inl (DBError e), ?s\<lparr>txn := store ?s, pending := []\<rparr>)
      | Inr db \<Rightarrow> (Inr (the (get_booking db (b_id b))), ?s\<lparr>txn := db, store := db, pending := []\<rparr>))"
    by (rule commit_refresh_run [where look = get_booking])
      (auto simp: db_get_booking_def split: sum.splits dest: update_row_get)
  with assms show ?thesis
    by (simp add: save_booking_def thenE_add_pending split: sum.split)
qed

lemma safe_save_booking [safe_intros]: "safe (save_booking b)"
  by (rule safeI) (auto simp: save_booking_run split: sum.splits)

lemma keeps_save_booking [keeps_intros]: "keeps session_ok (save_booking b)"
  unfolding save_booking_def refreshed_def db_get_booking_def by (intro keeps_intros)

definition booking_note :: "uuid \<Rightarrow> timestamp \<Rightarrow> booking \<Rightarrow> notification" where
  "booking_note i now bk = new_notification i now (b_provider_id bk) BOOKING_CREATED
     ''New Booking Request''
     (''A new booking request for '' @ b_service_name bk @ '' has been submitted.'')
     (Some (b_id bk))"

lemma insert_notification_bookings:
  "insert_notification_nothing n db = Inr (x, d) \<Longrightarrow>
     users d = users db \<and> bookings d = bookings db \<and> reviews d = reviews db
     \<and> prefix (notifications db) (notifications d)"
  by (auto simp: insert_notification_nothing_def split: if_splits)

lemma create_booking_persist_run:
  assumes "pending s = []"
  shows "create_booking_persist cid b s =
    (let bk = new_booking (rand s (drawn s)) (tx_now s) cid b;
         n = booking_note (rand s (Suc (drawn s))) (tx_now s) bk
     in case insert_booking bk (txn s) of
          Inl e \<Rightarrow> (Inl (DBError e), s\<lparr>drawn := Suc (drawn s), txn := store s, pending := []\<rparr>)
        | Inr d \<Rightarrow> (case insert_notification_nothing n d of
            Inl e \<Rightarrow> (Inl (DBError e), s\<lparr>drawn := Suc (Suc (drawn s)), txn := store s, pending := []\<rparr>)
          | Inr (x, d') \<Rightarrow>
              (Inr bk, s\<lparr>drawn := Suc (Suc (drawn s)), txn := d', store := d', pending := []\<rparr>)))"
proof -
  let ?bk = "new_booking (rand s (drawn s)) (tx_now s) cid b"
  let ?n = "booking_note (rand s (Suc (drawn s))) (tx_now s) ?bk"
  have id: "b_id ?bk = rand s (drawn s)" by (simp add: new_booking_def)
  show ?thesis
  proof (cases "insert_booking ?bk (txn s)")
    case (Inl e)
    with assms show ?thesis
      by (simp add: create_booking_persist_def session_run Let_def)
  next
    case (Inr d)
    have get: "get_booking d (rand s (drawn s)) = Some ?bk"
      using booking_table.get_ins_same [OF Inr] by (simp add: id)
    have "create_booking_persist cid b s =
        (case insert_notification_nothing ?n d of
           Inl e \<Rightarrow> (Inl (DBError e), s\<lparr>drawn := Suc (Suc (drawn s)), txn := store s, pending := []\<rparr>)
         | Inr (x, d') \<Rightarrow> or_rollback (thenE commit (refreshed db_get_booking (b_id ?bk)))
             (s\<lparr>pending := [], drawn := Suc (Suc (drawn s)), txn := d'\<rparr>))"
      using Inr assms
      by (simp add: create_booking_persist_def session_run Let_def thenE_create_notification
          booking_note_def id split: sum.split)
    moreover have "or_rollback (thenE commit (refreshed db_get_booking (b_id ?bk)))
             (s\<lparr>pending := [], drawn := Suc (Suc (drawn s)), txn := d'\<rparr>)
        = (Inr ?bk, s\<lparr>drawn := Suc (Suc (drawn s)), txn := d', store := d', pending := []\<rparr>)"
      if "insert_notification_nothing ?n d = Inr (x, d')" for x d'
    proof -
      from get insert_notification_bookings [OF that]
      have "get_booking d' (b_id ?bk) = Some ?bk" by (simp add: get_booking_def id)
      then show ?thesis
        by (subst commit_refresh_run [where look = get_booking])
          (simp_all add: db_get_booking_def)
    qed
    ultimately show ?thesis
      using Inr by (simp add: Let_def split: sum.split prod.split)
  qed
qed

lemma safe_create_booking [safe_intros]: "safe (create_booking cid b)"
  unfolding create_booking_def
  by (intro safe_intros quiet_intros, rule safeI)
    (auto simp: create_booking_persist_run Let_def split: sum.splits)

lemma safe_update_booking [safe_intros]: "safe (update_booking bid upd u)"
  unfolding update_booking_def by (intro safe_intros quiet_intros)

lemma safe_cancel_booking [safe_intros]: "safe (cancel_booking bid u)"
  unfolding cancel_booking_def Let_def by (intro safe_intros quiet_intros)

lemma safe_delete_booking [safe_intros]: "safe (delete_booking bid u)"
  unfolding delete_booking_def Let_def by (intro safe_intros quiet_intros)

lemma keeps_check_provider_conflict [keeps_intros]:
  "keeps I (check_provider_conflict pid a z ex)"
  unfolding check_provider_conflict_def by (intro keeps_intros)

lemma keeps_notify_cancellation [keeps_intros]: "keeps session_ok (notify_cancellation b u)"
  unfolding notify_cancellation_def Let_def by (intro keeps_intros)

lemma keeps_update_status [keeps_intros]: "keeps session_ok (update_status u upd b)"
  unfolding update_status_def Let_def
  by (auto intro!: keeps_intros split: option.split booking_status.split)

lemma keeps_reschedule [keeps_intros]: "keeps session_ok (reschedule upd b)"
  unfolding reschedule_def Let_def by (intro keeps_intros)

lemma keeps_create_booking [keeps_intros]: "keeps session_ok (create_booking cid b)"
  unfolding create_booking_def create_booking_checks_def create_booking_persist_def Let_def
    db_get_defs refreshed_def
  by (intro keeps_intros)

lemma keeps_get_booking_by_id [keeps_intros]: "keeps I (get_booking_by_id bid u)"
  unfolding get_booking_by_id_def db_get_defs by (intro keeps_intros)

lemma keeps_update_booking [keeps_intros]: "keeps session_ok (update_booking bid upd u)"
  unfolding update_booking_def db_get_defs by (intro keeps_intros)

lemma keeps_cancel_booking [keeps_intros]: "keeps session_ok (cancel_booking bid u)"
  unfolding cancel_booking_def Let_def by (intro keeps_intros)

lemma keeps_delete_booking [keeps_intros]: "keeps session_ok (delete_booking bid u)"
  unfolding delete_booking_def Let_def db_get_defs by (intro keeps_intros)

section \<open>Listing\<close>

definition sees_booking :: "user \<Rightarrow> booking \<Rightarrow> bool" where
  "sees_booking u b \<longleftrightarrow>
     (case u_role u of CUSTOMER \<Rightarrow> b_customer_id b = u_id u | PROVIDER \<Rightarrow> b_provider_id b = u_id u
        | ADMIN \<Rightarrow> True)"

definition booking_rows :: "database \<Rightarrow> user \<Rightarrow> booking_status option \<Rightarrow> booking list" where
  "booking_rows db u st = sort_key (\<lambda>b. (b_start_time b, b_id b))
     (filter (\<lambda>b. sees_booking u b \<and> (st = None \<or> st = Some (b_status b))) (bookings db))"

lemma list_bookings_rows: "list_bookings db u st skip limit = paginate skip limit (booking_rows db u st)"
proof (cases st)
  case None
  then show ?thesis
    by (cases "u_role u") (simp_all add: list_bookings_def booking_rows_def Let_def sees_booking_def)
next
  case (Some s)
  have "filter (\<lambda>b. s = b_status b \<and> P b) xs = filter (\<lambda>b. b_status b = s \<and> P b) xs" for P xs
    by (rule filter_cong) auto
  with Some show ?thesis
    by (cases "u_role u")
      (simp_all add: list_bookings_def booking_rows_def Let_def sees_booking_def conj_commute eq_commute)
qed

text \<open>
  C31: the pages of the booking list. With a positive page size, a booking is on some page exactly
  when it is stored, visible to the caller and of the requested status; a page is ordered by
  start time and identifier and has at most \<open>limit\<close> rows; consecutive pages tile the list.
\<close>

theorem list_bookings_pages:
  assumes "0 < n"
  shows "((\<exists>k. b \<in> set (list_bookings db u st (k * n) n)) \<longleftrightarrow>
      b \<in> set (bookings db) \<and> sees_booking u b \<and> (st = None \<or> st = Some (b_status b)))
    \<and> sorted_wrt (\<lambda>x y. (b_start_time x, b_id x) \<le> (b_start_time y, b_id y))
        (list_bookings db u st skip n)
    \<and> length (list_bookings db u st skip n) \<le> n
    \<and> list_bookings db u st skip a @ list_bookings db u st (skip + a) c
        = list_bookings db u st skip (a + c)"
proof -
  have "b \<in> set (booking_rows db u st) \<longleftrightarrow>
      b \<in> set (bookings db) \<and> sees_booking u b \<and> (st = None \<or> st = Some (b_status b))"
    by (auto simp: booking_rows_def)
  moreover have "sorted_wrt (\<lambda>x y. (b_start_time x, b_id x) \<le> (b_start_time y, b_id y)) (booking_rows db u st)"
    unfolding booking_rows_def by (rule sorted_sort_key_wrt)
  ultimately show ?thesis
    unfolding list_bookings_rows paginate_append
    using paginate_cover [OF assms, of b "booking_rows db u st"]
    by (simp add: length_paginate sorted_paginate del: less_eq_prod_simp)
qed

lemma list_bookings_pages_witness:
  "\<exists>k. sample_booking PENDING \<in> set (list_bookings (sample_db PENDING) ada (Some PENDING) (k * 20) 20)"
  using list_bookings_pages [of 20 "sample_booking PENDING" "sample_db PENDING" ada "Some PENDING"]
  by (simp add: sees_booking_def) (simp add: sample_defs)

end
