(* ===== verification/Booking_Rules.thy ===== *)
theory Booking_Rules
  imports Bookings
begin

text \<open>
  What the booking handlers promise: the status life cycle as an abstract state machine,
  the effect of each successful request on the committed database, and the schedule
  invariant (no two active bookings of a provider overlap).
\<close>

section \<open>The life cycle as a specification\<close>

text \<open>
  The abstract machine of a booking's status: who may take which step. PENDING is the
  initial state, COMPLETED and CANCELLED are final.
\<close>

inductive lifecycle :: "user_role \<Rightarrow> booking_status \<Rightarrow> booking_status \<Rightarrow> bool" where
  confirm: "r \<noteq> CUSTOMER \<Longrightarrow> lifecycle r PENDING CONFIRMED"
| complete: "r \<noteq> CUSTOMER \<Longrightarrow> lifecycle r CONFIRMED COMPLETED"
| withdraw: "lifecycle r PENDING CANCELLED"
| cancel: "lifecycle r CONFIRMED CANCELLED"

code_pred lifecycle .

inductive_cases lifecycleE: "lifecycle r a b"
inductive_simps lifecycle_from [simp]:
  "lifecycle r PENDING b" "lifecycle r CONFIRMED b" "lifecycle r COMPLETED b" "lifecycle r CANCELLED b"

definition terminal :: "booking_status \<Rightarrow> bool" where
  "terminal st \<longleftrightarrow> st \<in> {CANCELLED, COMPLETED}"

lemma terminal_simps [simp]:
  "\<not> terminal PENDING" "\<not> terminal CONFIRMED" "terminal COMPLETED" "terminal CANCELLED"
  by (simp_all add: terminal_def)

lemma lifecycle_source: "lifecycle r a b \<Longrightarrow> \<not> terminal a \<and> a \<noteq> b \<and> b \<noteq> PENDING"
  by (auto elim: lifecycleE)

section \<open>What a request may do to a booking\<close>

definition same_party :: "booking \<Rightarrow> booking \<Rightarrow> bool" where
  "same_party b b' \<longleftrightarrow> b_id b' = b_id b \<and> b_customer_id b' = b_customer_id b
     \<and> b_provider_id b' = b_provider_id b \<and> b_created_at b' = b_created_at b"

definition status_moved :: "user_role \<Rightarrow> booking \<Rightarrow> booking \<Rightarrow> bool" where
  "status_moved r b b' \<longleftrightarrow> b_status b' = b_status b \<or> lifecycle r (b_status b) (b_status b')"

definition time_moved :: "database \<Rightarrow> booking \<Rightarrow> booking \<Rightarrow> bool" where
  "time_moved db b b' \<longleftrightarrow>
     b_start_time b' = b_start_time b \<and> b_end_time b' = b_end_time b
     \<or> b_start_time b' < b_end_time b'
       \<and> is_provider_available db (b_provider_id b) (b_start_time b') (b_end_time b') (Some (b_id b))"

definition lawful_change :: "user_role \<Rightarrow> database \<Rightarrow> booking \<Rightarrow> booking \<Rightarrow> bool" where
  "lawful_change r db b b' \<longleftrightarrow>
     \<not> terminal (b_status b) \<and> same_party b b' \<and> status_moved r b b' \<and> time_moved db b b'"

lemmas change_defs = lawful_change_def same_party_def status_moved_def time_moved_def

text \<open>Only the notifications grew.\<close>

definition grows :: "database \<Rightarrow> database \<Rightarrow> bool" where
  "grows d d' \<longleftrightarrow> users d' = users d \<and> bookings d' = bookings d \<and> reviews d' = reviews d
     \<and> prefix (notifications d) (notifications d')"

definition notified :: "session \<Rightarrow> session \<Rightarrow> bool" where
  "notified s t \<longleftrightarrow> grows (txn s) (txn t) \<and> store t = store s \<and> pending t = pending s
     \<and> tx_now t = tx_now s"

lemma grows_refl [simp]: "grows d d"
  by (simp add: grows_def)

lemma grows_trans: "grows a b \<Longrightarrow> grows b c \<Longrightarrow> grows a c"
  by (auto simp: grows_def intro: prefix_order.trans)

lemma notified_refl [simp]: "notified s s"
  by (simp add: notified_def)

lemma notified_trans: "notified a b \<Longrightarrow> notified b c \<Longrightarrow> notified a c"
  by (auto simp: notified_def intro: grows_trans)

lemma create_notification_Inr:
  "create_notification uid ty title msg bid s = (Inr x, t) \<Longrightarrow> notified s t"
  by (auto simp: create_notification_run Let_def notified_def grows_def
      split: sum.splits prod.splits dest: insert_notification_bookings)

lemma notify_cancellation_Inr:
  "notify_cancellation b u s = (Inr x, t) \<Longrightarrow> notified s t"
  by (auto simp: notify_cancellation_def Let_def elim!: thenE_InrE split: if_splits
      dest!: create_notification_Inr intro: notified_trans)

section \<open>The status rules\<close>

lemma validate_ok_iff:
  "validate_status_transition a b r = Inr () \<longleftrightarrow> \<not> terminal a \<and> (b = a \<or> lifecycle r a b)"
  by (cases a; cases b; cases r)
    (simp_all add: validate_status_transition_def ROLE_ALLOWED_TRANSITIONS_def)

lemma checkE_Inr: "checkE r s = (Inr x, t) \<longleftrightarrow> r = Inr x \<and> t = s"
  by (auto simp: checkE_def)

lemma update_status_Inr:
  assumes "update_status u upd b s = (Inr b1, t)" and "\<not> terminal (b_status b)"
  shows "notified s t \<and> status_moved (u_role u) b b1 \<and> (\<exists>st. b1 = b\<lparr>b_status := st\<rparr>)"
proof (cases "bu_status upd = None \<or> bu_status upd = Some (b_status b)")
  case True
  with assms(1) have "b1 = b" "t = s" by (auto simp: update_status_def)
  then show ?thesis by (auto simp: status_moved_def intro: exI [of _ "b_status b"])
next
  case False
  then obtain st where st: "bu_status upd = Some st" "st \<noteq> b_status b" by auto
  with assms(1) have "validate_status_transition (b_status b) st (u_role u) = Inr ()"
    and "notified s t" and "b1 = b\<lparr>b_status := st\<rparr>"
    by (auto simp: update_status_def Let_def checkE_Inr elim!: thenE_InrE
        split: booking_status.splits dest: create_notification_Inr notify_cancellation_Inr)
  with st(2) show ?thesis by (auto simp: validate_ok_iff status_moved_def)
qed

lemma check_provider_conflict_Inr:
  "check_provider_conflict pid a z ex s = (Inr x, t) \<longleftrightarrow>
     t = s \<and> is_provider_available (txn s) pid a z ex"
  by (auto simp: check_provider_conflict_def bindE_readE)

lemma reschedule_Inr:
  assumes "reschedule upd b s = (Inr b2, t)"
  shows "t = s \<and> time_moved (txn s) b b2 \<and> (\<exists>a z. b2 = b\<lparr>b_start_time := a, b_end_time := z\<rparr>)"
proof (cases "bu_start_time upd \<noteq> None \<or> bu_end_time upd \<noteq> None")
  case True
  let ?a = "case bu_start_time upd of None \<Rightarrow> b_start_time b | Some t \<Rightarrow> t"
  let ?z = "case bu_end_time upd of None \<Rightarrow> b_end_time b | Some t \<Rightarrow> t"
  from True assms have "thenE (raise_if (?z \<le> ?a) (http 400 ''end_time must be after start_time''))
      (thenE (check_provider_conflict (b_provider_id b) ?a ?z (Some (b_id b)))
        (returnE (b\<lparr>b_start_time := ?a, b_end_time := ?z\<rparr>))) s = (Inr b2, t)"
    by (simp only: reschedule_def Let_def if_True)
  then have "t = s" "?a < ?z" "is_provider_available (txn s) (b_provider_id b) ?a ?z (Some (b_id b))"
    and b2: "b2 = b\<lparr>b_start_time := ?a, b_end_time := ?z\<rparr>"
    by (auto simp: check_provider_conflict_Inr elim!: thenE_InrE simp del: option.case_eq_if)
  moreover from b2 have "\<exists>a z. b2 = b\<lparr>b_start_time := a, b_end_time := z\<rparr>" by blast
  ultimately show ?thesis by (simp add: time_moved_def)
next
  case False
  with assms have "b2 = b" "t = s" by (auto simp: reschedule_def)
  moreover have "b = b\<lparr>b_start_time := b_start_time b, b_end_time := b_end_time b\<rparr>" by simp
  then have "\<exists>a z. b = b\<lparr>b_start_time := a, b_end_time := z\<rparr>" by blast
  ultimately show ?thesis by (simp add: time_moved_def)
qed

section \<open>Effects of successful requests\<close>

text \<open>
  An UPDATE of one booking: the new row differs from the object at most in
  \<open>updated_at\<close>; everything else stays.
\<close>

lemma update_row_effect:
  assumes "update_booking_row now b d = Inr d'" and "integrity d"
  shows "\<exists>b'. same_booking b b' \<and> bookings d' = replace_by b_id b' (bookings d)
    \<and> users d' = users d \<and> reviews d' = reviews d \<and> notifications d' = notifications d"
proof -
  from assms(1) obtain old where old: "get_booking d (b_id b) = Some old"
    by (auto simp: update_booking_row_def split: option.splits)
  show ?thesis
  proof (cases "b = old")
    case True
    from old have "old \<in> set (bookings d)" by (auto simp: get_booking_def dest: lookup_by_Some)
    with assms(2) have "replace_by b_id old (bookings d) = bookings d"
      by (intro replace_by_same) (auto simp: integrity_def bookings_ok_def)
    with True old assms(1) show ?thesis
      by (auto simp: update_booking_row_def same_booking_def intro!: exI [of _ old])
  next
    case False
    with old assms(1) show ?thesis
      by (auto simp: update_booking_row_def same_booking_def split: if_splits
          intro!: exI [of _ "b\<lparr>b_updated_at := now\<rparr>"])
  qed
qed

definition changed_one :: "user_role \<Rightarrow> database \<Rightarrow> database \<Rightarrow> uuid \<Rightarrow> bool" where
  "changed_one r db db' bid \<longleftrightarrow>
     (\<exists>b b'. get_booking db bid = Some b \<and> lawful_change r db b b'
        \<and> bookings db' = replace_by b_id b' (bookings db) \<and> users db' = users db
        \<and> reviews db' = reviews db \<and> prefix (notifications db) (notifications db'))"

lemma same_booking_lawful:
  "lawful_change r db b b1 \<Longrightarrow> same_booking b1 b' \<Longrightarrow> lawful_change r db b b'"
  using same_booking_fields [of b1 b'] by (auto simp: change_defs)

lemma get_booking_grows: "grows d d' \<Longrightarrow> get_booking d' i = get_booking d i"
  by (simp add: grows_def get_booking_def)

lemma available_grows: "grows d d' \<Longrightarrow> is_provider_available d' = is_provider_available d"
  by (simp add: fun_eq_iff grows_def is_provider_available_iff)

lemma get_booking_id: "get_booking db i = Some b \<Longrightarrow> b_id b = i"
  by (auto simp: get_booking_def dest: lookup_by_Some)

lemma save_booking_effect:
  assumes run: "save_booking b1 t = (Inr r, t')" and pend: "pending t = []"
    and grow: "grows db (txn t)" and ok: "integrity (txn t)"
    and get: "get_booking db bid = Some b" and law: "lawful_change ro db b b1"
  shows "changed_one ro db (store t') bid"
proof -
  from run pend have upd: "update_booking_row (tx_now t) b1 (txn t) = Inr (store t')"
    by (auto simp: save_booking_run split: sum.splits)
  from update_row_effect [OF this ok] obtain b' where b': "same_booking b1 b'"
      "bookings (store t') = replace_by b_id b' (bookings (txn t))" "users (store t') = users (txn t)"
      "reviews (store t') = reviews (txn t)" "notifications (store t') = notifications (txn t)"
    by blast
  from same_booking_lawful [OF law b'(1)] get b'(2-) grow show ?thesis
    by (auto simp: changed_one_def grows_def)
qed

lemma update_booking_effect:
  assumes run: "with_session env (update_booking bid upd u) db = (Inr r, db')" and ok: "integrity db"
  shows "(\<exists>b. get_booking db bid = Some b \<and> may_modify u b) \<and> changed_one (u_role u) db db' bid"
proof -
  let ?s = "open_session env db"
  from run obtain t' where h: "update_booking bid upd u ?s = (Inr r, t')" and db': "db' = store t'"
    by (auto simp: with_session_run)
  then obtain b where get: "get_booking db bid = Some b"
    by (auto simp: update_booking_def db_get_booking_def bindE_readE split: option.splits)
  with h have may: "may_modify u b" and live: "\<not> terminal (b_status b)"
    by (auto simp: update_booking_def db_get_booking_def session_run terminal_def thenE_def bindE_def
        split: if_splits option.splits prod.splits sum.splits)
  with h get obtain b1 t1 b2 t2 where
      1: "update_status u upd b ?s = (Inr b1, t1)" and 2: "reschedule upd b1 t1 = (Inr b2, t2)"
      and 3: "save_booking (rename_service upd b2) t2 = (Inr r, t')"
    by (auto simp: update_booking_def db_get_booking_def session_run terminal_def elim!: bindE_InrE)
  from update_status_Inr [OF 1 live] have n1: "notified ?s t1" and s1: "status_moved (u_role u) b b1"
    and b1: "\<exists>st. b1 = b\<lparr>b_status := st\<rparr>" by auto
  from reschedule_Inr [OF 2] have t2: "t2 = t1" and m2: "time_moved (txn t1) b1 b2"
    and b2: "\<exists>a z. b2 = b1\<lparr>b_start_time := a, b_end_time := z\<rparr>" by auto
  from n1 have g: "grows db (txn t1)" and p: "pending t1 = []" by (auto simp: notified_def)
  have "session_ok t1"
    using keepsD_run [OF keeps_update_status _ 1] ok by simp
  then have ok1: "integrity (txn t1)" by (simp add: session_ok_def)
  have law: "lawful_change (u_role u) db b (rename_service upd b2)"
    using live s1 b1 b2 m2 available_grows [OF g]
    by (auto simp: change_defs rename_service_def split: option.split)
  from save_booking_effect [OF 3 [unfolded t2] p g ok1 get law] get may db' show ?thesis by blast
qed

lemma cancel_like_effect:
  assumes n: "notify_cancellation (b\<lparr>b_status := CANCELLED\<rparr>) u (open_session env db) = (Inr x, t1)"
    and s: "save_booking (b\<lparr>b_status := CANCELLED\<rparr>) t1 = (Inr r, t')"
    and get: "get_booking db bid = Some b" and live: "\<not> terminal (b_status b)" and ok: "integrity db"
  shows "changed_one ro db (store t') bid"
proof -
  from notify_cancellation_Inr [OF n] have g: "grows db (txn t1)" and p: "pending t1 = []"
    by (auto simp: notified_def)
  have "session_ok t1"
    using keepsD_run [OF keeps_notify_cancellation _ n] ok by simp
  then have ok1: "integrity (txn t1)" by (simp add: session_ok_def)
  have "lawful_change ro db b (b\<lparr>b_status := CANCELLED\<rparr>)"
    using live by (cases "b_status b") (auto simp: change_defs)
  from save_booking_effect [OF s p g ok1 get this] show ?thesis .
qed

lemma get_booking_by_id_Inr:
  "get_booking_by_id bid u s = (Inr b, t) \<Longrightarrow>
     t = s \<and> get_booking (txn s) bid = Some b \<and> may_modify u b"
  by (auto simp: get_booking_by_id_def db_get_booking_def bindE_readE may_modify_def
      split: option.splits if_splits)

lemma cancel_booking_effect:
  assumes run: "with_session env (cancel_booking bid u) db = (Inr r, db')" and ok: "integrity db"
  shows "(\<exists>b. get_booking db bid = Some b \<and> may_modify u b) \<and> changed_one (u_role u) db db' bid"
proof -
  let ?s = "open_session env db"
  from run obtain t' where h: "cancel_booking bid u ?s = (Inr r, t')" and db': "db' = store t'"
    by (auto simp: with_session_run)
  from h obtain b u' where 0: "get_booking_by_id bid u ?s = (Inr b, u')"
      and k: "thenE (checkE (validate_status_transition (b_status b) CANCELLED (u_role u)))
        (thenE (notify_cancellation (b\<lparr>b_status := CANCELLED\<rparr>) u)
          (save_booking (b\<lparr>b_status := CANCELLED\<rparr>))) u' = (Inr r, t')"
    unfolding cancel_booking_def Let_def by (elim bindE_InrE)
  from get_booking_by_id_Inr [OF 0] have u': "u' = ?s" by simp
  from k obtain t1 where v: "validate_status_transition (b_status b) CANCELLED (u_role u) = Inr ()"
      and n: "notify_cancellation (b\<lparr>b_status := CANCELLED\<rparr>) u ?s = (Inr (), t1)"
      and s: "save_booking (b\<lparr>b_status := CANCELLED\<rparr>) t1 = (Inr r, t')"
    unfolding u' by (elim thenE_InrE) (auto simp: checkE_Inr)
  from get_booking_by_id_Inr [OF 0] have get: "get_booking db bid = Some b" and "may_modify u b"
    by auto
  moreover from v have "\<not> terminal (b_status b)" by (simp add: validate_ok_iff)
  from cancel_like_effect [OF n s get this ok] db' have "changed_one (u_role u) db db' bid" by simp
  ultimately show ?thesis by blast
qed

lemma delete_booking_effect:
  assumes run: "with_session env (delete_booking bid u) db = (Inr r, db')" and ok: "integrity db"
  shows "\<exists>b b'. get_booking db bid = Some b \<and> b_status b = PENDING \<and> u_role u \<noteq> PROVIDER
    \<and> (u_role u = CUSTOMER \<longrightarrow> b_customer_id b = u_id u)
    \<and> get_booking db' bid = Some b' \<and> same_booking (b\<lparr>b_status := CANCELLED\<rparr>) b'
    \<and> changed_one (u_role u) db db' bid"
proof -
  let ?s = "open_session env db"
  from run obtain t' where h: "delete_booking bid u ?s = (Inr r, t')" and db': "db' = store t'"
    by (auto simp: with_session_run)
  then obtain b where get: "get_booking db bid = Some b"
    by (auto simp: delete_booking_def db_get_booking_def bindE_readE split: option.splits)
  let ?b = "b\<lparr>b_status := CANCELLED\<rparr>"
  from h get have guards: "u_role u \<noteq> PROVIDER" "u_role u = CUSTOMER \<longrightarrow> b_customer_id b = u_id u"
      "b_status b = PENDING"
    and k: "thenE (notify_cancellation ?b u) (thenE (add_pending (SaveBooking ?b)) (or_rollback commit)) ?s
      = (Inr r, t')"
    by (auto simp: delete_booking_def db_get_booking_def session_run Let_def
        split: if_splits booking_status.splits intro: booking_status.exhaust [of "b_status b"])
  from k obtain x t1 where n: "notify_cancellation ?b u ?s = (Inr x, t1)"
      and c: "thenE (add_pending (SaveBooking ?b)) (or_rollback commit) t1 = (Inr r, t')"
    by (rule thenE_InrE)
  from notify_cancellation_Inr [OF n] have p: "pending t1 = []" by (simp add: notified_def)
  with c have upd: "update_booking_row (tx_now t1) ?b (txn t1) = Inr (store t')"
    by (auto simp: thenE_add_pending or_rollback_Inr commit_Inr split: sum.splits)
  then have "save_booking ?b t1 = (Inr (the (get_booking (store t') (b_id ?b))),
      t1\<lparr>txn := store t', store := store t', pending := []\<rparr>)"
    using p by (simp add: save_booking_run)
  from cancel_like_effect [OF n this get _ ok] guards
  have ch: "changed_one (u_role u) db db' bid" by (simp add: db')
  from update_row_get [OF upd] get_booking_id [OF get]
  obtain b' where "get_booking db' bid = Some b'" "same_booking ?b b'" by (auto simp: db')
  with get guards ch show ?thesis by blast
qed

section \<open>Properties\<close>

text \<open>
  C8: the status rules are the life cycle. A transition is accepted exactly when the booking is
  not final and the target is its own status or a life-cycle step of the role; a refusal is 403
  exactly when an administrator could have taken the step, and 400 otherwise.
\<close>

theorem status_rules_are_lifecycle:
  "case validate_status_transition current target role of
     Inr _ \<Rightarrow> \<not> terminal current \<and> (target = current \<or> lifecycle role current target)
   | Inl e \<Rightarrow> (terminal current \<or> target \<noteq> current \<and> \<not> lifecycle role current target)
       \<and> status_code e = (if lifecycle ADMIN current target then 403 else 400)"
  by (cases current; cases target; cases role)
    (simp_all add: validate_status_transition_def ROLE_ALLOWED_TRANSITIONS_def)

end
