(* ===== verification/Schedule.thy ===== *)
theory Schedule
  imports Booking_Rules Samples
begin

text \<open>
  The abstract specification of the booking service: a step relation on databases
  (\<open>booking_step\<close>), its invariants (no provider is double booked, every booked provider
  has the provider role, the parties of a booking never change and its status follows the
  life cycle), and the refinement: every handler of \<open>Bookings\<close> either raises and changes
  nothing or takes one such step.
\<close>

section \<open>The schedule\<close>

definition active :: "booking \<Rightarrow> bool" where
  "active b \<longleftrightarrow> b_status b \<noteq> CANCELLED"

definition clash :: "booking \<Rightarrow> booking \<Rightarrow> bool" where
  "clash b c \<longleftrightarrow> b_provider_id b = b_provider_id c \<and> active b \<and> active c
     \<and> b_start_time b < b_end_time c \<and> b_start_time c < b_end_time b"

definition no_double_booking :: "database \<Rightarrow> bool" where
  "no_double_booking db \<longleftrightarrow>
     (\<forall>b \<in> set (bookings db). \<forall>c \<in> set (bookings db). clash b c \<longrightarrow> b_id b = b_id c)"

definition providers_ok :: "database \<Rightarrow> bool" where
  "providers_ok db \<longleftrightarrow>
     (\<forall>b \<in> set (bookings db). \<exists>p \<in> set (users db). u_id p = b_provider_id b \<and> u_role p = PROVIDER)"

definition schedule_ok :: "database \<Rightarrow> bool" where
  "schedule_ok db \<longleftrightarrow> no_double_booking db \<and> providers_ok db"

lemma clash_sym: "clash b c \<longleftrightarrow> clash c b"
  by (auto simp: clash_def)

lemma clash_conflicts:
  "active b \<Longrightarrow> clash b c \<longleftrightarrow>
     b_provider_id b = b_provider_id c \<and> conflicts (b_provider_id b) (b_start_time b) (b_end_time b) None c"
  by (auto simp: clash_def active_def conflicts_def)

lemma conflicts_exclude:
  "conflicts pid a z (Some i) c \<longleftrightarrow> conflicts pid a z None c \<and> b_id c \<noteq> i"
  by (auto simp: conflicts_def)

section \<open>The steps of the specification\<close>

inductive booking_step :: "user_role \<Rightarrow> database \<Rightarrow> database \<Rightarrow> bool" where
  requested: "\<lbrakk>\<not> has_booking db (b_id b); b_status b = PENDING;
      is_provider_available db (b_provider_id b) (b_start_time b) (b_end_time b) None;
      get_user db (b_provider_id b) = Some p; u_role p = PROVIDER;
      bookings db' = bookings db @ [b]; users db' = users db; reviews db' = reviews db;
      prefix (notifications db) (notifications db')\<rbrakk>
    \<Longrightarrow> booking_step r db db'"
| changed: "changed_one r db db' bid \<Longrightarrow> booking_step r db db'"

inductive_cases booking_stepE: "booking_step r db db'"

text \<open>Nothing outside the bookings and the notification log is touched.\<close>

lemma booking_step_frame:
  "booking_step r db db' \<Longrightarrow> users db' = users db \<and> reviews db' = reviews db
     \<and> prefix (notifications db) (notifications db')"
  by (auto elim!: booking_stepE simp: changed_one_def)

lemma no_double_booking_append:
  assumes "no_double_booking db"
    and "is_provider_available db (b_provider_id b) (b_start_time b) (b_end_time b) None"
    and rows: "bookings db' = bookings db @ [b]"
  shows "no_double_booking db'"
proof -
  have free: "\<not> clash b c" if "c \<in> set (bookings db)" for c
    using that assms(2)
    by (auto simp: clash_def conflicts_def active_def is_provider_available_iff)
  then have "\<not> clash c b" if "c \<in> set (bookings db)" for c
    using that clash_sym by blast
  with free assms(1) show ?thesis
    by (auto simp: no_double_booking_def rows)
qed

text \<open>A lawful change makes no new clash: it frees the slot, keeps it, or has checked it.\<close>

lemma lawful_change_clash:
  assumes law: "lawful_change r db b b'" and b: "b \<in> set (bookings db)"
    and c: "c \<in> set (bookings db)" "b_id c \<noteq> b_id b" and ok: "no_double_booking db"
  shows "\<not> clash b' c"
proof
  assume cl: "clash b' c"
  from law have party: "b_provider_id b' = b_provider_id b" and moved: "time_moved db b b'"
    and live: "active b"
    by (auto simp: lawful_change_def same_party_def active_def)
  from moved show False unfolding time_moved_def
  proof
    assume "b_start_time b' = b_start_time b \<and> b_end_time b' = b_end_time b"
    with cl party live have "clash b c" by (simp add: clash_def)
    with ok b c show False by (auto simp: no_double_booking_def)
  next
    assume "b_start_time b' < b_end_time b' \<and>
      is_provider_available db (b_provider_id b) (b_start_time b') (b_end_time b') (Some (b_id b))"
    with c have "\<not> conflicts (b_provider_id b) (b_start_time b') (b_end_time b') None c"
      by (auto simp: is_provider_available_iff conflicts_exclude)
    moreover from cl have "active b'" by (simp add: clash_def)
    ultimately show False using cl party by (auto simp: clash_conflicts)
  qed
qed

lemma no_double_booking_replace:
  assumes ok: "no_double_booking db" and get: "get_booking db i = Some b"
    and law: "lawful_change r db b b'" and rows: "bookings db' = replace_by b_id b' (bookings db)"
  shows "no_double_booking db'"
proof -
  from get have b: "b \<in> set (bookings db)" by (auto simp: get_booking_def dest: lookup_by_Some)
  from law have id: "b_id b' = b_id b" by (simp add: lawful_change_def same_party_def)
  note free = lawful_change_clash [OF law b _ _ ok]
  show ?thesis
    unfolding no_double_booking_def rows
  proof (intro ballI impI)
    fix x y
    assume "x \<in> set (replace_by b_id b' (bookings db))" "y \<in> set (replace_by b_id b' (bookings db))"
      and cl: "clash x y"
    then have x: "x = b' \<or> x \<in> set (bookings db) \<and> b_id x \<noteq> b_id b"
      and y: "y = b' \<or> y \<in> set (bookings db) \<and> b_id y \<noteq> b_id b"
      using id by (auto dest!: in_replace_byD)
    then show "b_id x = b_id y"
      using cl ok free clash_sym by (auto simp: no_double_booking_def)
  qed
qed

lemma booking_step_no_double:
  "booking_step r db db' \<Longrightarrow> no_double_booking db \<Longrightarrow> no_double_booking db'"
proof (induction rule: booking_step.induct)
  case (requested db b p db' r)
  then show ?case by (blast intro: no_double_booking_append)
next
  case (changed r db db' bid)
  then show ?case unfolding changed_one_def by (blast intro: no_double_booking_replace)
qed

lemma booking_step_providers:
  "booking_step r db db' \<Longrightarrow> providers_ok db \<Longrightarrow> providers_ok db'"
proof (induction rule: booking_step.induct)
  case (requested db b p db' r)
  then have "p \<in> set (users db) \<and> u_id p = b_provider_id b"
    by (auto simp: get_user_def dest: lookup_by_Some)
  with requested show ?case by (auto simp: providers_ok_def)
next
  case (changed r db db' bid)
  then obtain b b' where b: "b \<in> set (bookings db)" and p: "b_provider_id b' = b_provider_id b"
    and rows: "bookings db' = replace_by b_id b' (bookings db)" "users db' = users db"
    by (auto simp: changed_one_def change_defs get_booking_def dest!: lookup_by_Some)
  with changed.prems show ?case by (auto simp: providers_ok_def dest!: in_replace_byD)
qed

lemma booking_step_schedule:
  "booking_step r db db' \<Longrightarrow> schedule_ok db \<Longrightarrow> schedule_ok db'"
  by (simp add: schedule_ok_def booking_step_no_double booking_step_providers)

text \<open>No booking is ever lost, its parties are fixed, and its status follows the life cycle.\<close>

definition evolves :: "user_role \<Rightarrow> database \<Rightarrow> database \<Rightarrow> bool" where
  "evolves r db db' \<longleftrightarrow>
     (\<forall>i b. get_booking db i = Some b \<longrightarrow>
        (\<exists>b'. get_booking db' i = Some b' \<and> same_party b b' \<and> status_moved r b b'))"

lemma booking_step_evolves: "booking_step r db db' \<Longrightarrow> evolves r db db'"
proof (induction rule: booking_step.induct)
  case (requested db b p db' r)
  then show ?case
    by (auto simp: evolves_def get_booking_def lookup_by_append same_party_def status_moved_def)
next
  case (changed r db db' bid)
  then obtain b b' where get: "get_booking db bid = Some b" and law: "lawful_change r db b b'"
    and rows: "bookings db' = replace_by b_id b' (bookings db)" by (auto simp: changed_one_def)
  from law have "same_party b b'" "status_moved r b b'" by (simp_all add: lawful_change_def)
  with get get_booking_id [OF get] show ?case
    by (auto simp: evolves_def get_booking_def rows lookup_by_replace)
      (auto simp: same_party_def status_moved_def)
qed

section \<open>The handlers refine the specification\<close>

lemma create_booking_checks_Inr:
  "create_booking_checks cid b s = (Inr x, t) \<longleftrightarrow>
     t = s \<and> cid \<noteq> bc_provider_id b
     \<and> (\<exists>p. get_user (txn s) (bc_provider_id b) = Some p \<and> u_role p = PROVIDER)
     \<and> is_provider_available (txn s) (bc_provider_id b) (bc_start_time b) (bc_end_time b) None"
  by (auto simp: create_booking_checks_def db_get_user_def session_run check_provider_conflict_Inr
      split: option.splits)

lemma create_booking_persist_effect:
  assumes run: "create_booking_persist cid b s = (Inr r, t)" and pend: "pending s = []"
  shows "r = new_booking (rand s (drawn s)) (tx_now s) cid b \<and> \<not> has_booking (txn s) (b_id r)
    \<and> booking_checks (txn s) r \<and> bookings (store t) = bookings (txn s) @ [r]
    \<and> users (store t) = users (txn s) \<and> reviews (store t) = reviews (txn s)
    \<and> prefix (notifications (txn s)) (notifications (store t))"
  using run
  by (auto simp: create_booking_persist_run [OF pend] Let_def insert_booking_def
      split: sum.splits prod.splits if_splits dest!: insert_notification_bookings)

lemma create_booking_effect:
  assumes run: "with_session env (create_booking cid b) db = (Inr r, db')"
  shows "r = new_booking (env_rand env 0) (env_tx_now env) cid b \<and> booking_checks db r
    \<and> bookings db' = bookings db @ [r] \<and> booking_step ro db db'"
proof -
  let ?s = "open_session env db"
  from run obtain t where h: "create_booking cid b ?s = (Inr r, t)" and db': "db' = store t"
    by (auto simp: with_session_run)
  from h obtain x u where c: "create_booking_checks cid b ?s = (Inr x, u)"
      and "create_booking_persist cid b u = (Inr r, t)"
    unfolding create_booking_def by (rule thenE_InrE)
  with create_booking_checks_Inr [of cid b ?s x u]
  have p: "create_booking_persist cid b ?s = (Inr r, t)" by simp
  from c obtain p where prov: "get_user db (bc_provider_id b) = Some p" "u_role p = PROVIDER"
      and free: "is_provider_available db (bc_provider_id b) (bc_start_time b) (bc_end_time b) None"
    by (auto simp: create_booking_checks_Inr)
  from create_booking_persist_effect [OF p]
  have r: "r = new_booking (env_rand env 0) (env_tx_now env) cid b" "\<not> has_booking db (b_id r)"
      "booking_checks db r" and rows: "bookings db' = bookings db @ [r]" "users db' = users db"
      "reviews db' = reviews db" "prefix (notifications db) (notifications db')"
    by (auto simp: db')
  have "booking_step ro db db'"
    by (rule booking_step.requested [of db r p])
      (use r prov free rows in \<open>simp_all add: new_booking_def\<close>)
  with r rows show ?thesis by simp
qed

section \<open>The contract of a handler\<close>

text \<open>
  What every handler of the program promises its caller, whatever the request: an exception
  means that nothing was committed, and a commit keeps the database's integrity.
\<close>

locale atomic_handler =
  fixes h :: "'a service"
  assumes raises_clean: "safe h"
    and keeps_ok: "keeps session_ok h"
begin

lemma error_unchanged: "with_session env h db = (Inl e, db') \<Longrightarrow> db' = db"
  using raises_clean by (rule with_session_error)

lemma integrity_kept: "with_session env h db = (r, db') \<Longrightarrow> integrity db \<Longrightarrow> integrity db'"
  using keepsD_run [OF keeps_ok, of "open_session env db"]
  by (auto simp: with_session_run session_ok_def)

end

text \<open>A handler of the booking service also takes a step of the specification.\<close>

locale booking_handler = atomic_handler h for h :: "'a service" +
  fixes actor :: user_role
  assumes success_steps: "with_session env h db = (Inr r, db') \<Longrightarrow> integrity db \<Longrightarrow> booking_step actor db db'"
begin

lemma run_cases:
  assumes "with_session env h db = (r, db')" and "integrity db"
  obtains "db' = db" | "booking_step actor db db'"
  using assms error_unchanged success_steps by (cases r) auto

lemma schedule_kept:
  assumes "with_session env h db = (r, db')" and "integrity db" and "schedule_ok db"
  shows "schedule_ok db'"
  using assms booking_step_schedule by (auto elim: run_cases)

lemma history_kept:
  assumes "with_session env h db = (r, db')" and "integrity db"
  shows "evolves actor db db'"
proof -
  have "evolves actor db db" by (auto simp: evolves_def same_party_def status_moved_def)
  with assms booking_step_evolves show ?thesis by (auto elim: run_cases)
qed

end

interpretation create: booking_handler "create_booking cid b" r for cid b r
  by unfold_locales
    (fact safe_create_booking, fact keeps_create_booking, blast dest: create_booking_effect)

interpretation update: booking_handler "update_booking bid upd u" "u_role u" for bid upd u
  by unfold_locales
    (fact safe_update_booking, fact keeps_update_booking,
     blast dest: update_booking_effect intro: booking_step.changed)

interpretation cancel: booking_handler "cancel_booking bid u" "u_role u" for bid u
  by unfold_locales
    (fact safe_cancel_booking, fact keeps_cancel_booking,
     blast dest: cancel_booking_effect intro: booking_step.changed)

interpretation delete: booking_handler "delete_booking bid u" "u_role u" for bid u
  by unfold_locales
    (fact safe_delete_booking, fact keeps_delete_booking,
     blast dest: delete_booking_effect intro: booking_step.changed)

section \<open>The outcome of a booking request\<close>

lemma new_booking_simps [simp]:
  "b_id (new_booking i now c b) = i" "b_customer_id (new_booking i now c b) = c"
  "b_provider_id (new_booking i now c b) = bc_provider_id b"
  "b_service_name (new_booking i now c b) = bc_service_name b"
  "b_start_time (new_booking i now c b) = bc_start_time b"
  "b_end_time (new_booking i now c b) = bc_end_time b"
  "b_status (new_booking i now c b) = PENDING"
  by (simp_all add: new_booking_def)

text \<open>A notification for a booking nobody refers to yet always goes in.\<close>

lemma insert_notification_new:
  assumes "notifications_ok db" and "\<not> has_booking db bid"
    and "n_booking_id n = Some bid" and "n_id n \<notin> n_id ` set (notifications db)"
    and "notification_sized n" and "has_user db (n_user_id n)"
  shows "insert_notification_nothing n (db\<lparr>bookings := bookings db @ [b]\<rparr>)
    = (if b_id b = bid then Inr (Some n, db\<lparr>bookings := bookings db @ [b],
         notifications := notifications db @ [n]\<rparr>)
       else insert_notification_nothing n (db\<lparr>bookings := bookings db @ [b]\<rparr>))"
proof -
  have "\<not> same_notification_key m n" if "m \<in> set (notifications db)" for m
    using assms that by (auto simp: same_notification_key_def notifications_ok_def notification_checks_def)
  with assms show ?thesis
    by (auto simp: insert_notification_nothing_def notification_checks_def has_booking_def has_user_def)
qed

text \<open>Once the checks have passed, the writes of a valid request cannot fail.\<close>

lemma create_booking_granted:
  assumes ok: "integrity db" and fresh: "fresh_ids 2 env db" and caller: "has_user db customer_id"
    and range: "bc_start_time b < bc_end_time b" and sized: "pg_string 255 (bc_service_name b)"
    and p: "get_user db (bc_provider_id b) = Some p" and ne: "customer_id \<noteq> bc_provider_id b"
  shows "create_booking_persist customer_id b (open_session env db) =
    (let bk = new_booking (env_rand env 0) (env_tx_now env) customer_id b;
         n = booking_note (env_rand env 1) (env_tx_now env) bk;
         d = db\<lparr>bookings := bookings db @ [bk], notifications := notifications db @ [n]\<rparr>
     in (Inr bk, (open_session env db)\<lparr>drawn := 2, txn := d, store := d, pending := []\<rparr>))"
proof -
  let ?bk = "new_booking (env_rand env 0) (env_tx_now env) customer_id b"
  let ?n = "booking_note (env_rand env 1) (env_tx_now env) ?bk"
  from p have "has_user db (bc_provider_id b)" by (rule get_user_has)
  with ne caller range sized fresh_idsD [OF fresh]
  have "insert_booking ?bk db = Inr (db\<lparr>bookings := bookings db @ [?bk]\<rparr>)"
    by (simp add: insert_booking_def booking_sized_def booking_checks_def)
  moreover have "insert_notification_nothing ?n (db\<lparr>bookings := bookings db @ [?bk]\<rparr>) =
      Inr (Some ?n, db\<lparr>bookings := bookings db @ [?bk], notifications := notifications db @ [?n]\<rparr>)"
    using insert_notification_new [of db "env_rand env 0" ?n ?bk] ok fresh_idsD [OF fresh]
      \<open>has_user db (bc_provider_id b)\<close>
    by (simp add: integrity_def booking_note_def notification_sized_def)
  ultimately show ?thesis
    by (simp add: create_booking_persist_run Let_def numeral_2_eq_2)
qed

text \<open>
  C4: creating a booking, branch by branch. For a known caller with a valid body the handler
  answers 400 when booking oneself, 404 for an unknown provider, 400 for a user who is not a
  provider, 409 exactly when an active booking of the provider overlaps the half-open slot, and
  otherwise stores one PENDING booking and one message to the provider; a refusal changes nothing.
\<close>

theorem create_booking_outcome:
  assumes ok: "integrity db" and fresh: "fresh_ids 2 env db" and caller: "has_user db customer_id"
    and range: "bc_start_time b < bc_end_time b" and sized: "pg_string 255 (bc_service_name b)"
  shows "with_session env (create_booking customer_id b) db =
    (if customer_id = bc_provider_id b then
       (Inl (http 400 ''Customer cannot book themselves as a provider''), db)
     else case get_user db (bc_provider_id b) of
       None \<Rightarrow> (Inl (http 404 ''Provider not found''), db)
     | Some p \<Rightarrow>
         if u_role p \<noteq> PROVIDER then
           (Inl (http 400 ''Selected user is not registered as a service provider''), db)
         else if \<exists>c \<in> set (bookings db). b_provider_id c = bc_provider_id b \<and> b_status c \<noteq> CANCELLED
             \<and> b_start_time c < bc_end_time b \<and> bc_start_time b < b_end_time c then
           (Inl (http 409 ''Provider has an overlapping booking for the requested time slot''), db)
         else
           (let bk = new_booking (env_rand env 0) (env_tx_now env) customer_id b in
            (Inr bk, db\<lparr>bookings := bookings db @ [bk],
                notifications := notifications db @ [booking_note (env_rand env 1) (env_tx_now env) bk]\<rparr>)))"
proof -
  let ?s = "open_session env db"
  let ?bk = "new_booking (env_rand env 0) (env_tx_now env) customer_id b"
  let ?n = "booking_note (env_rand env 1) (env_tx_now env) ?bk"
  note run = create_booking_granted [OF ok fresh caller range sized]
  show ?thesis
    by (auto simp: with_session_def create_booking_def create_booking_checks_def
        check_provider_conflict_def thenE_def bindE_def raise_if_apply db_get_user_def 
        is_provider_available_iff conflicts_def run Let_def split: option.split)
qed

definition sample_request :: "int \<Rightarrow> int \<Rightarrow> booking_create" where
  "sample_request a z = \<lparr>bc_provider_id = UUID 2, bc_service_name = ''Massage'',
     bc_start_time = hour a, bc_end_time = hour z\<rparr>"

lemma create_booking_outcome_witness:
  "with_session sample_env (create_booking (UUID 4) (sample_request 10 12)) (sample_db CONFIRMED) =
     (Inl (http 409 ''Provider has an overlapping booking for the requested time slot''),
      sample_db CONFIRMED)"
  by (subst create_booking_outcome) (simp_all add: sample_request_def pg_defs, simp_all add: sample_defs)

text \<open>
  C5: changing a booking, in full: a refused request changes nothing; a successful one is by a
  participant or an administrator, and changes exactly one row that was not final, keeps its
  parties, moves its status along the life cycle of the caller's role, and moves its times only to
  a valid slot in which the provider has no other active booking.
\<close>

theorem update_booking_lawful:
  assumes "integrity db" and "with_session env (update_booking bid upd u) db = (r, db')"
  shows "case r of
      Inl _ \<Rightarrow> db' = db
    | Inr _ \<Rightarrow> (\<exists>b b'. get_booking db bid = Some b \<and> may_modify u b \<and> lawful_change (u_role u) db b b'
        \<and> bookings db' = replace_by b_id b' (bookings db) \<and> users db' = users db
        \<and> reviews db' = reviews db \<and> prefix (notifications db) (notifications db'))"
proof (cases r)
  case (Inl e)
  with assms update.error_unchanged show ?thesis by simp
next
  case (Inr x)
  with assms have "with_session env (update_booking bid upd u) db = (Inr x, db')" by simp
  from update_booking_effect [OF this assms(1)] Inr show ?thesis by (auto simp: changed_one_def)
qed

lemma update_booking_lawful_witness:
  "b_start_time (hd (bookings (snd (with_session sample_env (update_booking (UUID 10)
     \<lparr>bu_service_name = None, bu_start_time = Some (hour 8), bu_end_time = None, bu_status = Some CONFIRMED\<rparr> bob)
     (sample_db PENDING))))) = hour 8
   \<and> (case fst (with_session sample_env (update_booking (UUID 10)
     \<lparr>bu_service_name = None, bu_start_time = Some (hour 8), bu_end_time = None, bu_status = Some CONFIRMED\<rparr> bob)
     (sample_db PENDING)) of Inl _ \<Rightarrow> False | Inr _ \<Rightarrow> may_modify bob (sample_booking PENDING))"
proof -
  let ?run = "with_session sample_env (update_booking (UUID 10)
     \<lparr>bu_service_name = None, bu_start_time = Some (hour 8), bu_end_time = None, bu_status = Some CONFIRMED\<rparr> bob)
     (sample_db PENDING)"
  let ?r = "(sample_booking PENDING)\<lparr>b_start_time := hour 8, b_status := CONFIRMED, b_updated_at := hour 1\<rparr>"
  have f: "fst ?run = Inr ?r" and g: "b_start_time (hd (bookings (snd ?run))) = hour 8" by code_simp+
  then have "?run = (Inr ?r, snd ?run)" by (metis prod.collapse)
  from update_booking_lawful [OF sample_db_integrity this] f g show ?thesis by auto
qed

end
