(* ===== verification/Cancellation.thy ===== *)
theory Cancellation
  imports Schedule
begin

text \<open>
  The two ways a booking is cancelled, \<open>cancel_booking\<close> and \<open>delete_booking\<close>, branch by
  branch: the answer, the committed row and the messages the other participants get.
\<close>

section \<open>The outcome of a cancellation\<close>

text \<open>The participants other than the actor have been told; nobody else got a message.\<close>

definition cancellation_note :: "booking \<Rightarrow> user \<Rightarrow> notification \<Rightarrow> bool" where
  "cancellation_note b u n \<longleftrightarrow>
     n_booking_id n = Some (b_id b) \<and> n_type n = BOOKING_CANCELLED \<and> \<not> n_is_read n
     \<and> n_user_id n \<noteq> u_id u \<and> (n_user_id n = b_customer_id b \<or> n_user_id n = b_provider_id b)"

definition cancellation_told :: "booking \<Rightarrow> user \<Rightarrow> database \<Rightarrow> database \<Rightarrow> bool" where
  "cancellation_told b u d d' \<longleftrightarrow>
     (\<exists>ns. notifications d' = notifications d @ ns \<and> (\<forall>n \<in> set ns. cancellation_note b u n))
     \<and> (u_id u \<noteq> b_customer_id b \<longrightarrow> has_notification d' (b_customer_id b) (b_id b) BOOKING_CANCELLED)
     \<and> (u_id u \<noteq> b_provider_id b \<longrightarrow> has_notification d' (b_provider_id b) (b_id b) BOOKING_CANCELLED)"

definition tell_cancelled :: "(nat \<Rightarrow> uuid) \<Rightarrow> timestamp \<Rightarrow> booking \<Rightarrow> user \<Rightarrow> database \<Rightarrow> database" where
  "tell_cancelled ids now b u d =
     (let tell = (\<lambda>i uid. post i now uid BOOKING_CANCELLED ''Booking Cancelled''
                    (''Booking for '' @ b_service_name b @ '' has been cancelled.'') (b_id b));
          d1 = (if u_id u \<noteq> b_customer_id b then tell (ids 0) (b_customer_id b) d else d);
          i = (if u_id u \<noteq> b_customer_id b then ids 1 else ids 0)
      in if u_id u \<noteq> b_provider_id b then tell i (b_provider_id b) d1 else d1)"

lemma tell_cancelled_told: "cancellation_told b u d (tell_cancelled ids now b u d)"
  by (simp add: cancellation_told_def tell_cancelled_def Let_def post_notifications cancellation_note_def)

lemma tell_cancelled_rows [simp]:
  "users (tell_cancelled ids now b u d) = users d"
  "bookings (tell_cancelled ids now b u d) = bookings d"
  "reviews (tell_cancelled ids now b u d) = reviews d"
  by (simp_all add: tell_cancelled_def Let_def)

lemma notify_cancellation_run:
  assumes ref: "has_user (txn s) (b_customer_id b)" "has_user (txn s) (b_provider_id b)"
      "has_booking (txn s) (b_id b)"
    and new: "rand s (drawn s) \<notin> n_id ` set (notifications (txn s))"
      "rand s (Suc (drawn s)) \<notin> n_id ` set (notifications (txn s))"
      "rand s (drawn s) \<noteq> rand s (Suc (drawn s))"
  shows "notify_cancellation b u s =
    (Inr (), s\<lparr>drawn := drawn s + (if u_id u \<noteq> b_customer_id b then 1 else 0)
         + (if u_id u \<noteq> b_provider_id b then 1 else 0),
       txn := tell_cancelled (\<lambda>i. rand s (drawn s + i)) (tx_now s) b u (txn s)\<rparr>)"
proof -
  define msg where "msg = ''Booking for '' @ b_service_name b @ '' has been cancelled.''"
  let ?tell = "\<lambda>p. thenE (create_notification p BOOKING_CANCELLED
      ''Booking Cancelled'' msg (Some (b_id b))) (returnE ())"
  let ?d = "post (rand s (drawn s)) (tx_now s) (b_customer_id b) BOOKING_CANCELLED
      ''Booking Cancelled'' msg (b_id b) (txn s)"
  let ?t = "s\<lparr>drawn := Suc (drawn s), txn := ?d\<rparr>"
  have def: "notify_cancellation b u = thenE
      (if u_id u \<noteq> b_customer_id b then ?tell (b_customer_id b) else returnE ())
      (if u_id u \<noteq> b_provider_id b then ?tell (b_provider_id b) else returnE ())"
    by (simp only: notify_cancellation_def Let_def msg_def)
  note tell = tell_cancelled_def [of _ _ b, folded msg_def]
  have first: "?tell (b_customer_id b) s = (Inr (), ?t)"
    using ref new by (simp add: told_run)
  have "rand s (Suc (drawn s)) \<notin> n_id ` set (notifications ?d)"
    using new by (auto simp: post_notifications)
  then have second: "?tell (b_provider_id b) ?t = (Inr (), ?t\<lparr>drawn := Suc (drawn ?t),
      txn := post (rand s (Suc (drawn s))) (tx_now s) (b_provider_id b) BOOKING_CANCELLED
        ''Booking Cancelled'' msg (b_id b) ?d\<rparr>)"
    using ref by (simp add: told_run)
  have only: "?tell (b_provider_id b) s = (Inr (), s\<lparr>drawn := Suc (drawn s),
      txn := post (rand s (drawn s)) (tx_now s) (b_provider_id b) BOOKING_CANCELLED
        ''Booking Cancelled'' msg (b_id b) (txn s)\<rparr>)"
    using ref new by (simp add: told_run)
  show ?thesis
  proof (cases "u_id u = b_customer_id b")
    case True
    then show ?thesis
      by (cases "u_id u = b_provider_id b")
        (simp_all add: def thenE_run only tell Let_def)
  next
    case False
    then show ?thesis
      by (cases "u_id u = b_provider_id b")
        (simp_all add: def thenE_run first second tell Let_def)
  qed
qed

lemma save_cancelled_run:
  assumes ok: "integrity db" and get: "get_booking db bid = Some b" and pend: "pending t = []"
    and rows: "bookings (txn t) = bookings db" "users (txn t) = users db"
    and live: "b_status b \<noteq> CANCELLED"
  shows "save_booking (b\<lparr>b_status := CANCELLED\<rparr>) t =
    (let b' = b\<lparr>b_status := CANCELLED, b_updated_at := tx_now t\<rparr>;
         d = (txn t)\<lparr>bookings := replace_by b_id b' (bookings db)\<rparr>
     in (Inr b', t\<lparr>txn := d, store := d, pending := []\<rparr>))"
proof -
  let ?b = "b\<lparr>b_status := CANCELLED\<rparr>"
  let ?b' = "b\<lparr>b_status := CANCELLED, b_updated_at := tx_now t\<rparr>"
  let ?d = "(txn t)\<lparr>bookings := replace_by b_id ?b' (bookings db)\<rparr>"
  from get_booking_id [OF get] have id: "b_id b = bid" .
  from get have "b \<in> set (bookings db)" by (auto simp: get_booking_def dest: lookup_by_Some)
  with ok have b: "booking_checks db b" "booking_sized b" by (auto simp: integrity_def bookings_ok_def)
  have "get_booking (txn t) (b_id ?b) = Some b" using get rows by (simp add: get_booking_def id)
  moreover have "?b \<noteq> b" using live by (metis booking.simps(7) booking.surjective booking.update_convs(7))
  moreover have "booking_checks (txn t) ?b" "booking_sized ?b"
    using b rows by (auto simp: booking_checks_def has_user_def booking_sized_def)
  ultimately have "update_booking_row (tx_now t) ?b (txn t) = Inr ?d"
    by (simp add: update_booking_row_def rows)
  moreover have "get_booking ?d (b_id ?b) = Some ?b'"
    using get by (simp add: get_booking_def lookup_by_replace id)
  ultimately show ?thesis using pend by (simp add: save_booking_run Let_def)
qed

text \<open>The committed state after a cancellation.\<close>

definition cancelled_db :: "environment \<Rightarrow> user \<Rightarrow> booking \<Rightarrow> database \<Rightarrow> database" where
  "cancelled_db env u b db =
     (let now = env_tx_now env; b' = b\<lparr>b_status := CANCELLED\<rparr>;
          d = tell_cancelled (env_rand env) now b' u db
      in d\<lparr>bookings := replace_by b_id (b'\<lparr>b_updated_at := now\<rparr>) (bookings db)\<rparr>)"

lemma notify_then_save_run:
  assumes ok: "integrity db" and fresh: "fresh_ids 2 env db" and get: "get_booking db bid = Some b"
    and live: "b_status b \<noteq> CANCELLED"
  shows "\<exists>t. thenE (notify_cancellation (b\<lparr>b_status := CANCELLED\<rparr>) u)
        (save_booking (b\<lparr>b_status := CANCELLED\<rparr>)) (open_session env db)
      = (Inr (b\<lparr>b_status := CANCELLED, b_updated_at := env_tx_now env\<rparr>), t)
      \<and> store t = cancelled_db env u b db"
proof -
  let ?s = "open_session env db" and ?b = "b\<lparr>b_status := CANCELLED\<rparr>"
  from get have "b \<in> set (bookings db)" by (auto simp: get_booking_def dest: lookup_by_Some)
  with ok have b: "booking_checks db b" by (auto simp: integrity_def bookings_ok_def)
  from get get_booking_id [OF get] have hb: "has_booking db (b_id b)" by (simp add: get_booking_has)
  have "\<exists>k. notify_cancellation ?b u ?s = (Inr (), ?s\<lparr>drawn := k,
      txn := tell_cancelled (env_rand env) (env_tx_now env) ?b u db\<rparr>)"
    using notify_cancellation_run [of ?s ?b u] b hb fresh_idsD [OF fresh, of 0] fresh_idsD [OF fresh, of 1]
      fresh_idsD(5) [OF fresh, of 0 1]
    by (auto simp: booking_checks_def)
  then obtain k where n: "notify_cancellation ?b u ?s = (Inr (), ?s\<lparr>drawn := k,
      txn := tell_cancelled (env_rand env) (env_tx_now env) ?b u db\<rparr>)" ..
  show ?thesis
    by (subst thenE_run, rule n, subst save_cancelled_run [OF ok get _ _ _ live]) (simp_all add: Let_def cancelled_db_def)
qed

text \<open>
  C6: cancelling a booking, branch by branch: 404 when it does not exist, 403 to everybody but
  the customer, the provider and administrators, 400 when it is already cancelled or completed,
  and otherwise the row is committed as CANCELLED together with the messages of
  \<open>tell_cancelled\<close>; a refusal changes nothing.
\<close>

theorem cancel_booking_outcome:
  assumes ok: "integrity db" and fresh: "fresh_ids 2 env db"
  shows "with_session env (cancel_booking bid u) db =
    (case get_booking db bid of
       None \<Rightarrow> (Inl (http 404 ''Booking not found''), db)
     | Some b \<Rightarrow>
         if \<not> may_modify u b then (Inl (http 403 ''Not authorized to access this booking''), db)
         else if b_status b = CANCELLED then (Inl (http 400 ''Booking is already cancelled''), db)
         else if b_status b = COMPLETED then
           (Inl (http 400 ''Cannot cancel an already completed booking''), db)
         else (Inr (b\<lparr>b_status := CANCELLED, b_updated_at := env_tx_now env\<rparr>), cancelled_db env u b db))"
proof (cases "get_booking db bid")
  case None
  then show ?thesis
    by (simp add: with_session_def cancel_booking_def get_booking_by_id_def db_get_booking_def
        session_run bindE_assoc bindE_def)
next
  case (Some b)
  let ?s = "open_session env db"
  show ?thesis
  proof (cases "may_modify u b \<and> \<not> terminal (b_status b)")
    case False
    with Some show ?thesis
      by (cases "u_role u"; cases "b_status b")
        (simp_all add: with_session_def cancel_booking_def get_booking_by_id_def db_get_booking_def
          bindE_def thenE_def may_modify_def checkE_def validate_status_transition_def)
  next
    case True
    have "get_booking_by_id bid u ?s = (Inr b, ?s)"
      using Some True by (cases "u_role u")
        (auto simp: get_booking_by_id_def db_get_booking_def bindE_readE may_modify_def)
    moreover have "validate_status_transition (b_status b) CANCELLED (u_role u) = Inr ()"
      using True by (cases "b_status b") (auto simp: validate_ok_iff)
    ultimately have "cancel_booking bid u ?s = thenE (notify_cancellation (b\<lparr>b_status := CANCELLED\<rparr>) u)
        (save_booking (b\<lparr>b_status := CANCELLED\<rparr>)) ?s"
      by (simp add: cancel_booking_def bindE_Inr Let_def thenE_run checkE_def)
    moreover have "b_status b \<noteq> CANCELLED" "b_status b \<noteq> COMPLETED" using True by auto
    ultimately show ?thesis
      using notify_then_save_run [OF ok fresh Some, of u] Some True
      by (auto simp: with_session_def)
  qed
qed

lemma cancel_booking_outcome_witness:
  "fst (with_session sample_env (cancel_booking (UUID 10) ada) (sample_db PENDING)) =
     Inr ((sample_booking PENDING)\<lparr>b_status := CANCELLED, b_updated_at := hour 1\<rparr>)
   \<and> with_session sample_env (cancel_booking (UUID 10) dan) (sample_db PENDING)
     = (Inl (http 403 ''Not authorized to access this booking''), sample_db PENDING)"
  using cancel_booking_outcome [of "sample_db PENDING" sample_env "UUID 10" ada]
    cancel_booking_outcome [of "sample_db PENDING" sample_env "UUID 10" dan]
  by (simp add: may_modify_def) (simp add: sample_defs)

text \<open>The same commit without reading the row back, as \<open>delete_booking\<close> does it.\<close>

lemma commit_like_save:
  "pending t = [] \<Longrightarrow> save_booking b t = (Inr r, t') \<Longrightarrow>
     thenE (add_pending (SaveBooking b)) (or_rollback commit) t = (Inr (), t')"
  by (auto simp: save_booking_run thenE_add_pending or_rollback_Inr commit_Inr split: sum.splits)

text \<open>
  C7: deleting a booking never removes a row. A PENDING booking of the caller (or any, for an
  administrator) is committed as CANCELLED with its messages; providers, strangers and every other
  state get the error the code names and change nothing.
\<close>

theorem delete_booking_outcome:
  assumes ok: "integrity db" and fresh: "fresh_ids 2 env db"
  shows "with_session env (delete_booking bid u) db =
    (case get_booking db bid of
       None \<Rightarrow> (Inl (http 404 ''Booking not found''), db)
     | Some b \<Rightarrow>
         if u_role u = PROVIDER then (Inl (http 403 ''Providers are not permitted to delete bookings''), db)
         else if u_role u = CUSTOMER \<and> b_customer_id b \<noteq> u_id u then
           (Inl (http 403 ''Not authorized to delete this booking''), db)
         else (case b_status b of
             COMPLETED \<Rightarrow> (Inl (http 400 (''Completed bookings are historical business records ''
               @ ''and cannot be deleted'')), db)
           | CONFIRMED \<Rightarrow> (Inl (http 400 (''Confirmed bookings cannot be deleted directly; ''
               @ ''please use the cancellation workflow'')), db)
           | CANCELLED \<Rightarrow> (Inl (http 400 ''Booking is already cancelled''), db)
           | PENDING \<Rightarrow> (Inr (), cancelled_db env u b db)))"
proof (cases "get_booking db bid")
  case None
  then show ?thesis
    by (simp add: with_session_def delete_booking_def db_get_booking_def session_run)
next
  case (Some b)
  let ?s = "open_session env db" and ?b = "b\<lparr>b_status := CANCELLED\<rparr>"
  show ?thesis
  proof (cases "u_role u \<noteq> PROVIDER \<and> (u_role u = CUSTOMER \<longrightarrow> b_customer_id b = u_id u) \<and> b_status b = PENDING")
    case False
    with Some show ?thesis
      by (cases "b_status b")
        (auto simp: with_session_def delete_booking_def db_get_booking_def session_run)
  next
    case True
    then have "delete_booking bid u ?s =
        thenE (notify_cancellation ?b u) (thenE (add_pending (SaveBooking ?b)) (or_rollback commit)) ?s"
      using Some by (auto simp: delete_booking_def db_get_booking_def session_run Let_def)
    moreover obtain t where t: "thenE (notify_cancellation ?b u) (save_booking ?b) ?s
        = (Inr (b\<lparr>b_status := CANCELLED, b_updated_at := env_tx_now env\<rparr>), t)"
        and db': "store t = cancelled_db env u b db"
      using notify_then_save_run [OF ok fresh Some, of u] True by auto
    from t obtain x t1 where n: "notify_cancellation ?b u ?s = (Inr x, t1)"
        and "save_booking ?b t1 = (Inr (b\<lparr>b_status := CANCELLED, b_updated_at := env_tx_now env\<rparr>), t)"
      by (rule thenE_InrE)
    moreover from notify_cancellation_Inr [OF n] have "pending t1 = []" by (simp add: notified_def)
    ultimately have "delete_booking bid u ?s = (Inr (), t)"
      using commit_like_save [of t1 ?b] by (simp add: thenE_run)
    with db' Some True show ?thesis by (simp add: with_session_def)
  qed
qed

lemma delete_booking_outcome_witness:
  "with_session sample_env (delete_booking (UUID 10) ada) (sample_db PENDING) =
     (Inr (), cancelled_db sample_env ada (sample_booking PENDING) (sample_db PENDING))
   \<and> snd (with_session sample_env (delete_booking (UUID 10) ada) (sample_db CONFIRMED))
     = sample_db CONFIRMED"
  using delete_booking_outcome [of "sample_db PENDING" sample_env "UUID 10" ada]
    delete_booking_outcome [of "sample_db CONFIRMED" sample_env "UUID 10" ada]
  by simp (simp add: sample_defs)

text \<open>
  Who hears of a cancellation: after it, each participant other than the actor has the
  BOOKING_CANCELLED message of this booking, every new message is such a message, and old ones stay.
\<close>

theorem cancellation_notifies:
  assumes "integrity db" and "fresh_ids 2 env db"
    and "with_session env (cancel_booking bid u) db = (Inr r, db')"
  shows "cancellation_told r u db db' \<and> b_id r = bid"
proof -
  from assms cancel_booking_outcome [OF assms(1,2), of bid u]
  obtain b where get: "get_booking db bid = Some b"
      and r: "r = b\<lparr>b_status := CANCELLED, b_updated_at := env_tx_now env\<rparr>"
      and db': "db' = cancelled_db env u b db"
    by (auto split: option.splits if_splits)
  have "cancellation_told (b\<lparr>b_status := CANCELLED\<rparr>) u db
      (tell_cancelled (env_rand env) (env_tx_now env) (b\<lparr>b_status := CANCELLED\<rparr>) u db)"
    by (rule tell_cancelled_told)
  with get_booking_id [OF get] show ?thesis
    by (auto simp: r db' cancelled_db_def Let_def cancellation_told_def cancellation_note_def
        has_notification_def)
qed

lemma cancellation_notifies_witness:
  "has_notification (snd (with_session sample_env (cancel_booking (UUID 10) ada) (sample_db PENDING)))
     (UUID 2) (UUID 10) BOOKING_CANCELLED"
proof -
  let ?run = "with_session sample_env (cancel_booking (UUID 10) ada) (sample_db PENDING)"
  let ?r = "(sample_booking PENDING)\<lparr>b_status := CANCELLED, b_updated_at := hour 1\<rparr>"
  have "fst ?run = Inr ?r" by code_simp
  then have run: "?run = (Inr ?r, snd ?run)" by (metis prod.collapse)
  have "b_provider_id ?r = UUID 2" "u_id ada = UUID 1" by (simp_all add: sample_defs)
  with cancellation_notifies [OF sample_db_integrity sample_fresh(2) run] show ?thesis
    by (auto simp: cancellation_told_def)
qed

end
