(* ===== verification/Reviews.thy ===== *)
theory Reviews
  imports Cancellation
begin

text \<open>
  \<open>app/services/review_service.py\<close> without its statistics (theory \<open>Ratings\<close>): creating,
  reading, listing, updating and deleting reviews.
\<close>

section \<open>Request bodies\<close>

record review_create =
  rc_booking_id :: uuid
  rc_rating :: int
  rc_comment :: "string option"

record review_update =
  ru_rating :: "int option"
  ru_comment :: "string option"

section \<open>Handlers\<close>

definition review_conflict :: exn where
  "review_conflict = http 409 ''A review already exists for this booking''"

text \<open>\<open>except IntegrityError\<close>: another exception passes through untouched.\<close>

definition or_conflict :: "'a service \<Rightarrow> 'a service" where
  "or_conflict m = catchE m (\<lambda>e. case e of
       DBError IntegrityError \<Rightarrow> thenE rollback (raiseE review_conflict)
     | _ \<Rightarrow> raiseE e)"

definition new_review :: "uuid \<Rightarrow> timestamp \<Rightarrow> user \<Rightarrow> booking \<Rightarrow> review_create \<Rightarrow> review" where
  "new_review i now u b rin =
     \<lparr>r_id = i, r_booking_id = b_id b, r_customer_id = u_id u, r_provider_id = b_provider_id b,
      r_rating = rc_rating rin, r_comment = rc_comment rin, r_created_at = now, r_updated_at = now\<rparr>"

definition persist_review :: "user \<Rightarrow> booking \<Rightarrow> review_create \<Rightarrow> review service" where
  "persist_review u b rin =
     bindE uuid4 (\<lambda>i. bindE (readE tx_now) (\<lambda>now.
       or_conflict
         (thenE (add_pending (AddReview (new_review i now u b rin)))
         (thenE commit (refreshed db_get_review i)))))"

definition create_review :: "user \<Rightarrow> review_create \<Rightarrow> review service" where
  "create_review u rin =
     thenE (raise_if (u_role u \<noteq> CUSTOMER)
              (http 403 ''Only customers are permitted to submit reviews''))
     (bindE (db_get_booking (rc_booking_id rin)) (\<lambda>x. case x of
        None \<Rightarrow> raiseE (http 404 ''Booking not found'')
      | Some b \<Rightarrow>
          thenE (raise_if (b_customer_id b \<noteq> u_id u)
                   (http 403 ''Not authorized to review this booking''))
          (thenE (raise_if (b_status b \<noteq> COMPLETED)
                   (http 400 (''Cannot review a booking with status '' @ [CHR 0x27]
                      @ status_value (b_status b) @ [CHR 0x27]
                      @ ''. Only completed bookings can be reviewed.'')))
          (bindE (readE (\<lambda>s. find (\<lambda>r. r_booking_id r = rc_booking_id rin) (reviews (txn s)))) (\<lambda>existing.
             thenE (raise_if (existing \<noteq> None) review_conflict)
             (persist_review u b rin))))))"

definition may_read_review :: "user \<Rightarrow> review \<Rightarrow> bool" where
  "may_read_review u r \<longleftrightarrow>
     u_role u = ADMIN
     \<or> (u_role u = CUSTOMER \<and> r_customer_id r = u_id u)
     \<or> (u_role u = PROVIDER \<and> r_provider_id r = u_id u)"

definition get_review_by_id :: "uuid \<Rightarrow> user \<Rightarrow> review service" where
  "get_review_by_id rid u =
     bindE (db_get_review rid) (\<lambda>x. case x of
       None \<Rightarrow> raiseE (http 404 ''Review not found'')
     | Some r \<Rightarrow>
         if u_role u = ADMIN then returnE r
         else if u_role u = CUSTOMER \<and> r_customer_id r = u_id u then returnE r
         else if u_role u = PROVIDER \<and> r_provider_id r = u_id u then returnE r
         else raiseE (http 403 ''Not authorized to access this review''))"

definition list_reviews ::
  "database \<Rightarrow> user \<Rightarrow> uuid option \<Rightarrow> int option \<Rightarrow> nat \<Rightarrow> nat \<Rightarrow> review list" where
  "list_reviews db u provider_id rating skip limit =
     (let rows = (case u_role u of
            CUSTOMER \<Rightarrow> filter (\<lambda>r. r_customer_id r = u_id u) (reviews db)
          | PROVIDER \<Rightarrow> filter (\<lambda>r. r_provider_id r = u_id u) (reviews db)
          | ADMIN \<Rightarrow> reviews db);
          rows = (case provider_id of None \<Rightarrow> rows | Some p \<Rightarrow> filter (\<lambda>r. r_provider_id r = p) rows);
          rows = (case rating of None \<Rightarrow> rows | Some k \<Rightarrow> filter (\<lambda>r. r_rating r = k) rows)
      in paginate skip limit (order_by_desc (\<lambda>r. (r_created_at r, r_id r)) rows))"

definition edit_review :: "review_update \<Rightarrow> review \<Rightarrow> review" where
  "edit_review upd r =
     (let r1 = (case ru_rating upd of None \<Rightarrow> r | Some k \<Rightarrow> r\<lparr>r_rating := k\<rparr>)
      in case ru_comment upd of None \<Rightarrow> r1 | Some c \<Rightarrow> r1\<lparr>r_comment := Some c\<rparr>)"

definition save_review :: "review \<Rightarrow> review service" where
  "save_review r =
     thenE (add_pending (SaveReview r))
     (or_rollback (thenE commit (refreshed db_get_review (r_id r))))"

definition update_review :: "uuid \<Rightarrow> review_update \<Rightarrow> user \<Rightarrow> review service" where
  "update_review rid upd u =
     bindE (db_get_review rid) (\<lambda>x. case x of
       None \<Rightarrow> raiseE (http 404 ''Review not found'')
     | Some r \<Rightarrow>
         thenE (raise_if (u_role u \<noteq> CUSTOMER \<or> r_customer_id r \<noteq> u_id u)
                  (http 403 ''Only the author customer may update this review''))
         (save_review (edit_review upd r)))"

definition delete_review :: "uuid \<Rightarrow> user \<Rightarrow> unit service" where
  "delete_review rid u =
     bindE (db_get_review rid) (\<lambda>x. case x of
       None \<Rightarrow> raiseE (http 404 ''Review not found'')
     | Some r \<Rightarrow>
         thenE (raise_if (\<not> (u_role u = CUSTOMER \<and> r_customer_id r = u_id u \<or> u_role u = ADMIN))
                  (http 403 ''Not authorized to delete this review''))
         (thenE (add_pending (DeleteReview rid)) (or_rollback commit)))"

section \<open>Atomicity and integrity\<close>

lemma or_conflict_run:
  "or_conflict m s = (case m s of
      (Inl e, u) \<Rightarrow> if e = DBError IntegrityError
         then (Inl review_conflict, u\<lparr>txn := store u, pending := []\<rparr>) else (Inl e, u)
    | (Inr x, u) \<Rightarrow> (Inr x, u))"
  by (auto simp: or_conflict_def catchE_def rollback_def thenE_modifyE
      split: prod.split sum.split exn.split db_error.split)

lemma keeps_or_conflict [keeps_intros]:
  assumes "keeps session_ok m"
  shows "keeps session_ok (or_conflict m)"
  unfolding or_conflict_def
  by (intro keeps_intros assms) (auto intro!: keeps_intros split: exn.split db_error.split)

lemma insert_review_get: "insert_review r db = Inr d \<Longrightarrow> get_review d (r_id r) = Some r"
  by (rule review_table.get_ins_same)

lemma persist_review_run:
  assumes "pending s = []"
  shows "persist_review u b rin s =
    (let r = new_review (rand s (drawn s)) (tx_now s) u b rin;
         t = s\<lparr>drawn := Suc (drawn s), pending := []\<rparr>
     in case insert_review r (txn s) of
          Inl e \<Rightarrow> (Inl (if e = IntegrityError then review_conflict else DBError e), t\<lparr>txn := store s\<rparr>)
        | Inr d \<Rightarrow> (Inr r, t\<lparr>txn := d, store := d\<rparr>))"
proof -
  let ?r = "new_review (rand s (drawn s)) (tx_now s) u b rin"
  have id: "r_id ?r = rand s (drawn s)" by (simp add: new_review_def)
  show ?thesis
  proof (cases "insert_review ?r (txn s)")
    case (Inl e)
    with assms show ?thesis
      by (simp add: persist_review_def session_run thenE_commit or_conflict_run Let_def)
  next
    case (Inr d)
    with insert_review_get [OF Inr] assms show ?thesis
      by (simp add: persist_review_def session_run thenE_commit or_conflict_run Let_def id
          refreshed_def db_get_review_def)
  qed
qed

lemma safe_persist_review [safe_intros]: "safe (persist_review u b rin)"
  by (rule safeI) (auto simp: persist_review_run Let_def split: sum.splits)

lemma safe_create_review [safe_intros]: "safe (create_review u rin)"
  unfolding create_review_def by (intro safe_intros quiet_intros)

lemma save_review_run:
  assumes "pending s = []"
  shows "save_review r s =
    (case update_review_row (tx_now s) r (txn s) of
       Inl e \<Rightarrow> (Inl (DBError e), s\<lparr>txn := store s, pending := []\<rparr>)
     | Inr d \<Rightarrow> (Inr (the (get_review d (r_id r))), s\<lparr>txn := d, store := d, pending := []\<rparr>))"
proof -
  let ?s = "s\<lparr>pending := [SaveReview r]\<rparr>"
  have "or_rollback (thenE commit (refreshed db_get_review (r_id r))) ?s =
     (case apply_writes (tx_now ?s) (pending ?s) (txn ?s) of
        Inl e \<Rightarrow> (Inl (DBError e), ?s\<lparr>txn := store ?s, pending := []\<rparr>)
      | Inr db \<Rightarrow> (Inr (the (get_review db (r_id r))), ?s\<lparr>txn := db, store := db, pending := []\<rparr>))"
    by (rule commit_refresh_run [where look = get_review])
      (auto simp: db_get_review_def split: sum.splits dest: review_table.get_upd_same)
  with assms show ?thesis
    by (simp add: save_review_def thenE_add_pending split: sum.split)
qed

lemma safe_save_review [safe_intros]: "safe (save_review r)"
  by (rule safeI) (auto simp: save_review_run split: sum.splits)

lemma safe_update_review [safe_intros]: "safe (update_review rid upd u)"
  unfolding update_review_def by (intro safe_intros quiet_intros)

lemma safe_delete_review [safe_intros]: "safe (delete_review rid u)"
  unfolding delete_review_def by (intro safe_intros quiet_intros)

lemma keeps_create_review [keeps_intros]: "keeps session_ok (create_review u rin)"
  unfolding create_review_def persist_review_def db_get_defs refreshed_def by (intro keeps_intros)

lemma keeps_update_review [keeps_intros]: "keeps session_ok (update_review rid upd u)"
  unfolding update_review_def save_review_def db_get_defs refreshed_def by (intro keeps_intros)

lemma keeps_delete_review [keeps_intros]: "keeps session_ok (delete_review rid u)"
  unfolding delete_review_def db_get_defs by (intro keeps_intros)

interpretation post_review: atomic_handler "create_review u rin" for u rin
  by unfold_locales (fact safe_create_review, fact keeps_create_review)

interpretation patch_review: atomic_handler "update_review rid upd u" for rid upd u
  by unfold_locales (fact safe_update_review, fact keeps_update_review)

interpretation drop_review: atomic_handler "delete_review rid u" for rid u
  by unfold_locales (fact safe_delete_review, fact keeps_delete_review)

section \<open>Outcomes\<close>

lemma new_review_simps [simp]:
  "r_id (new_review i now u b rin) = i" "r_booking_id (new_review i now u b rin) = b_id b"
  "r_customer_id (new_review i now u b rin) = u_id u"
  "r_provider_id (new_review i now u b rin) = b_provider_id b"
  "r_rating (new_review i now u b rin) = rc_rating rin" "r_comment (new_review i now u b rin) = rc_comment rin"
  by (simp_all add: new_review_def)

text \<open>
  C18: submitting a review, on every branch. Only the customer of a completed booking may review it, and
  once; the author and the provider of the new review are those of the booking, nothing else
  changes, and a refusal changes nothing. A comment with a NUL is refused by the database driver, which
  is no 422.
\<close>

theorem create_review_outcome:
  assumes ok: "integrity db" and fresh: "fresh_ids 1 env db"
    and range: "1 \<le> rc_rating rin" "rc_rating rin \<le> 5"
  shows "with_session env (create_review u rin) db =
    (if u_role u \<noteq> CUSTOMER then (Inl (http 403 ''Only customers are permitted to submit reviews''), db)
     else case get_booking db (rc_booking_id rin) of
       None \<Rightarrow> (Inl (http 404 ''Booking not found''), db)
     | Some b \<Rightarrow>
         if b_customer_id b \<noteq> u_id u then
           (Inl (http 403 ''Not authorized to review this booking''), db)
         else if b_status b \<noteq> COMPLETED then
           (Inl (http 400 (''Cannot review a booking with status '' @ [CHR 0x27]
              @ status_value (b_status b) @ [CHR 0x27]
              @ ''. Only completed bookings can be reviewed.'')), db)
         else if \<exists>r \<in> set (reviews db). r_booking_id r = rc_booking_id rin then
           (Inl (http 409 ''A review already exists for this booking''), db)
         else if \<not> comment_ok (rc_comment rin) then (Inl (DBError DataError), db)
         else
           (let r = new_review (env_rand env 0) (env_tx_now env) u b rin
            in (Inr r, db\<lparr>reviews := reviews db @ [r]\<rparr>)))"
proof (cases "get_booking db (rc_booking_id rin)")
  case None
  then show ?thesis
    by (simp add: with_session_def create_review_def db_get_booking_def session_run)
next
  case (Some b)
  let ?r = "new_review (env_rand env 0) (env_tx_now env) u b rin"
  from Some have b: "b \<in> set (bookings db)" and id: "b_id b = rc_booking_id rin"
    by (auto simp: get_booking_def dest: lookup_by_Some)
  have "insert_review ?r db = Inr (db\<lparr>reviews := reviews db @ [?r]\<rparr>)"
    if new: "\<not> (\<exists>r \<in> set (reviews db). r_booking_id r = rc_booking_id rin)"
      and own: "b_customer_id b = u_id u" and plain: "comment_ok (rc_comment rin)"
  proof -
    from ok b have "booking_checks db b" by (auto simp: integrity_def bookings_ok_def)
    with own new plain range id fresh_idsD [OF fresh, of 0] get_booking_has [OF Some]
    show ?thesis by (auto simp: insert_review_def review_checks_def booking_checks_def)
  qed
  then have persist: "persist_review u b rin (open_session env db) =
      (Inr ?r, (open_session env db)\<lparr>drawn := 1, pending := [], txn := db\<lparr>reviews := reviews db @ [?r]\<rparr>,
         store := db\<lparr>reviews := reviews db @ [?r]\<rparr>\<rparr>)"
    if "\<not> (\<exists>r \<in> set (reviews db). r_booking_id r = rc_booking_id rin)" "b_customer_id b = u_id u"
      "comment_ok (rc_comment rin)"
    using that by (simp add: persist_review_run Let_def)
  have refused: "persist_review u b rin (open_session env db) =
      (Inl (DBError DataError), (open_session env db)\<lparr>drawn := 1, pending := []\<rparr>)"
    if "\<not> comment_ok (rc_comment rin)"
    using that by (simp add: persist_review_run Let_def insert_review_def)
  show ?thesis
    using Some
    by (simp add: with_session_def create_review_def db_get_booking_def session_run review_conflict_def
        Let_def) (auto simp: persist refused find_Some_iff find_None_iff)
qed

definition sample_rating :: review_create where
  "sample_rating = \<lparr>rc_booking_id = UUID 10, rc_rating = 5, rc_comment = Some ''Great''\<rparr>"

lemma create_review_outcome_witness:
  "with_session sample_env (create_review ada sample_rating) (sample_db COMPLETED) =
     (let r = new_review (UUID 100) (hour 1) ada (sample_booking COMPLETED) sample_rating
      in (Inr r, (sample_db COMPLETED)\<lparr>reviews := [r]\<rparr>))"
proof -
  have "b_customer_id (sample_booking COMPLETED) = u_id ada" "u_role ada = CUSTOMER"
    by (simp_all add: sample_booking_def ada_def)
  then show ?thesis
    using create_review_outcome [of "sample_db COMPLETED" sample_env sample_rating ada]
    by (simp add: sample_rating_def sample_env_def Let_def sample_fresh [unfolded sample_env_def] comment_ok_def pg_defs)
qed

text \<open>Every review is by the customer of its booking, about its provider, after completion.\<close>

definition reviews_faithful :: "database \<Rightarrow> bool" where
  "reviews_faithful db \<longleftrightarrow>
     (\<forall>r \<in> set (reviews db). \<exists>b. get_booking db (r_booking_id r) = Some b \<and> b_status b = COMPLETED
        \<and> r_customer_id r = b_customer_id b \<and> r_provider_id r = b_provider_id b)"

end
