(* ===== verification/Security.thy ===== *)
theory Security
  imports Session Config
begin

text \<open>
  \<open>app/core/security.py\<close>: password hashes and access tokens. The libraries \<open>bcrypt\<close> and
  \<open>PyJWT\<close> are parameters; what the program relies on in them is stated by
  \<open>bcrypt_ok\<close> and \<open>jwt_ok\<close>. A token is opaque to the program.
\<close>

section \<open>UTF-8\<close>

text \<open>\<open>s.encode('utf-8')\<close>; a byte is a \<open>char\<close>.\<close>

definition utf8_char :: "char \<Rightarrow> string" where
  "utf8_char c = (let n = of_char c :: nat
     in if n < 128 then [c] else [char_of (192 + n div 64), char_of (128 + n mod 64)])"

definition utf8 :: "string \<Rightarrow> string" where
  "utf8 s = concat (map utf8_char s)"

text \<open>\<open>bs.decode('utf-8')\<close> on ASCII bytes, which is what bcrypt returns.\<close>

definition decode_ascii :: "string \<Rightarrow> string" where
  "decode_ascii bs = bs"

section \<open>Passwords\<close>

text \<open>The two calls of bcrypt; \<open>None\<close> stands for a \<open>ValueError\<close>.\<close>

record bcrypt =
  hashpw :: "string \<Rightarrow> string \<Rightarrow> string option"
  checkpw :: "string \<Rightarrow> string \<Rightarrow> bool option"

text \<open>Documented: a hash is ASCII, fits its column, and checks against its own password.\<close>

definition bcrypt_ok :: "bcrypt \<Rightarrow> bool" where
  "bcrypt_ok bc \<longleftrightarrow>
     (\<forall>pw salt h. hashpw bc pw salt = Some h \<longrightarrow>
        pg_string 255 h \<and> (\<forall>c \<in> set h. (of_char c :: nat) < 128) \<and> checkpw bc pw h = Some True)"

definition hash_password :: "bcrypt \<Rightarrow> string \<Rightarrow> string \<Rightarrow> exn + string" where
  "hash_password bc salt password =
     (case hashpw bc (utf8 password) salt of
        None \<Rightarrow> Inl (ValueError ''bcrypt'')
      | Some h \<Rightarrow> Inr (decode_ascii h))"

definition verify_password :: "bcrypt \<Rightarrow> string \<Rightarrow> string \<Rightarrow> bool" where
  "verify_password bc plain hashed =
     (case checkpw bc (utf8 plain) (utf8 hashed) of None \<Rightarrow> False | Some b \<Rightarrow> b)"

lemma utf8_ascii: "\<forall>c \<in> set s. (of_char c :: nat) < 128 \<Longrightarrow> utf8 s = s"
  by (induction s) (auto simp: utf8_def utf8_char_def Let_def)

lemma verify_hashed:
  assumes "bcrypt_ok bc" and "hash_password bc salt password = Inr h"
  shows "verify_password bc password h \<and> pg_string 255 h"
  using assms
  by (auto simp: bcrypt_ok_def hash_password_def decode_ascii_def verify_password_def utf8_ascii
      split: option.splits)

section \<open>Tokens\<close>

record claims =
  cl_sub :: "string option"
  cl_iat :: int
  cl_exp :: int

datatype jwt_error = ExpiredSignatureError | ImmatureSignatureError | InvalidTokenError

text \<open>\<open>jwt.encode\<close> and \<open>jwt.decode\<close>, the latter with the clock it reads.\<close>

record 'tok jwt =
  jwt_encode :: "claims \<Rightarrow> string \<Rightarrow> string \<Rightarrow> 'tok"
  jwt_decode :: "timestamp \<Rightarrow> 'tok \<Rightarrow> string \<Rightarrow> string list \<Rightarrow> jwt_error + claims"

text \<open>
  Documented: decoding with the signing key and algorithm gives the claims back inside their
  validity; before \<open>iat\<close> the token is immature, from \<open>exp\<close> on it is expired.
\<close>

definition jwt_ok :: "'tok jwt \<Rightarrow> bool" where
  "jwt_ok j \<longleftrightarrow>
     (\<forall>c key alg now. jwt_decode j now (jwt_encode j c key alg) key [alg] =
        (if now < cl_iat c * microseconds then Inl ImmatureSignatureError
         else if cl_exp c * microseconds \<le> now then Inl ExpiredSignatureError
         else Inr c))"

definition create_access_token ::
  "'tok jwt \<Rightarrow> settings \<Rightarrow> timestamp \<Rightarrow> string \<Rightarrow> timestamp option \<Rightarrow> 'tok" where
  "create_access_token j cfg now subject expires_delta =
     (let expire = (case expires_delta of
            Some d \<Rightarrow> if d \<noteq> 0 then now + d else now + minutes (ACCESS_TOKEN_EXPIRE_MINUTES cfg)
          | None \<Rightarrow> now + minutes (ACCESS_TOKEN_EXPIRE_MINUTES cfg))
      in jwt_encode j
           \<lparr>cl_sub = Some subject, cl_iat = now div microseconds, cl_exp = expire div microseconds\<rparr>
           (JWT_SECRET_KEY cfg) (JWT_ALGORITHM cfg))"

definition decode_access_token ::
  "'tok jwt \<Rightarrow> settings \<Rightarrow> timestamp \<Rightarrow> 'tok \<Rightarrow> jwt_error + claims" where
  "decode_access_token j cfg now token =
     jwt_decode j now token (JWT_SECRET_KEY cfg) [JWT_ALGORITHM cfg]"

text \<open>
  A token is accepted from the moment it is issued until its expiry, both cut to whole seconds.
\<close>

lemma decode_issued:
  assumes ok: "jwt_ok j"
    and time: "(issued div microseconds) * microseconds \<le> now"
      "now < ((issued + minutes (ACCESS_TOKEN_EXPIRE_MINUTES cfg)) div microseconds) * microseconds"
  shows "\<exists>c. decode_access_token j cfg now (create_access_token j cfg issued sub None) = Inr c
    \<and> cl_sub c = Some sub"
  using assms by (simp add: jwt_ok_def decode_access_token_def create_access_token_def Let_def)

lemma decode_expired:
  assumes ok: "jwt_ok j" and mins: "0 < ACCESS_TOKEN_EXPIRE_MINUTES cfg"
    and time: "((issued + minutes (ACCESS_TOKEN_EXPIRE_MINUTES cfg)) div microseconds) * microseconds \<le> now"
  shows "decode_access_token j cfg now (create_access_token j cfg issued sub None)
    = Inl ExpiredSignatureError"
proof -
  have "issued div microseconds \<le> (issued + minutes (ACCESS_TOKEN_EXPIRE_MINUTES cfg)) div microseconds"
    using mins by (intro zdiv_mono1) (auto simp: minutes_def microseconds_def)
  then have "(issued div microseconds) * microseconds \<le> now"
    using time by (simp add: microseconds_def)
  with assms show ?thesis
    by (simp add: jwt_ok_def decode_access_token_def create_access_token_def Let_def)
qed

text \<open>A library that meets the two contracts, for use on concrete inputs.\<close>

definition plain_bcrypt :: bcrypt where
  "plain_bcrypt = \<lparr>hashpw = (\<lambda>pw salt. if length pw \<le> 72 \<and> CHR 0x00 \<notin> set pw \<and> (\<forall>c \<in> set pw. (of_char c :: nat) < 128)
       then Some pw else None), checkpw = (\<lambda>pw h. Some (pw = h))\<rparr>"

definition plain_jwt :: "(claims \<times> string \<times> string) jwt" where
  "plain_jwt = \<lparr>jwt_encode = (\<lambda>c key alg. (c, key, alg)),
     jwt_decode = (\<lambda>now t key algs. case t of (c, k, a) \<Rightarrow>
       if k \<noteq> key \<or> a \<notin> set algs then Inl InvalidTokenError
       else if now < cl_iat c * microseconds then Inl ImmatureSignatureError
       else if cl_exp c * microseconds \<le> now then Inl ExpiredSignatureError
       else Inr c)\<rparr>"

lemma plain_bcrypt_ok [simp]: "bcrypt_ok plain_bcrypt"
  by (simp add: bcrypt_ok_def plain_bcrypt_def pg_defs)

lemma plain_jwt_ok [simp]: "jwt_ok plain_jwt"
  by (simp add: jwt_ok_def plain_jwt_def)

end
