(* ===== verification/Auth.thy ===== *)
theory Auth
  imports Security Schedule
begin

text \<open>
  Accounts and callers: \<open>app/services/auth_service.py\<close>, \<open>app/api/deps.py\<close> and the
  routes of \<open>app/api/v1/auth.py\<close>. PostgreSQL's \<open>lower\<close> agrees with Python's on the
  modelled characters.
\<close>

section \<open>Request bodies\<close>

record user_register =
  ur_name :: string
  ur_email :: string
  ur_password :: string

record user_login =
  ul_email :: string
  ul_password :: string

section \<open>Services\<close>

text \<open>\<open>scalar_one_or_none()\<close>\<close>

definition scalar_one_or_none :: "'a list \<Rightarrow> 'a option service" where
  "scalar_one_or_none rows = (case rows of
       [] \<Rightarrow> returnE None
     | [r] \<Rightarrow> returnE (Some r)
     | _ \<Rightarrow> raiseE (DBError MultipleResultsFound))"

definition get_user_by_email :: "string \<Rightarrow> user option service" where
  "get_user_by_email email =
     (let normalized_email = py_lower (py_strip email) in
      bindE (select_rows (pg_text normalized_email)
          (\<lambda>db. filter (\<lambda>u. py_lower (u_email u) = normalized_email) (users db)))
        scalar_one_or_none)"

definition email_taken :: exn where
  "email_taken = http 409 ''A user with this email address already exists''"

definition or_email_taken :: "'a service \<Rightarrow> 'a service" where
  "or_email_taken m = catchE m (\<lambda>e. case e of
       DBError IntegrityError \<Rightarrow> thenE rollback (raiseE email_taken)
     | _ \<Rightarrow> raiseE e)"

definition new_user :: "uuid \<Rightarrow> timestamp \<Rightarrow> user_register \<Rightarrow> string \<Rightarrow> user" where
  "new_user i now rin hashed =
     \<lparr>u_id = i, u_name = ur_name rin, u_email = ur_email rin, u_role = CUSTOMER,
      u_password_hash = hashed, u_created_at = now, u_updated_at = now\<rparr>"

definition register_user :: "bcrypt \<Rightarrow> string \<Rightarrow> user_register \<Rightarrow> user service" where
  "register_user bc salt rin =
     bindE (get_user_by_email (ur_email rin)) (\<lambda>existing.
     thenE (raise_if (existing \<noteq> None) email_taken)
     (bindE (checkE (hash_password bc salt (ur_password rin))) (\<lambda>hashed.
      bindE uuid4 (\<lambda>i. bindE (readE tx_now) (\<lambda>now.
        thenE (add_pending (AddUser (new_user i now rin hashed)))
        (or_email_taken (thenE commit (refreshed db_get_user i))))))))"

definition bearer :: "(string \<times> string) list" where
  "bearer = [(''WWW-Authenticate'', ''Bearer'')]"

definition unauthorized :: "string \<Rightarrow> exn" where
  "unauthorized msg = HTTPException 401 msg bearer"

definition authenticate_user :: "bcrypt \<Rightarrow> user_login \<Rightarrow> user service" where
  "authenticate_user bc cred =
     bindE (get_user_by_email (ul_email cred)) (\<lambda>x. case x of
       None \<Rightarrow> raiseE (unauthorized ''Invalid email or password'')
     | Some u \<Rightarrow>
         if \<not> verify_password bc (ul_password cred) (u_password_hash u)
         then raiseE (unauthorized ''Invalid email or password'')
         else returnE u)"

text \<open>The login route: the token it answers with.\<close>

definition login :: "bcrypt \<Rightarrow> 'tok jwt \<Rightarrow> settings \<Rightarrow> user_login \<Rightarrow> 'tok service" where
  "login bc j cfg cred =
     bindE (authenticate_user bc cred) (\<lambda>u.
     bindE (readE py_now) (\<lambda>now.
     returnE (create_access_token j cfg now (uuid_str (u_id u)) None)))"

section \<open>The caller of a request\<close>

text \<open>
  \<open>get_current_user\<close>; the credentials are \<open>None\<close> when the bearer header is missing. The
  HTTPException for a missing subject is raised inside the \<open>try\<close> and passes its
  \<open>except\<close> clause, which catches token errors and \<open>ValueError\<close> only.
\<close>

definition get_current_user :: "'tok jwt \<Rightarrow> settings \<Rightarrow> 'tok option \<Rightarrow> user service" where
  "get_current_user j cfg credentials = (case credentials of
       None \<Rightarrow> raiseE (unauthorized ''Authentication credentials were not provided'')
     | Some token \<Rightarrow>
         bindE (readE py_now) (\<lambda>now.
         case decode_access_token j cfg now token of
           Inl _ \<Rightarrow> raiseE (unauthorized ''Could not validate credentials: token is invalid or expired'')
         | Inr payload \<Rightarrow>
             (case cl_sub payload of
                None \<Rightarrow> raiseE (unauthorized ''Could not validate credentials: token subject missing'')
              | Some subject \<Rightarrow>
                  if subject = []
                  then raiseE (unauthorized ''Could not validate credentials: token subject missing'')
                  else case uuid_parse subject of
                    None \<Rightarrow> raiseE (unauthorized
                      ''Could not validate credentials: token is invalid or expired'')
                  | Some user_id \<Rightarrow>
                      bindE (db_get_user user_id) (\<lambda>x. case x of
                        None \<Rightarrow> raiseE (unauthorized ''User associated with token does not exist'')
                      | Some u \<Rightarrow> returnE u))))"

definition require_roles :: "user_role list \<Rightarrow> user \<Rightarrow> user service" where
  "require_roles allowed_roles current_user =
     thenE (raise_if (u_role current_user \<notin> set allowed_roles)
              (http 403 ''Insufficient permissions to access this resource''))
     (returnE current_user)"

section \<open>Normal emails\<close>

definition email_normal :: "string \<Rightarrow> bool" where
  "email_normal e \<longleftrightarrow> py_lower (py_strip e) = e"

definition emails_ok :: "database \<Rightarrow> bool" where
  "emails_ok db \<longleftrightarrow> (\<forall>u \<in> set (users db). email_normal (u_email u))"

lemma py_isspace_lower [simp]: "py_isspace (py_lower_char c) = py_isspace c"
proof -
  consider "65 \<le> (of_char c :: nat) \<and> (of_char c :: nat) \<le> 90"
    | "192 \<le> (of_char c :: nat) \<and> (of_char c :: nat) \<le> 222 \<and> (of_char c :: nat) \<noteq> 215"
    | "py_lower_char c = c"
    by atomize_elim (auto simp: py_lower_char_def Let_def)
  then show ?thesis
  proof cases
    case 1
    then have "(of_char (char_of ((of_char c :: nat) + 32) :: char) :: nat) = of_char c + 32"
      by (simp add: of_char_of)
    with 1 show ?thesis by (simp add: py_lower_char_def py_isspace_def Let_def)
  next
    case 2
    then have "(of_char (char_of ((of_char c :: nat) + 32) :: char) :: nat) = of_char c + 32"
      by (simp add: of_char_of)
    with 2 show ?thesis by (simp add: py_lower_char_def py_isspace_def Let_def)
  next
    case 3
    then show ?thesis by simp
  qed
qed

lemma py_lower_strip: "py_lower (py_strip s) = py_strip (py_lower s)"
proof -
  have l: "py_lstrip (map py_lower_char s) = map py_lower_char (py_lstrip s)" for s
    by (induction s) (auto simp: py_lstrip_def)
  show ?thesis
    by (simp add: py_lower_def py_strip_def l rev_map)
qed

lemma email_normal_lower: "email_normal e \<Longrightarrow> py_lower e = e"
  by (metis email_normal_def py_lower_idem)

lemma email_normal_norm: "email_normal (py_lower (py_strip e))"
proof -
  have "py_strip (py_strip (py_lower e)) = py_strip (py_lower e)" by (rule py_strip_idem)
  then show ?thesis by (simp add: email_normal_def py_lower_strip py_lower_idem)
qed

text \<open>With normal, unique emails the lookup finds the account or nothing, and never raises.\<close>

lemma email_rows:
  assumes ok: "emails_ok db" and int: "integrity db"
  shows "filter (\<lambda>u. py_lower (u_email u) = e) (users db) =
    (case find (\<lambda>u. u_email u = e) (users db) of None \<Rightarrow> [] | Some u \<Rightarrow> [u])"
proof -
  have same: "filter (\<lambda>u. py_lower (u_email u) = e) xs = filter (\<lambda>u. u_email u = e) xs"
    if "set xs \<subseteq> set (users db)" for xs
    using that ok by (intro filter_cong refl) (metis emails_ok_def email_normal_lower subsetD)
  have one: "filter (\<lambda>u. u_email u = e) xs = (case find (\<lambda>u. u_email u = e) xs of None \<Rightarrow> [] | Some u \<Rightarrow> [u])"
    if "distinct (map u_email xs)" for xs :: "user list"
    using that
  proof (induction xs)
    case (Cons x xs)
    show ?case
    proof (cases "u_email x = e")
      case True
      with Cons.prems have "e \<notin> u_email ` set xs" by auto
      then have "filter (\<lambda>u. u_email u = e) xs = []" by (induction xs) auto
      with True show ?thesis by simp
    next
      case False
      with Cons show ?thesis by simp
    qed
  qed simp
  from int have "distinct (map u_email (users db))" by (simp add: integrity_def users_ok_def)
  with same [OF order.refl] one show ?thesis by simp
qed

lemma get_user_by_email_run:
  assumes "emails_ok (txn s)" and "integrity (txn s)"
  shows "get_user_by_email email s =
    (if pg_text (py_lower (py_strip email))
     then Inr (find (\<lambda>u. u_email u = py_lower (py_strip email)) (users (txn s))) else Inl (DBError DataError), s)"
  by (simp add: get_user_by_email_def bindE_select email_rows [OF assms] scalar_one_or_none_def Let_def
      split: option.split)

section \<open>Atomicity and integrity\<close>

lemma quiet_get_user_by_email [quiet_intros]: "quiet (get_user_by_email e)"
  unfolding get_user_by_email_def Let_def scalar_one_or_none_def
  by (auto intro!: quiet_intros split: list.split)

lemma quiet_get_current_user [quiet_intros]: "quiet (get_current_user j cfg tok)"
  unfolding get_current_user_def
  by (auto intro!: quiet_intros split: sum.split option.split)

lemma quiet_authenticate_user [quiet_intros]: "quiet (authenticate_user bc cred)"
  unfolding authenticate_user_def by (intro quiet_intros)

lemma keeps_get_user_by_email [keeps_intros]: "keeps I (get_user_by_email e)"
  unfolding get_user_by_email_def Let_def scalar_one_or_none_def
  by (auto intro!: keeps_intros split: list.split)

lemma keeps_get_current_user [keeps_intros]: "keeps I (get_current_user j cfg tok)"
  unfolding get_current_user_def db_get_user_def
  by (auto intro!: keeps_intros split: sum.split option.split)

lemma keeps_register_user [keeps_intros]: "keeps session_ok (register_user bc salt rin)"
  unfolding register_user_def or_email_taken_def db_get_user_def refreshed_def
  by (intro keeps_intros) (auto intro!: keeps_intros split: exn.split db_error.split)

lemma or_email_taken_run:
  "or_email_taken m s = (case m s of
      (Inl e, u) \<Rightarrow> if e = DBError IntegrityError
         then (Inl email_taken, u\<lparr>txn := store u, pending := []\<rparr>) else (Inl e, u)
    | (Inr x, u) \<Rightarrow> (Inr x, u))"
  by (auto simp: or_email_taken_def catchE_def rollback_def thenE_modifyE
      split: prod.split sum.split exn.split db_error.split)

text \<open>The end of a registration.\<close>

lemma persist_user_run:
  assumes "pending s = []"
  shows "thenE (add_pending (AddUser u)) (or_email_taken (thenE commit (refreshed db_get_user (u_id u)))) s =
    (case insert_user u (txn s) of
       Inl e \<Rightarrow> (Inl (if e = IntegrityError then email_taken else DBError e),
                 s\<lparr>txn := store s, pending := []\<rparr>)
     | Inr d \<Rightarrow> (Inr u, s\<lparr>txn := d, store := d, pending := []\<rparr>))"
proof (cases "insert_user u (txn s)")
  case (Inl e)
  with assms show ?thesis by (simp add: thenE_add_pending thenE_commit or_email_taken_run)
next
  case (Inr d)
  from user_table.get_ins_same [OF Inr] have "get_user d (u_id u) = Some u" .
  with Inr assms show ?thesis
    by (simp add: thenE_add_pending thenE_commit or_email_taken_run refreshed_def db_get_user_def
        bindE_readE)
qed

lemma safe_register_user [safe_intros]: "safe (register_user bc salt rin)"
proof -
  have "safe (thenE (add_pending (AddUser (new_user i now rin h)))
      (or_email_taken (thenE commit (refreshed db_get_user i))))" for i now h
    using persist_user_run [of _ "new_user i now rin h"]
    by (intro safeI) (auto simp: new_user_def split: sum.splits)
  then show ?thesis
    unfolding register_user_def
    by (intro safe_bindE safe_thenE [OF quiet_basic(4)] quiet_intros)
qed

interpretation register: atomic_handler "register_user bc salt rin" for bc salt rin
  by unfold_locales (fact safe_register_user, fact keeps_register_user)

section \<open>Outcomes\<close>

lemma find_email:
  "find (\<lambda>u. u_email u = e) us = None \<longleftrightarrow> e \<notin> u_email ` set us"
  by (auto simp: find_None_iff)

text \<open>Registering, given a normalised email as the request schema produces it.\<close>

lemma register_user_run:
  assumes ok: "emails_ok db" "integrity db" and norm: "email_normal (ur_email rin)"
  shows "with_session env (register_user bc salt rin) db =
    (if \<not> pg_text (ur_email rin) then (Inl (DBError DataError), db)
     else if ur_email rin \<in> u_email ` set (users db) then (Inl email_taken, db)
     else case hash_password bc salt (ur_password rin) of
       Inl e \<Rightarrow> (Inl e, db)
     | Inr h \<Rightarrow>
         (let u = new_user (env_rand env 0) (env_tx_now env) rin h
          in case insert_user u db of
               Inl e \<Rightarrow> (Inl (if e = IntegrityError then email_taken else DBError e), db)
             | Inr d \<Rightarrow> (Inr u, d)))"
proof -
  have id: "u_id (new_user i now rin h) = i" for i now h by (simp add: new_user_def)
  have run: "thenE (add_pending (AddUser (new_user i now rin h)))
        (or_email_taken (thenE commit (refreshed db_get_user i))) s =
      (case insert_user (new_user i now rin h) (txn s) of
         Inl e \<Rightarrow> (Inl (if e = IntegrityError then email_taken else DBError e),
                   s\<lparr>txn := store s, pending := []\<rparr>)
       | Inr d \<Rightarrow> (Inr (new_user i now rin h), s\<lparr>txn := d, store := d, pending := []\<rparr>))"
    if "pending s = []" for s i now h
    using persist_user_run [OF that, of "new_user i now rin h"] by (simp add: id)
  have look: "get_user_by_email (ur_email rin) (open_session env db) =
      (if pg_text (ur_email rin) then Inr (find (\<lambda>u. u_email u = ur_email rin) (users db))
       else Inl (DBError DataError), open_session env db)"
    using get_user_by_email_run [of "open_session env db" "ur_email rin"] ok norm
    by (simp add: email_normal_def)
  show ?thesis
  proof (cases "find (\<lambda>u. u_email u = ur_email rin) (users db)")
    case (Some x)
    then have "ur_email rin \<in> u_email ` set (users db)" using find_email by (metis option.distinct(1))
    with Some show ?thesis
      by (simp add: with_session_def register_user_def bindE_def [of "get_user_by_email _"] look thenE_raise_if)
  next
    case None
    then have "ur_email rin \<notin> u_email ` set (users db)" by (simp add: find_email)
    with None show ?thesis
      by (cases "hash_password bc salt (ur_password rin)")
        (simp_all add: with_session_def register_user_def bindE_def [of "get_user_by_email _"] look thenE_raise_if
          bindE_def [of "checkE _"] checkE_apply bindE_uuid4 bindE_readE run Let_def split: sum.split)
  qed
qed

text \<open>
  C21: registering twice. A registration with a normalised email is refused with 409 exactly when
  the email is taken; otherwise, when the password can be hashed, exactly one account is added, with
  the customer role and a hash that verifies the password, and emails stay unique and normalised.
\<close>

theorem register_user_outcome:
  assumes ok: "emails_ok db" "integrity db" and norm: "email_normal (ur_email rin)"
    and sized: "pg_string 255 (ur_name rin)" "pg_string 255 (ur_email rin)"
    and lib: "bcrypt_ok bc" and hash: "hash_password bc salt (ur_password rin) = Inr h"
    and fresh: "fresh_ids 1 env db"
  shows "if ur_email rin \<in> u_email ` set (users db) then
       with_session env (register_user bc salt rin) db
         = (Inl (http 409 ''A user with this email address already exists''), db)
     else \<exists>u. with_session env (register_user bc salt rin) db = (Inr u, db\<lparr>users := users db @ [u]\<rparr>)
       \<and> u_role u = CUSTOMER \<and> u_email u = ur_email rin \<and> u_name u = ur_name rin
       \<and> verify_password bc (ur_password rin) (u_password_hash u)
       \<and> emails_ok (db\<lparr>users := users db @ [u]\<rparr>) \<and> integrity (db\<lparr>users := users db @ [u]\<rparr>)"
proof (cases "ur_email rin \<in> u_email ` set (users db)")
  case True
  then show ?thesis using sized by (simp add: register_user_run [OF ok norm] email_taken_def pg_string_def)
next
  case False
  let ?u = "new_user (env_rand env 0) (env_tx_now env) rin h"
  from verify_hashed [OF lib hash] sized False fresh_idsD [OF fresh, of 0]
  have ins: "insert_user ?u db = Inr (db\<lparr>users := users db @ [?u]\<rparr>)"
    by (simp add: insert_user_def user_sized_def new_user_def)
  then have "with_session env (register_user bc salt rin) db = (Inr ?u, db\<lparr>users := users db @ [?u]\<rparr>)"
    using False hash sized by (simp add: register_user_run [OF ok norm] Let_def pg_string_def)
  moreover have "integrity (db\<lparr>users := users db @ [?u]\<rparr>)"
    using insert_user_integrity [OF ins ok(2)] .
  moreover have "emails_ok (db\<lparr>users := users db @ [?u]\<rparr>)"
    using ok(1) norm by (auto simp: emails_ok_def new_user_def)
  ultimately show ?thesis
    using False verify_hashed [OF lib hash] by (auto simp: new_user_def)
qed

definition sample_register :: user_register where
  "sample_register = \<lparr>ur_name = ''Fay'', ur_email = ''fay@example.com'', ur_password = ''secret-1''\<rparr>"

lemma sample_emails [simp]: "emails_ok no_bookings"
proof -
  have "list_all (\<lambda>u. py_lower (py_strip (u_email u)) = u_email u) (users no_bookings)"
    by code_simp
  then show ?thesis by (simp add: emails_ok_def email_normal_def list_all_iff)
qed

lemma sample_register_ok:
  "email_normal (ur_email sample_register)" "ur_email sample_register \<notin> u_email ` set (users no_bookings)"
  "pg_string 255 (ur_name sample_register)" "pg_string 255 (ur_email sample_register)"
  "hash_password plain_bcrypt ''salt'' (ur_password sample_register) = Inr ''secret-1''"
  unfolding email_normal_def by code_simp+

lemma register_user_outcome_witness:
  "\<exists>u. fst (with_session sample_env (register_user plain_bcrypt ''salt'' sample_register) no_bookings) = Inr u
     \<and> u_role u = CUSTOMER"
  using register_user_outcome [OF sample_emails no_bookings_integrity sample_register_ok(1,3,4)
      plain_bcrypt_ok sample_register_ok(5) sample_fresh(1) [of 1]] sample_register_ok(2)
  by auto

text \<open>
  Logging in. With unique, normalised emails the answer to a login is decided by one account,
  found whatever the case and surrounding blanks of the typed email: the right password gives that
  account, and a wrong password and an unknown email are refused with the same 401. An email with a
  NUL cannot be looked up: the database driver refuses it, and nothing catches that.
\<close>

lemma authenticate_user_outcome:
  assumes "emails_ok db" and "integrity db"
  shows "with_session env (authenticate_user bc cred) db =
    (if \<not> pg_text (py_lower (py_strip (ul_email cred))) then Inl (DBError DataError)
     else (case find (\<lambda>u. u_email u = py_lower (py_strip (ul_email cred))) (users db) of
        None \<Rightarrow> Inl (HTTPException 401 ''Invalid email or password'' [(''WWW-Authenticate'', ''Bearer'')])
      | Some u \<Rightarrow>
          if verify_password bc (ul_password cred) (u_password_hash u) then Inr u
          else Inl (HTTPException 401 ''Invalid email or password'' [(''WWW-Authenticate'', ''Bearer'')])), db)"
  using assms get_user_by_email_run [of "open_session env db" "ul_email cred"]
  by (simp add: with_session_def authenticate_user_def bindE_def unauthorized_def bearer_def
      split: option.split)

text \<open>
  Who the caller is. Resolving the bearer token never touches the database and either gives a
  stored account or refuses with 401 and the \<open>WWW-Authenticate\<close> challenge; it gives the account
  exactly when the token decodes to a subject that spells the account's identifier.
\<close>

theorem get_current_user_sound:
  assumes "with_session env (get_current_user j cfg credentials) db = (r, db')"
  shows "db' = db \<and>
    (case r of
       Inr u \<Rightarrow> \<exists>token c subject. credentials = Some token
         \<and> decode_access_token j cfg (env_py_now env) token = Inr c \<and> cl_sub c = Some subject
         \<and> uuid_parse subject = Some (u_id u) \<and> get_user db (u_id u) = Some u
     | Inl e \<Rightarrow> status_code e = 401 \<and> headers e = [(''WWW-Authenticate'', ''Bearer'')])"
proof -
  have id: "get_user db i = Some u \<Longrightarrow> u_id u = i" for i u
    by (auto simp: get_user_def dest: lookup_by_Some)
  from assms show ?thesis
    by (auto simp: with_session_run get_current_user_def session_run unauthorized_def bearer_def
        db_get_user_def id split: option.splits sum.splits if_splits)
qed

text \<open>
  C20: a login identifies its account. The token issued at \<open>issued\<close> for the right password resolves
  to that account on every later request until the configured number of minutes has passed (whole
  seconds), as long as the account exists, and from then on it is refused with 401.
\<close>

theorem login_identifies:
  assumes ok: "emails_ok db" "integrity db" and lib: "jwt_ok j"
    and mins: "0 < ACCESS_TOKEN_EXPIRE_MINUTES cfg"
    and login: "with_session env (login bc j cfg cred) db = (Inr token, db1)"
    and later: "(env_py_now env div microseconds) * microseconds \<le> env_py_now env'"
  shows "\<exists>u \<in> set (users db). u_email u = py_lower (py_strip (ul_email cred))
    \<and> verify_password bc (ul_password cred) (u_password_hash u) \<and> db1 = db
    \<and> with_session env' (get_current_user j cfg (Some token)) db =
        (if env_py_now env' <
             ((env_py_now env + minutes (ACCESS_TOKEN_EXPIRE_MINUTES cfg)) div microseconds) * microseconds
         then Inr u
         else Inl (HTTPException 401 ''Could not validate credentials: token is invalid or expired''
           [(''WWW-Authenticate'', ''Bearer'')]), db)"
proof -
  let ?s = "open_session env db"
  have look: "get_user_by_email (ul_email cred) ?s =
      (if pg_text (py_lower (py_strip (ul_email cred)))
       then Inr (find (\<lambda>u. u_email u = py_lower (py_strip (ul_email cred))) (users db))
       else Inl (DBError DataError), ?s)"
    using get_user_by_email_run [of ?s "ul_email cred"] ok by simp
  from login obtain u where u: "find (\<lambda>u. u_email u = py_lower (py_strip (ul_email cred))) (users db) = Some u"
      and pw: "verify_password bc (ul_password cred) (u_password_hash u)" and "db1 = db"
      and token: "token = create_access_token j cfg (env_py_now env) (uuid_str (u_id u)) None"
    by (auto simp: with_session_def login_def authenticate_user_def bindE_def look
        split: option.splits if_splits)
  from u have mem: "u \<in> set (users db)" "u_email u = py_lower (py_strip (ul_email cred))"
    by (auto simp: find_Some_iff)
  with ok(2) have get: "get_user db (u_id u) = Some u"
    by (simp add: get_user_def integrity_def users_ok_def lookup_by_distinct)
  have ne: "uuid_str (u_id u) \<noteq> []" by (rule uuid_str_ne)
  have "with_session env' (get_current_user j cfg (Some token)) db =
      (if env_py_now env' <
             ((env_py_now env + minutes (ACCESS_TOKEN_EXPIRE_MINUTES cfg)) div microseconds) * microseconds
         then Inr u
         else Inl (HTTPException 401 ''Could not validate credentials: token is invalid or expired''
           [(''WWW-Authenticate'', ''Bearer'')]), db)"
  proof (cases "env_py_now env' <
             ((env_py_now env + minutes (ACCESS_TOKEN_EXPIRE_MINUTES cfg)) div microseconds) * microseconds")
    case True
    from decode_issued [OF lib later True, of "uuid_str (u_id u)"] obtain c where
      "decode_access_token j cfg (env_py_now env') token = Inr c" "cl_sub c = Some (uuid_str (u_id u))"
      by (auto simp: token)
    with True ne get show ?thesis
      by (simp add: with_session_def get_current_user_def session_run db_get_user_def uuid_parse_str)
  next
    case False
    then have "decode_access_token j cfg (env_py_now env') token = Inl ExpiredSignatureError"
      unfolding token by (intro decode_expired [OF lib mins]) simp
    with False show ?thesis
      by (simp add: with_session_def get_current_user_def session_run unauthorized_def bearer_def)
  qed
  with mem pw \<open>db1 = db\<close> show ?thesis by blast
qed

definition sample_login :: user_login where
  "sample_login = \<lparr>ul_email = '' ADA@Example.com '', ul_password = ''h1''\<rparr>"

lemma login_identifies_witness:
  "\<exists>token. with_session sample_env (get_current_user plain_jwt (default_settings ''k'') (Some token)) no_bookings
     = (Inr ada, no_bookings)"
proof -
  let ?run = "with_session sample_env (login plain_bcrypt plain_jwt (default_settings ''k'') sample_login) no_bookings"
  let ?tok = "create_access_token plain_jwt (default_settings ''k'') (hour 1) (uuid_str (UUID 1)) None"
  have "find (\<lambda>u. u_email u = py_lower (py_strip (ul_email sample_login))) (users no_bookings) = Some ada"
    and "verify_password plain_bcrypt (ul_password sample_login) (u_password_hash ada)"
    and "pg_text (py_lower (py_strip (ul_email sample_login)))" by code_simp+
  then have "?run = (Inr ?tok, no_bookings)"
    by (simp add: with_session_def login_def authenticate_user_def bindE_def get_user_by_email_run)
      (simp add: sample_defs)
  from login_identifies [OF sample_emails no_bookings_integrity plain_jwt_ok _ this, of sample_env]
  obtain u where u: "u \<in> set (users no_bookings)" "u_email u = py_lower (py_strip (ul_email sample_login))"
      and r: "with_session sample_env (get_current_user plain_jwt (default_settings ''k'') (Some ?tok)) no_bookings
        = (Inr u, no_bookings)"
    by (auto simp: default_settings_def sample_env_def hour_def microseconds_def minutes_def)
  have "py_lower (py_strip (ul_email sample_login)) = ''ada@example.com''" by code_simp
  with u have "u = ada" by (auto simp: sample_defs)
  with r show ?thesis by blast
qed

lemma get_current_user_sound_witness:
  "(case fst (with_session sample_env (get_current_user plain_jwt (default_settings ''k'') None) no_bookings) of
      Inl e \<Rightarrow> status_code e = 401 | Inr _ \<Rightarrow> False)"
proof -
  let ?run = "with_session sample_env (get_current_user plain_jwt (default_settings ''k'') None) no_bookings"
  let ?e = "unauthorized ''Authentication credentials were not provided''"
  have "?run = (Inl ?e, no_bookings)" by code_simp
  from this get_current_user_sound [OF this] show ?thesis by simp
qed

end
