(* ===== verification/Schemas.thy ===== *)
theory Schemas
  imports Reviews Auth
begin

text \<open>
  \<open>app/schemas\<close>: what a request body must satisfy before a handler sees it. A validator takes the
  body as parsed (strings, datetimes with or without an offset) and gives the list of its errors
  or the validated record the services work on. A length or range constraint is reported by its
  field; a \<open>ValueError\<close> raised by a validator of the program also carries its text. A model validator
  runs only when every field is valid.
\<close>

datatype field_error =
    Constraint string
  | FieldValueError string string
  | ModelValueError string

type_synonym 'a validated = "field_error list + 'a"

section \<open>Field rules\<close>

definition str_between :: "string \<Rightarrow> nat \<Rightarrow> nat \<Rightarrow> string \<Rightarrow> field_error list" where
  "str_between field lo hi s = (if lo \<le> length s \<and> length s \<le> hi then [] else [Constraint field])"

definition int_between :: "string \<Rightarrow> int \<Rightarrow> int \<Rightarrow> int \<Rightarrow> field_error list" where
  "int_between field lo hi k = (if lo \<le> k \<and> k \<le> hi then [] else [Constraint field])"

text \<open>A rule for a field that may be absent or null.\<close>

definition if_given :: "('a \<Rightarrow> field_error list) \<Rightarrow> 'a option \<Rightarrow> field_error list" where
  "if_given rule x = (case x of None \<Rightarrow> [] | Some v \<Rightarrow> rule v)"

definition validate_timezone_aware :: "string \<Rightarrow> py_datetime \<Rightarrow> field_error list" where
  "validate_timezone_aware field v =
     (if is_naive v then [FieldValueError field ''Datetime must be timezone-aware''] else [])"

text \<open>\<open>a <= b\<close> between two aware datetimes.\<close>

definition not_after :: "py_datetime \<Rightarrow> py_datetime \<Rightarrow> bool" where
  "not_after a b = (case dt_le a b of None \<Rightarrow> False | Some r \<Rightarrow> r)"

section \<open>Accounts\<close>

definition normalize_email :: "string \<Rightarrow> string + string" where
  "normalize_email v =
     (let normalized = py_lower (py_strip v) in
      if CHR ''@'' \<notin> set normalized \<or> CHR ''.'' \<notin> set (last (py_split CHR ''@'' normalized))
      then Inl ''Invalid email address format'' else Inr normalized)"

definition validate_user_register :: "user_register \<Rightarrow> user_register validated" where
  "validate_user_register raw =
     (let errs = str_between ''name'' 1 255 (ur_name raw)
            @ (if str_between ''email'' 3 255 (ur_email raw) \<noteq> [] then str_between ''email'' 3 255 (ur_email raw)
               else case normalize_email (ur_email raw) of
                 Inl msg \<Rightarrow> [FieldValueError ''email'' msg] | Inr e \<Rightarrow> [])
            @ str_between ''password'' 8 128 (ur_password raw)
      in if errs \<noteq> [] then Inl errs
         else Inr (raw\<lparr>ur_email := py_lower (py_strip (ur_email raw))\<rparr>))"

definition validate_user_login :: "user_login \<Rightarrow> user_login validated" where
  "validate_user_login raw =
     (let errs = str_between ''email'' 0 255 (ul_email raw) @ str_between ''password'' 0 128 (ul_password raw)
      in if errs \<noteq> [] then Inl errs else Inr (raw\<lparr>ul_email := py_lower (py_strip (ul_email raw))\<rparr>))"

section \<open>Bookings\<close>

record booking_create_body =
  bcb_provider_id :: uuid
  bcb_service_name :: string
  bcb_start_time :: py_datetime
  bcb_end_time :: py_datetime

definition validate_booking_create :: "booking_create_body \<Rightarrow> booking_create validated" where
  "validate_booking_create raw =
     (let errs = str_between ''service_name'' 1 255 (bcb_service_name raw)
            @ validate_timezone_aware ''start_time'' (bcb_start_time raw)
            @ validate_timezone_aware ''end_time'' (bcb_end_time raw)
      in if errs \<noteq> [] then Inl errs
         else if not_after (bcb_end_time raw) (bcb_start_time raw)
         then Inl [ModelValueError ''end_time must be after start_time'']
         else Inr \<lparr>bc_provider_id = bcb_provider_id raw, bc_service_name = bcb_service_name raw,
           bc_start_time = instant (bcb_start_time raw), bc_end_time = instant (bcb_end_time raw)\<rparr>)"

record booking_update_body =
  bub_service_name :: "string option"
  bub_start_time :: "py_datetime option"
  bub_end_time :: "py_datetime option"
  bub_status :: "booking_status option"

definition validate_booking_update :: "booking_update_body \<Rightarrow> booking_update validated" where
  "validate_booking_update raw =
     (let errs = if_given (str_between ''service_name'' 1 255) (bub_service_name raw)
            @ if_given (validate_timezone_aware ''start_time'') (bub_start_time raw)
            @ if_given (validate_timezone_aware ''end_time'') (bub_end_time raw)
      in if errs \<noteq> [] then Inl errs
         else if (case (bub_start_time raw, bub_end_time raw) of
                    (Some a, Some z) \<Rightarrow> not_after z a | _ \<Rightarrow> False)
         then Inl [ModelValueError ''end_time must be after start_time'']
         else Inr \<lparr>bu_service_name = bub_service_name raw, bu_start_time = map_option instant (bub_start_time raw),
           bu_end_time = map_option instant (bub_end_time raw), bu_status = bub_status raw\<rparr>)"

section \<open>Reviews\<close>

definition validate_review_create :: "review_create \<Rightarrow> review_create validated" where
  "validate_review_create raw =
     (let errs = int_between ''rating'' 1 5 (rc_rating raw) @ if_given (str_between ''comment'' 0 2000) (rc_comment raw)
      in if errs \<noteq> [] then Inl errs else Inr raw)"

definition validate_review_update :: "review_update \<Rightarrow> review_update validated" where
  "validate_review_update raw =
     (let errs = if_given (int_between ''rating'' 1 5) (ru_rating raw)
            @ if_given (str_between ''comment'' 0 2000) (ru_comment raw)
      in if errs \<noteq> [] then Inl errs else Inr raw)"

section \<open>What validation guarantees\<close>

lemma rules_nil [simp]:
  "str_between field lo hi s = [] \<longleftrightarrow> lo \<le> length s \<and> length s \<le> hi"
  "int_between field a z k = [] \<longleftrightarrow> a \<le> k \<and> k \<le> z"
  "validate_timezone_aware field v = [] \<longleftrightarrow> \<not> is_naive v"
  by (simp_all add: str_between_def int_between_def validate_timezone_aware_def)

lemma if_given_nil [simp]: "if_given rule x = [] \<longleftrightarrow> (\<forall>v. x = Some v \<longrightarrow> rule v = [])"
  by (simp add: if_given_def split: option.split)

lemma not_after_aware [simp]:
  "\<not> is_naive a \<Longrightarrow> \<not> is_naive b \<Longrightarrow> not_after a b \<longleftrightarrow> instant a \<le> instant b"
  by (simp add: not_after_def dt_le_aware)

lemma length_py_strip: "length (py_strip s) \<le> length s"
proof -
  have "length (py_lstrip s) \<le> length s" for s
    by (simp add: py_lstrip_def length_dropWhile_le)
  then show ?thesis by (metis length_rev order_trans py_strip_def)
qed

lemma validate_user_register_iff:
  "validate_user_register raw = Inr r \<longleftrightarrow>
     1 \<le> length (ur_name raw) \<and> length (ur_name raw) \<le> 255 \<and> 3 \<le> length (ur_email raw)
     \<and> length (ur_email raw) \<le> 255 \<and> 8 \<le> length (ur_password raw) \<and> length (ur_password raw) \<le> 128
     \<and> normalize_email (ur_email raw) = Inr (ur_email r)
     \<and> r = raw\<lparr>ur_email := py_lower (py_strip (ur_email raw))\<rparr>"
  by (auto simp: validate_user_register_def Let_def normalize_email_def split: if_splits)

lemma validate_booking_create_iff:
  "validate_booking_create raw = Inr b \<longleftrightarrow>
     1 \<le> length (bcb_service_name raw) \<and> length (bcb_service_name raw) \<le> 255
     \<and> \<not> is_naive (bcb_start_time raw) \<and> \<not> is_naive (bcb_end_time raw)
     \<and> instant (bcb_start_time raw) < instant (bcb_end_time raw)
     \<and> b = \<lparr>bc_provider_id = bcb_provider_id raw, bc_service_name = bcb_service_name raw,
           bc_start_time = instant (bcb_start_time raw), bc_end_time = instant (bcb_end_time raw)\<rparr>"
  by (auto simp: validate_booking_create_def Let_def)

lemma validate_review_create_iff:
  "validate_review_create raw = Inr r \<longleftrightarrow> 1 \<le> rc_rating raw \<and> rc_rating raw \<le> 5
     \<and> (\<forall>c. rc_comment raw = Some c \<longrightarrow> length c \<le> 2000) \<and> r = raw"
  by (auto simp: validate_review_create_def Let_def)

lemma validate_review_update_iff:
  "validate_review_update raw = Inr r \<longleftrightarrow> (\<forall>k. ru_rating raw = Some k \<longrightarrow> 1 \<le> k \<and> k \<le> 5)
     \<and> (\<forall>c. ru_comment raw = Some c \<longrightarrow> length c \<le> 2000) \<and> r = raw"
  by (auto simp: validate_review_update_def Let_def)


lemma py_split_last: "CHR ''.'' \<in> set (last (py_split sep s)) \<Longrightarrow> CHR ''.'' \<in> set s"
proof (induction s)
  case (Cons c cs)
  then show ?case
    by (cases "py_split sep cs") (auto split: if_splits list.splits)
qed simp

text \<open>
  Accepted booking requests. A body passes exactly when the service name has 1 to 255 characters,
  both times carry an offset and the start is an earlier instant than the end, whatever offsets they
  are written in; the service then gets those instants.
\<close>

theorem booking_body_accepted:
  "(\<exists>b. validate_booking_create raw = Inr b) \<longleftrightarrow>
     1 \<le> length (bcb_service_name raw) \<and> length (bcb_service_name raw) \<le> 255
     \<and> (\<exists>o1 o2. dt_offset (bcb_start_time raw) = Some o1 \<and> dt_offset (bcb_end_time raw) = Some o2
          \<and> dt_wall (bcb_start_time raw) - o1 * 1000000 < dt_wall (bcb_end_time raw) - o2 * 1000000)"
  unfolding validate_booking_create_iff
  by (auto simp: is_naive_def instant_def microseconds_def)

text \<open>
  C40: accepted registrations. The email handed to the service is the given one stripped and in lower
  case, has an at sign and a dot after the last at sign, and fits its column, as does the name; it is
  normal, so that two bodies whose emails differ only in case and surrounding space name the same
  account; the password is passed on as given.
\<close>

theorem registration_body_accepted:
  assumes "validate_user_register raw = Inr r"
  shows "ur_email r = py_lower (py_strip (ur_email raw)) \<and> email_normal (ur_email r)
    \<and> CHR ''@'' \<in> set (ur_email r) \<and> CHR ''.'' \<in> set (last (py_split CHR ''@'' (ur_email r)))
    \<and> length (ur_email r) \<le> 255 \<and> length (ur_name r) \<le> 255
    \<and> ur_name r = ur_name raw \<and> ur_password r = ur_password raw \<and> 8 \<le> length (ur_password r)
    \<and> (validate_user_register raw' = Inr r' \<and> py_lower (py_strip (ur_email raw')) = py_lower (py_strip (ur_email raw))
         \<longrightarrow> ur_email r' = ur_email r)"
proof -
  from assms have r: "r = raw\<lparr>ur_email := py_lower (py_strip (ur_email raw))\<rparr>"
    and norm: "normalize_email (ur_email raw) = Inr (ur_email r)"
    and sizes: "length (ur_name raw) \<le> 255" "length (ur_email raw) \<le> 255" "8 \<le> length (ur_password raw)"
    by (simp_all add: validate_user_register_iff)
  have e: "ur_email r = py_lower (py_strip (ur_email raw))" by (simp add: r)
  have len: "length (ur_email r) \<le> 255"
    using sizes(2) length_py_strip [of "ur_email raw"] by (simp add: e)
  have chars: "CHR ''@'' \<in> set (ur_email r)" "CHR ''.'' \<in> set (last (py_split CHR ''@'' (ur_email r)))"
    using norm unfolding normalize_email_def Let_def e [symmetric] by (metis Inl_Inr_False)+
  have normal: "email_normal (ur_email r)" unfolding e by (rule email_normal_norm)
  have other: "ur_email r' = py_lower (py_strip (ur_email raw'))" if "validate_user_register raw' = Inr r'"
    using that by (simp add: validate_user_register_iff)
  have copied: "ur_name r = ur_name raw" "ur_password r = ur_password raw" by (simp_all add: r)
  show ?thesis
    by (intro conjI impI; (rule e normal chars len copied)?)
      (use copied sizes in simp, use copied sizes in simp, metis e other)
qed

definition sample_registration :: user_register where
  "sample_registration = \<lparr>ur_name = ''Fay'', ur_email = '' fay@example.com '', ur_password = ''long enough''\<rparr>"

lemma registration_body_accepted_witness:
  "\<exists>r. validate_user_register sample_registration = Inr r \<and> ur_email r = ''fay@example.com'' \<and> email_normal (ur_email r)"
proof -
  have "normalize_email '' fay@example.com '' = Inr ''fay@example.com''"
    "py_lower (py_strip '' fay@example.com '') = ''fay@example.com''"
    by (simp_all add: normalize_email_def py_strip_def py_lstrip_def py_isspace_def py_lower_def py_lower_char_def Let_def)
  moreover have "ur_email sample_registration = '' fay@example.com ''" "length (ur_name sample_registration) = 3"
    "length (ur_email sample_registration) = 17" "length (ur_password sample_registration) = 11"
    by (simp_all add: sample_registration_def)
  ultimately have v: "validate_user_register sample_registration = Inr (sample_registration\<lparr>ur_email := ''fay@example.com''\<rparr>)"
    unfolding validate_user_register_iff by (simp only: user_register.simps) simp
  have "email_normal (ur_email (sample_registration\<lparr>ur_email := ''fay@example.com''\<rparr>))"
    by (rule registration_body_accepted [OF v, THEN conjunct2, THEN conjunct1])
  with v show ?thesis
    by (intro exI [of _ "sample_registration\<lparr>ur_email := ''fay@example.com''\<rparr>"]) simp
qed

end
