(* ===== verification/Json.thy ===== *)
theory Json
  imports Uuid
begin

text \<open>
  \<open>json.dumps\<close> and \<open>json.loads\<close> of the Python standard library, on the values the program
  stores in Redis and reads from settings: the text, character by character, and a parser that
  reads it back. The only floats are numbers of hundredths (the rounded average); other floats
  and code points above 255 are outside the model, and the parser answers \<open>None\<close> on them as on
  malformed text.
\<close>

section \<open>Numbers\<close>

fun str_nat :: "nat \<Rightarrow> string" where
  "str_nat n = (if n < 10 then [char_of (48 + n)] else str_nat (n div 10) @ [char_of (48 + n mod 10)])"

definition str_int :: "int \<Rightarrow> string" where
  "str_int i = (if i < 0 then CHR ''-'' # str_nat (nat (- i)) else str_nat (nat i))"

definition digit_val :: "char \<Rightarrow> nat option" where
  "digit_val c = (let n = of_char c :: nat in if 48 \<le> n \<and> n \<le> 57 then Some (n - 48) else None)"

definition is_digit :: "char \<Rightarrow> bool" where
  "is_digit c \<longleftrightarrow> digit_val c \<noteq> None"

definition val_nat :: "string \<Rightarrow> nat" where
  "val_nat s = foldl (\<lambda>n c. 10 * n + the (digit_val c)) 0 s"

declare str_nat.simps [simp del]

lemma digit_val_of [simp]: "d < 10 \<Longrightarrow> digit_val (char_of (48 + d)) = Some d"
  by (simp add: digit_val_def of_char_of)

lemma is_digit_of [simp]: "(d::nat) < 10 \<Longrightarrow> is_digit (char_of (48 + d))"
  by (simp add: is_digit_def)

lemma str_nat_digits: "c \<in> set (str_nat n) \<Longrightarrow> is_digit c"
  by (induction n rule: str_nat.induct) (subst (asm) str_nat.simps, auto split: if_splits)

lemma str_nat_ne [simp]: "str_nat n \<noteq> []"
  by (subst str_nat.simps) simp

lemma val_str_nat [simp]: "val_nat (str_nat n) = n"
  by (induction n rule: str_nat.induct) (subst str_nat.simps, auto simp: val_nat_def)

lemma str_nat_lead: "str_nat n = CHR ''0'' # cs \<Longrightarrow> cs = []"
proof (induction n arbitrary: cs rule: str_nat.induct)
  case (1 n)
  show ?case
  proof (cases "n < 10")
    case True
    with 1(2) show ?thesis by (subst (asm) str_nat.simps) simp
  next
    case False
    then have "str_nat (n div 10) @ [char_of (48 + n mod 10)] = CHR ''0'' # cs"
      using 1(2) by (subst (asm) str_nat.simps) simp
    then obtain ds where ds: "str_nat (n div 10) = CHR ''0'' # ds"
      by (cases "str_nat (n div 10)") auto
    with 1(1) False have "ds = []" by simp
    with ds have "val_nat (str_nat (n div 10)) = val_nat ''0''" by simp
    also have "val_nat ''0'' = 0" by code_simp
    finally have "n div 10 = 0" by simp
    with False show ?thesis by simp
  qed
qed

section \<open>Values\<close>

datatype json =
    JNull
  | JBool bool
  | JInt int
  | JHundredths nat
  | JStr string
  | JArr "json list"
  | JObj "(string \<times> json) list"

section \<open>json.dumps\<close>

definition hex4 :: "nat \<Rightarrow> string" where
  "hex4 n = [hex_digit (n div 4096 mod 16), hex_digit (n div 256 mod 16),
     hex_digit (n div 16 mod 16), hex_digit (n mod 16)]"

definition escape_char :: "char \<Rightarrow> string" where
  "escape_char c = (let n = of_char c :: nat
     in if c = CHR 0x22 then [CHR 0x5C, CHR 0x22]
        else if c = CHR 0x5C then [CHR 0x5C, CHR 0x5C]
        else if n = 10 then [CHR 0x5C, CHR ''n'']
        else if n = 13 then [CHR 0x5C, CHR ''r'']
        else if n = 9 then [CHR 0x5C, CHR ''t'']
        else if n = 12 then [CHR 0x5C, CHR ''f'']
        else if n = 8 then [CHR 0x5C, CHR ''b'']
        else if 32 \<le> n \<and> n \<le> 126 then [c]
        else [CHR 0x5C, CHR ''u''] @ hex4 n)"

definition escape :: "string \<Rightarrow> string" where
  "escape s = concat (map escape_char s)"

definition dumps_str :: "string \<Rightarrow> string" where
  "dumps_str s = CHR 0x22 # escape s @ [CHR 0x22]"

text \<open>\<open>repr\<close> of the double nearest to a number of hundredths.\<close>

definition repr_hundredths :: "nat \<Rightarrow> string" where
  "repr_hundredths h =
     str_nat (h div 100) @ CHR ''.'' #
       (if h mod 10 = 0 then [char_of (48 + h mod 100 div 10)]
        else [char_of (48 + h mod 100 div 10), char_of (48 + h mod 10)])"

fun dumps :: "json \<Rightarrow> string"
  and dumps_elems :: "json list \<Rightarrow> string"
  and dumps_members :: "(string \<times> json) list \<Rightarrow> string" where
  "dumps JNull = ''null''"
| "dumps (JBool b) = (if b then ''true'' else ''false'')"
| "dumps (JInt i) = str_int i"
| "dumps (JHundredths h) = repr_hundredths h"
| "dumps (JStr s) = dumps_str s"
| "dumps (JArr xs) = (case xs of [] \<Rightarrow> ''[]'' | x # ys \<Rightarrow> ''['' @ dumps x @ dumps_elems ys)"
| "dumps (JObj ps) = (case ps of [] \<Rightarrow> ''{}''
     | (k, v) # qs \<Rightarrow> ''{'' @ dumps_str k @ '': '' @ dumps v @ dumps_members qs)"
| "dumps_elems [] = '']''"
| "dumps_elems (x # xs) = '', '' @ dumps x @ dumps_elems xs"
| "dumps_members [] = ''}''"
| "dumps_members ((k, v) # ps) = '', '' @ dumps_str k @ '': '' @ dumps v @ dumps_members ps"

section \<open>json.loads\<close>

fun skip_ws :: "string \<Rightarrow> string" where
  "skip_ws [] = []"
| "skip_ws (c # cs) = (if c \<in> {CHR '' '', CHR 0x09, CHR 0x0A, CHR 0x0D} then skip_ws cs else c # cs)"

definition unescape :: "char \<Rightarrow> char option" where
  "unescape e =
     (if e = CHR 0x22 \<or> e = CHR 0x5C \<or> e = CHR ''/'' then Some e
      else if e = CHR ''n'' then Some (CHR 0x0A)
      else if e = CHR ''r'' then Some (CHR 0x0D)
      else if e = CHR ''t'' then Some (CHR 0x09)
      else if e = CHR ''f'' then Some (CHR 0x0C)
      else if e = CHR ''b'' then Some (CHR 0x08)
      else None)"

text \<open>Code points above 255 are outside the modelled strings.\<close>

definition hex_char :: "char \<Rightarrow> char \<Rightarrow> char \<Rightarrow> char \<Rightarrow> char option" where
  "hex_char a b c d = (case (hex_val a, hex_val b, hex_val c, hex_val d) of
       (Some p, Some q, Some r, Some s) \<Rightarrow>
         (let n = ((p * 16 + q) * 16 + r) * 16 + s in if n < 256 then Some (char_of n) else None)
     | _ \<Rightarrow> None)"

definition cons_fst :: "char \<Rightarrow> (string \<times> string) option \<Rightarrow> (string \<times> string) option" where
  "cons_fst c x = map_option (\<lambda>(t, r). (c # t, r)) x"

fun parse_str :: "string \<Rightarrow> (string \<times> string) option" where
  "parse_str [] = None"
| "parse_str (c # cs) =
     (if c = CHR 0x22 then Some ([], cs)
      else if c = CHR 0x5C then
        (case cs of
           [] \<Rightarrow> None
         | e # es \<Rightarrow>
             if e = CHR ''u'' then
               (case es of
                  p # q # r # s # rest \<Rightarrow>
                    (case hex_char p q r s of None \<Rightarrow> None | Some d \<Rightarrow> cons_fst d (parse_str rest))
                | _ \<Rightarrow> None)
             else (case unescape e of None \<Rightarrow> None | Some d \<Rightarrow> cons_fst d (parse_str es)))
      else if (of_char c :: nat) < 32 then None
      else cons_fst c (parse_str cs))"

fun span_digits :: "string \<Rightarrow> string \<times> string" where
  "span_digits [] = ([], [])"
| "span_digits (c # cs) =
     (if is_digit c then (case span_digits cs of (ds, r) \<Rightarrow> (c # ds, r)) else ([], c # cs))"

text \<open>An integer part without leading zeros, and at most two decimals.\<close>

definition nat_part :: "string \<Rightarrow> (nat \<times> string) option" where
  "nat_part s = (case span_digits s of (ds, r) \<Rightarrow>
     if ds = [] \<or> (hd ds = CHR ''0'' \<and> tl ds \<noteq> []) then None else Some (val_nat ds, r))"

definition parse_num :: "string \<Rightarrow> (json \<times> string) option" where
  "parse_num s =
     (let (neg, t) = (if s \<noteq> [] \<and> hd s = CHR ''-'' then (True, tl s) else (False, s))
      in case nat_part t of
           None \<Rightarrow> None
         | Some (n, r) \<Rightarrow>
             if r \<noteq> [] \<and> hd r \<in> {CHR ''e'', CHR ''E''} then None
             else if r \<noteq> [] \<and> hd r = CHR ''.'' then
               (case span_digits (tl r) of
                  ([a], r') \<Rightarrow> if neg then None else Some (JHundredths (n * 100 + val_nat [a] * 10), r')
                | ([a, b], r') \<Rightarrow> if neg then None else Some (JHundredths (n * 100 + val_nat [a, b]), r')
                | _ \<Rightarrow> None)
             else Some (JInt (if neg then - int n else int n), r))"

text \<open>A Python dict from its pairs: a repeated key keeps its place and takes the new value.\<close>

fun dict_set :: "string \<Rightarrow> json \<Rightarrow> (string \<times> json) list \<Rightarrow> (string \<times> json) list" where
  "dict_set k v [] = [(k, v)]"
| "dict_set k v ((k', v') # ps) = (if k' = k then (k, v) # ps else (k', v') # dict_set k v ps)"

definition dict_of :: "(string \<times> json) list \<Rightarrow> (string \<times> json) list" where
  "dict_of ps = foldl (\<lambda>d (k, v). dict_set k v d) [] ps"

text \<open>The fuel bounds the number of values read; the length of the text is always enough.\<close>

fun parse_value :: "nat \<Rightarrow> string \<Rightarrow> (json \<times> string) option"
  and parse_elems :: "nat \<Rightarrow> string \<Rightarrow> (json list \<times> string) option"
  and parse_members :: "nat \<Rightarrow> string \<Rightarrow> ((string \<times> json) list \<times> string) option" where
  "parse_value 0 s = None"
| "parse_value (Suc n) s = (case skip_ws s of
      [] \<Rightarrow> None
    | c # cs \<Rightarrow>
        if c = CHR 0x22 then map_option (\<lambda>(t, r). (JStr t, r)) (parse_str cs)
        else if c = CHR ''['' then
          (if skip_ws cs \<noteq> [] \<and> hd (skip_ws cs) = CHR '']'' then Some (JArr [], tl (skip_ws cs))
           else map_option (\<lambda>(xs, r). (JArr xs, r)) (parse_elems n cs))
        else if c = CHR ''{'' then
          (if skip_ws cs \<noteq> [] \<and> hd (skip_ws cs) = CHR ''}'' then Some (JObj [], tl (skip_ws cs))
           else map_option (\<lambda>(ps, r). (JObj (dict_of ps), r)) (parse_members n cs))
        else if prefix ''null'' (c # cs) then Some (JNull, drop 4 (c # cs))
        else if prefix ''true'' (c # cs) then Some (JBool True, drop 4 (c # cs))
        else if prefix ''false'' (c # cs) then Some (JBool False, drop 5 (c # cs))
        else parse_num (c # cs))"
| "parse_elems 0 s = None"
| "parse_elems (Suc n) s = (case parse_value n s of
      None \<Rightarrow> None
    | Some (v, r) \<Rightarrow>
        (case skip_ws r of
           [] \<Rightarrow> None
         | c # cs \<Rightarrow>
             if c = CHR '','' then map_option (\<lambda>(vs, r'). (v # vs, r')) (parse_elems n cs)
             else if c = CHR '']'' then Some ([v], cs) else None))"
| "parse_members 0 s = None"
| "parse_members (Suc n) s = (case skip_ws s of
      [] \<Rightarrow> None
    | q # qs \<Rightarrow>
        if q \<noteq> CHR 0x22 then None
        else case parse_str qs of
          None \<Rightarrow> None
        | Some (k, r) \<Rightarrow>
            if skip_ws r = [] \<or> hd (skip_ws r) \<noteq> CHR '':'' then None
            else case parse_value n (tl (skip_ws r)) of
              None \<Rightarrow> None
            | Some (v, r2) \<Rightarrow>
                (case skip_ws r2 of
                   [] \<Rightarrow> None
                 | c # cs \<Rightarrow>
                     if c = CHR '','' then map_option (\<lambda>(ps, r'). ((k, v) # ps, r')) (parse_members n cs)
                     else if c = CHR ''}'' then Some ([(k, v)], cs) else None))"

definition loads :: "string \<Rightarrow> json option" where
  "loads s = (case parse_value (Suc (length s)) s of
      Some (v, r) \<Rightarrow> if skip_ws r = [] then Some v else None
    | None \<Rightarrow> None)"

section \<open>Reading back what was written\<close>

lemma hex_char_hex4:
  assumes "n < 256"
  shows "hex_char (hex_digit (n div 4096 mod 16)) (hex_digit (n div 256 mod 16))
    (hex_digit (n div 16 mod 16)) (hex_digit (n mod 16)) = Some (char_of n)"
proof -
  have z: "n div 4096 = 0" "n div 256 = 0" and d: "n div 16 < 16" "n mod 16 < 16"
    using assms by auto
  have v: "n div 16 * 16 + n mod 16 = n" by (rule div_mult_mod_eq)
  have "hex_val (hex_digit 0) = Some 0" "hex_val (hex_digit (n mod 16)) = Some (n mod 16)"
    "hex_val (hex_digit (n div 16)) = Some (n div 16)"
    using d by (simp_all add: hex_val_hex_digit)
  with assms v show ?thesis
    unfolding hex_char_def z mod_less [OF d(1)] by (simp del: One_nat_def)
qed

lemma escape_special:
  "c \<in> {CHR 0x22, CHR 0x5C, CHR 0x0A, CHR 0x0D, CHR 0x09, CHR 0x0C, CHR 0x08} \<Longrightarrow>
     \<exists>e. escape_char c = [CHR 0x5C, e] \<and> e \<noteq> CHR ''u'' \<and> unescape e = Some c"
  by (elim insertE emptyE; hypsubst) (simp_all add: escape_char_def unescape_def)

lemma escape_plain:
  assumes "c \<notin> {CHR 0x22, CHR 0x5C, CHR 0x0A, CHR 0x0D, CHR 0x09, CHR 0x0C, CHR 0x08}"
  shows "escape_char c =
    (if 32 \<le> (of_char c :: nat) \<and> (of_char c :: nat) \<le> 126 then [c] else [CHR 0x5C, CHR ''u''] @ hex4 (of_char c))"
proof -
  have "(of_char c :: nat) = n \<Longrightarrow> c = char_of n" for n by auto
  from this [of 10] this [of 13] this [of 9] this [of 12] this [of 8] assms
  have "(of_char c :: nat) \<notin> {10, 13, 9, 12, 8}"
    by (auto simp: char_of_def)
  with assms show ?thesis by (simp add: escape_char_def Let_def)
qed

lemma escape_cases:
  obtains (plain) "escape_char c = [c]" "c \<noteq> CHR 0x22" "c \<noteq> CHR 0x5C" "\<not> (of_char c :: nat) < 32"
  | (short) e where "escape_char c = [CHR 0x5C, e]" "e \<noteq> CHR ''u''" "unescape e = Some c"
  | (long) h1 h2 h3 h4 where "escape_char c = [CHR 0x5C, CHR ''u'', h1, h2, h3, h4]"
      "hex_char h1 h2 h3 h4 = Some c"
proof (cases "c \<in> {CHR 0x22, CHR 0x5C, CHR 0x0A, CHR 0x0D, CHR 0x09, CHR 0x0C, CHR 0x08}")
  case True
  from escape_special [OF this] short show thesis by blast
next
  case False
  show thesis
  proof (cases "32 \<le> (of_char c :: nat) \<and> (of_char c :: nat) \<le> 126")
    case True
    with False show thesis by (intro plain) (simp_all add: escape_plain)
  next
    case long': False
    have "hex_char (hex_digit (of_char c div 4096 mod 16)) (hex_digit (of_char c div 256 mod 16))
      (hex_digit (of_char c div 16 mod 16)) (hex_digit (of_char c mod 16)) = Some c"
      using hex_char_hex4 [of "of_char c"] by simp
    moreover have "escape_char c = [CHR 0x5C, CHR ''u'', hex_digit (of_char c div 4096 mod 16),
        hex_digit (of_char c div 256 mod 16), hex_digit (of_char c div 16 mod 16), hex_digit (of_char c mod 16)]"
      unfolding escape_plain [OF False] if_not_P [OF long'] hex4_def by simp
    ultimately show thesis by (rule long [rotated])
  qed
qed

text \<open>The distinct keys of a dict, at every level.\<close>

fun json_ok :: "json \<Rightarrow> bool" and json_all_ok :: "json list \<Rightarrow> bool"
  and members_ok :: "(string \<times> json) list \<Rightarrow> bool" where
  "json_ok (JArr xs) = json_all_ok xs"
| "json_ok (JObj ps) = (distinct (map fst ps) \<and> members_ok ps)"
| "json_ok JNull = True" | "json_ok (JBool b) = True" | "json_ok (JInt i) = True"
| "json_ok (JHundredths h) = True" | "json_ok (JStr t) = True"
| "json_all_ok [] = True"
| "json_all_ok (x # xs) = (json_ok x \<and> json_all_ok xs)"
| "members_ok [] = True"
| "members_ok ((k, v) # ps) = (json_ok v \<and> members_ok ps)"

lemma dict_set_new: "k \<notin> fst ` set ps \<Longrightarrow> dict_set k v ps = ps @ [(k, v)]"
  by (induction k v ps rule: dict_set.induct) auto

lemma dict_of_distinct: "distinct (map fst ps) \<Longrightarrow> dict_of ps = ps"
  by (induction ps rule: rev_induct) (auto simp: dict_of_def dict_set_new)

lemma parse_str_escape_char:
  "parse_str (escape_char c @ r) = cons_fst c (parse_str r)"
  by (cases c rule: escape_cases) simp_all

lemma parse_str_escape: "parse_str (escape s @ CHR 0x22 # r) = Some (s, r)"
  by (induction s) (simp_all add: escape_def parse_str_escape_char cons_fst_def)

text \<open>What may follow a value inside the text.\<close>

definition follow :: "string \<Rightarrow> bool" where
  "follow r \<longleftrightarrow> r = [] \<or> hd r \<in> {CHR '','', CHR '']'', CHR ''}''}"

lemma follow_simps [simp]:
  "follow []" "follow (CHR '','' # r)" "follow (CHR '']'' # r)" "follow (CHR ''}'' # r)"
  by (simp_all add: follow_def)

lemma is_digit_distinct:
  "is_digit c \<Longrightarrow> c \<notin> {CHR 0x22, CHR ''['', CHR ''{'', CHR ''n'', CHR ''t'', CHR ''f'', CHR '' '',
     CHR 0x09, CHR 0x0A, CHR 0x0D, CHR '']'', CHR ''}'', CHR '','', CHR ''.'', CHR ''-'', CHR ''e'', CHR ''E''}"
  by (auto simp: is_digit_def digit_val_def Let_def)

lemma follow_head:
  assumes "follow r" and "r \<noteq> []"
  shows "\<not> is_digit (hd r)" "hd r \<notin> {CHR ''.'', CHR ''e'', CHR ''E''}"
  using assms by (auto simp: follow_def is_digit_def digit_val_def Let_def)

lemma span_digits_append:
  "\<forall>c \<in> set ds. is_digit c \<Longrightarrow> r = [] \<or> \<not> is_digit (hd r) \<Longrightarrow> span_digits (ds @ r) = (ds, r)"
proof (induction ds)
  case Nil
  then show ?case by (cases r) auto
qed auto

lemma nat_part_str_nat:
  assumes "r = [] \<or> \<not> is_digit (hd r)"
  shows "nat_part (str_nat n @ r) = Some (n, r)"
proof -
  have "span_digits (str_nat n @ r) = (str_nat n, r)"
    using assms str_nat_digits by (intro span_digits_append) auto
  moreover have "\<not> (hd (str_nat n) = CHR ''0'' \<and> tl (str_nat n) \<noteq> [])"
    using str_nat_lead [of n "tl (str_nat n)"] by (metis list.collapse str_nat_ne)
  ultimately show ?thesis by (simp add: nat_part_def)
qed

lemma str_nat_Cons: "\<exists>c cs. str_nat n = c # cs \<and> is_digit c"
  using str_nat_digits [of "hd (str_nat n)" n] by (cases "str_nat n") auto

text \<open>The number is complete: no fraction and no exponent follow.\<close>

lemma parse_num_whole:
  assumes part: "nat_part t = Some (n, r)" and r: "follow r"
  shows "parse_num (CHR ''-'' # t) = Some (JInt (- int n), r)"
    and "hd t \<noteq> CHR ''-'' \<Longrightarrow> parse_num t = Some (JInt (int n), r)"
proof -
  have stop: "(r \<noteq> [] \<and> hd r \<in> {CHR ''e'', CHR ''E''}) = False" "(r \<noteq> [] \<and> hd r = CHR ''.'') = False"
    using follow_head(2) [OF r] by blast+
  show "parse_num (CHR ''-'' # t) = Some (JInt (- int n), r)"
  proof -
    have "(CHR ''-'' # t \<noteq> [] \<and> hd (CHR ''-'' # t) = CHR ''-'') = True" by simp
    then show ?thesis
      unfolding parse_num_def Let_def
      by (simp only: list.sel(3) part option.case prod.case stop if_True if_False)
  qed
  assume "hd t \<noteq> CHR ''-''"
  then have "(t \<noteq> [] \<and> hd t = CHR ''-'') = False" by blast
  then show "parse_num t = Some (JInt (int n), r)"
    unfolding parse_num_def Let_def by (simp only: part option.case prod.case stop if_False)
qed

lemma str_nat_no_sign: "hd (str_nat n @ r) \<noteq> CHR ''-''"
proof -
  obtain c cs where "str_nat n = c # cs" "is_digit c" using str_nat_Cons by blast
  with is_digit_distinct show ?thesis by (metis append_Cons insertCI list.sel(1))
qed

lemma parse_num_int:
  assumes r: "follow r"
  shows "parse_num (str_int i @ r) = Some (JInt i, r)"
proof -
  from r have "r = [] \<or> \<not> is_digit (hd r)" using follow_head by blast
  note part = nat_part_str_nat [OF this]
  show ?thesis
  proof (cases "i < 0")
    case True
    with parse_num_whole(1) [OF part r, of "nat (- i)"] show ?thesis by (simp add: str_int_def)
  next
    case False
    with parse_num_whole(2) [OF part r str_nat_no_sign, of "nat i"] show ?thesis
      by (simp add: str_int_def)
  qed
qed

lemma parse_num_fraction:
  assumes part: "nat_part t = Some (n, CHR ''.'' # u)" and sign: "hd t \<noteq> CHR ''-''"
  shows "span_digits u = ([a], r) \<Longrightarrow> parse_num t = Some (JHundredths (n * 100 + val_nat [a] * 10), r)"
    and "span_digits u = ([a, b], r) \<Longrightarrow> parse_num t = Some (JHundredths (n * 100 + val_nat [a, b]), r)"
proof -
  have s: "(t \<noteq> [] \<and> hd t = CHR ''-'') = False" using sign by blast
  have e: "(CHR ''.'' # u \<noteq> [] \<and> hd (CHR ''.'' # u) \<in> {CHR ''e'', CHR ''E''}) = False"
    and d: "(CHR ''.'' # u \<noteq> [] \<and> hd (CHR ''.'' # u) = CHR ''.'') = True" by simp_all
  show "span_digits u = ([a], r) \<Longrightarrow> parse_num t = Some (JHundredths (n * 100 + val_nat [a] * 10), r)"
    "span_digits u = ([a, b], r) \<Longrightarrow> parse_num t = Some (JHundredths (n * 100 + val_nat [a, b]), r)"
    unfolding parse_num_def Let_def
    by (simp_all only: s e d part option.case prod.case list.case list.sel(3) if_True if_False)
qed

lemma hundredths_digits:
  "h mod 10 = 0 \<Longrightarrow> h div 100 * 100 + (h mod 100 div 10) * 10 = (h::nat)"
  "h div 100 * 100 + (10 * (h mod 100 div 10) + h mod 10) = (h::nat)"
proof -
  have "h mod (10 * 10) = 10 * (h div 10 mod 10) + h mod 10" by (rule mod_mult2_eq)
  then have m: "h mod 100 div 10 = h div 10 mod 10" by simp
  have "h div (10 * 10) = h div 10 div 10" by (rule div_mult2_eq)
  then have d: "h div 100 = h div 10 div 10" by simp
  have "h div 10 div 10 * 10 + h div 10 mod 10 = h div 10" "h div 10 * 10 + h mod 10 = h"
    by (rule div_mult_mod_eq)+
  then show *: "h div 100 * 100 + (10 * (h mod 100 div 10) + h mod 10) = h"
    unfolding m d by linarith
  assume "h mod 10 = 0"
  with * show "h div 100 * 100 + (h mod 100 div 10) * 10 = h" by simp
qed

lemma parse_num_hundredths:
  assumes r: "follow r"
  shows "parse_num (repr_hundredths h @ r) = Some (JHundredths h, r)"
proof -
  from r have r': "r = [] \<or> \<not> is_digit (hd r)" using follow_head by blast
  let ?a = "char_of (48 + h mod 100 div 10) :: char" and ?b = "char_of (48 + h mod 10) :: char"
  have a: "h mod 100 div 10 < 10" "h mod 10 < 10" by auto
  then have d: "is_digit ?a" "is_digit ?b" "digit_val ?a = Some (h mod 100 div 10)"
      "digit_val ?b = Some (h mod 10)"
    by (simp_all only: is_digit_of digit_val_of)
  have dot: "\<not> is_digit CHR ''.''" by code_simp
  have part: "nat_part (str_nat (h div 100) @ CHR ''.'' # u) = Some (h div 100, CHR ''.'' # u)" for u
    by (rule nat_part_str_nat) (simp add: dot)
  show ?thesis
  proof (cases "h mod 10 = 0")
    case True
    have "span_digits ([?a] @ r) = ([?a], r)" using r' d by (intro span_digits_append) auto
    from parse_num_fraction(1) [OF part str_nat_no_sign, of "[?a] @ r", OF this] True d hundredths_digits(1) [OF True]
    show ?thesis by (simp add: repr_hundredths_def val_nat_def)
  next
    case False
    have "span_digits ([?a, ?b] @ r) = ([?a, ?b], r)" using r' d by (intro span_digits_append) auto
    from parse_num_fraction(2) [OF part str_nat_no_sign, of "[?a, ?b] @ r", OF this] False d hundredths_digits(2) [of h]
    show ?thesis by (simp add: repr_hundredths_def val_nat_def)
  qed
qed

lemma dumps_start:
  "\<exists>c cs. dumps j = c # cs \<and> c \<notin> {CHR '' '', CHR 0x09, CHR 0x0A, CHR 0x0D, CHR '']'', CHR ''}'', CHR '',''}"
proof (cases j)
  case (JInt i)
  show ?thesis
  proof (cases "i < 0")
    case False
    with JInt str_nat_Cons [of "nat i"] show ?thesis
      using is_digit_distinct by (fastforce simp: str_int_def)
  qed (simp add: JInt str_int_def)
next
  case (JHundredths h)
  with str_nat_Cons [of "h div 100"] show ?thesis
    using is_digit_distinct by (fastforce simp: repr_hundredths_def)
qed (auto simp: dumps_str_def split: list.split)

lemma skip_ws_dumps [simp]: "skip_ws (dumps j @ r) = dumps j @ r"
  using dumps_start [of j] by auto

lemma skip_ws_follow [simp]: "follow r \<Longrightarrow> skip_ws r = r"
  by (cases r) (auto simp: follow_def)

lemma skip_ws_colon [simp]: "skip_ws ('': '' @ r) = '': '' @ r" "skip_ws ('', '' @ r) = '', '' @ r"
  by simp_all

lemma parse_value_num:
  assumes "is_digit c \<or> c = CHR ''-''"
  shows "parse_value (Suc n) (c # cs) = parse_num (c # cs)"
proof -
  have c: "c \<notin> {CHR 0x22, CHR ''['', CHR ''{'', CHR ''n'', CHR ''t'', CHR ''f'', CHR '' '',
      CHR 0x09, CHR 0x0A, CHR 0x0D}"
    using assms
  proof
    assume "is_digit c"
    from is_digit_distinct [OF this] show ?thesis
      unfolding insert_iff de_Morgan_disj empty_iff
      by (elim conjE) (intro conjI; assumption)
  next
    assume "c = CHR ''-''"
    then show ?thesis by (simp only:) code_simp
  qed
  then have ws: "skip_ws (c # cs) = c # cs"
    unfolding insert_iff de_Morgan_disj empty_iff by (simp only: skip_ws.simps insert_iff empty_iff) simp
  have n: "c \<noteq> CHR ''n'' \<and> c \<noteq> CHR ''t'' \<and> c \<noteq> CHR ''f'' \<and> c \<noteq> CHR 0x22 \<and> c \<noteq> CHR ''['' \<and> c \<noteq> CHR ''{''"
    using c unfolding insert_iff de_Morgan_disj empty_iff by (elim conjE) (intro conjI; assumption)
  have p: "\<not> prefix ''null'' (c # cs)" "\<not> prefix ''true'' (c # cs)" "\<not> prefix ''false'' (c # cs)"
    unfolding Cons_prefix_Cons using n by metis+
  show ?thesis by (simp only: parse_value.simps(2) ws list.case if_False n p)
qed

lemma str_int_Cons: "\<exists>c cs. str_int i = c # cs \<and> (is_digit c \<or> c = CHR ''-'')"
  using str_nat_Cons [of "nat i"] by (auto simp: str_int_def)

lemma repr_Cons: "\<exists>c cs. repr_hundredths h = c # cs \<and> is_digit c"
  using str_nat_Cons [of "h div 100"] by (auto simp: repr_hundredths_def)

text \<open>\<open>reads j\<close>: the parser reads \<open>j\<close> back wherever its text stands.\<close>

definition reads :: "json \<Rightarrow> bool" where
  "reads j \<longleftrightarrow> (\<forall>n r. follow r \<longrightarrow> length (dumps j) \<le> n \<longrightarrow> parse_value n (dumps j @ r) = Some (j, r))"

lemma readsD: "reads j \<Longrightarrow> follow r \<Longrightarrow> length (dumps j) \<le> n \<Longrightarrow> parse_value n (dumps j @ r) = Some (j, r)"
  by (simp add: reads_def)

lemma follow_elems [simp]: "follow (dumps_elems xs @ r)" "follow (dumps_members ps @ r)"
  by (cases xs, simp_all) (cases ps, auto)

lemma reads_elems:
  "\<forall>y \<in> set (x # xs). reads y \<Longrightarrow> length (dumps x @ dumps_elems xs) \<le> n \<Longrightarrow>
     parse_elems n (dumps x @ dumps_elems xs @ r) = Some (x # xs, r)"
proof (induction xs arbitrary: x n)
  case Nil
  then obtain m where n: "n = Suc m" by (cases n) auto
  with Nil have "parse_value m (dumps x @ '']'' @ r) = Some (x, '']'' @ r)"
    by (intro readsD) auto
  with n show ?case by simp
next
  case (Cons y ys)
  then obtain m where n: "n = Suc m" by (cases n) auto
  with Cons.prems have "parse_value m (dumps x @ dumps_elems (y # ys) @ r) = Some (x, dumps_elems (y # ys) @ r)"
    by (intro readsD) auto
  moreover have "parse_elems m ('' '' @ dumps y @ dumps_elems ys @ r) = parse_elems m (dumps y @ dumps_elems ys @ r)"
  proof -
    have "parse_value k (CHR '' '' # t) = parse_value k t" for k t by (cases k) simp_all
    then show ?thesis by (cases m) simp_all
  qed
  moreover have "parse_elems m (dumps y @ dumps_elems ys @ r) = Some (y # ys, r)"
    using Cons.prems n by (intro Cons.IH) auto
  ultimately show ?case using n by simp
qed

lemma parse_str_dumps: "dumps_str k @ r = CHR 0x22 # escape k @ CHR 0x22 # r"
  by (simp add: dumps_str_def)

lemma reads_members:
  "\<forall>p \<in> set ((k, v) # ps). reads (snd p) \<Longrightarrow> length (dumps_str k @ '': '' @ dumps v @ dumps_members ps) \<le> n \<Longrightarrow>
     parse_members n (dumps_str k @ '': '' @ dumps v @ dumps_members ps @ r) = Some ((k, v) # ps, r)"
proof (induction ps arbitrary: k v n)
  case Nil
  then obtain m where n: "n = Suc m" by (cases n) auto
  have sp: "parse_value i (CHR '' '' # t) = parse_value i t" for i t by (cases i) simp_all
  from Nil n have "parse_value m (dumps v @ ''}'' @ r) = Some (v, ''}'' @ r)"
    by (intro readsD) (auto simp: dumps_str_def)
  with n sp show ?case by (simp add: parse_str_dumps parse_str_escape)
next
  case (Cons q ps)
  obtain k' v' where q: "q = (k', v')" by (cases q)
  from Cons.prems obtain m where n: "n = Suc m" by (cases n) (auto simp: dumps_str_def)
  have sp: "parse_value i (CHR '' '' # t) = parse_value i t" for i t by (cases i) simp_all
  have spm: "parse_members i (CHR '' '' # t) = parse_members i t" for i t by (cases i) simp_all
  from Cons.prems n have v: "parse_value m (dumps v @ dumps_members (q # ps) @ r) = Some (v, dumps_members (q # ps) @ r)"
    by (intro readsD) (auto simp: dumps_str_def q)
  have "parse_members m (dumps_str k' @ '': '' @ dumps v' @ dumps_members ps @ r) = Some ((k', v') # ps, r)"
    using Cons.prems n by (intro Cons.IH) (auto simp: q dumps_str_def)
  with n sp spm v show ?case by (simp add: parse_str_dumps parse_str_escape q)
qed

lemma json_all_ok_iff: "json_all_ok xs \<longleftrightarrow> (\<forall>x \<in> set xs. json_ok x)"
  by (induction xs) auto

lemma members_ok_iff: "members_ok ps \<longleftrightarrow> (\<forall>p \<in> set ps. json_ok (snd p))"
  by (induction ps) auto

lemma not_closing: "hd (dumps j @ r) \<noteq> CHR '']''"
  using dumps_start [of j] by auto

lemma reads_array:
  assumes "\<forall>y \<in> set xs. reads y"
  shows "reads (JArr xs)"
  unfolding reads_def
proof (intro allI impI)
  fix n r
  assume r: "follow r" and n: "length (dumps (JArr xs)) \<le> n"
  then obtain m where m: "n = Suc m" by (cases n) (auto split: list.splits)
  show "parse_value n (dumps (JArr xs) @ r) = Some (JArr xs, r)"
  proof (cases xs)
    case Nil
    then show ?thesis by (simp add: m)
  next
    case (Cons x ys)
    have "parse_elems m (dumps x @ dumps_elems ys @ r) = Some (x # ys, r)"
      using assms n by (intro reads_elems) (auto simp: m Cons)
    with not_closing [of x "dumps_elems ys @ r"] show ?thesis by (simp add: m Cons)
  qed
qed

lemma reads_object:
  assumes "\<forall>p \<in> set ps. reads (snd p)" and "distinct (map fst ps)"
  shows "reads (JObj ps)"
  unfolding reads_def
proof (intro allI impI)
  fix n r
  assume r: "follow r" and n: "length (dumps (JObj ps)) \<le> n"
  then obtain m where m: "n = Suc m" by (cases n) (auto split: list.splits)
  show "parse_value n (dumps (JObj ps) @ r) = Some (JObj ps, r)"
  proof (cases ps)
    case Nil
    then show ?thesis by (simp add: m)
  next
    case (Cons p qs)
    obtain k v where p: "p = (k, v)" by (cases p)
    have "parse_members m (dumps_str k @ '': '' @ dumps v @ dumps_members qs @ r) = Some ((k, v) # qs, r)"
      using assms n by (intro reads_members) (auto simp: m Cons p)
    moreover have "dumps_str k @ u = CHR 0x22 # escape k @ CHR 0x22 # u" for u
      by (simp add: dumps_str_def)
    moreover have "dict_of ((k, v) # qs) = (k, v) # qs"
      using assms(2) by (intro dict_of_distinct) (simp add: Cons p)
    ultimately show ?thesis by (simp add: m Cons p)
  qed
qed

lemma json_reads: "json_ok j \<Longrightarrow> reads j"
proof (induction j)
  case (JInt i)
  obtain c cs where c: "str_int i = c # cs" "is_digit c \<or> c = CHR ''-''" using str_int_Cons by blast
  show ?case unfolding reads_def
  proof (intro allI impI)
    fix n r assume r: "follow r" and n: "length (dumps (JInt i)) \<le> n"
    then obtain m where "n = Suc m" by (cases n) (auto simp: c)
    with parse_value_num [OF c(2), of m "cs @ r"] parse_num_int [OF r, of i]
    show "parse_value n (dumps (JInt i) @ r) = Some (JInt i, r)" by (simp add: c del: parse_value.simps)
  qed
next
  case (JHundredths h)
  obtain c cs where c: "repr_hundredths h = c # cs" "is_digit c" using repr_Cons by blast
  show ?case unfolding reads_def
  proof (intro allI impI)
    fix n r assume r: "follow r" and n: "length (dumps (JHundredths h)) \<le> n"
    then obtain m where "n = Suc m" by (cases n) (auto simp: c)
    with parse_value_num [of c m "cs @ r"] c parse_num_hundredths [OF r, of h]
    show "parse_value n (dumps (JHundredths h) @ r) = Some (JHundredths h, r)"
      by (simp add: c del: parse_value.simps)
  qed
next
  case (JArr xs)
  then show ?case by (intro reads_array) (auto simp: json_all_ok_iff)
next
  case (JObj ps)
  then show ?case by (intro reads_object) (fastforce simp: members_ok_iff snds.simps)+
next
  case (JStr t)
  show ?case unfolding reads_def
  proof (intro allI impI)
    fix n r assume "length (dumps (JStr t)) \<le> n"
    then obtain m where "n = Suc m" by (cases n) (auto simp: dumps_str_def)
    then show "parse_value n (dumps (JStr t) @ r) = Some (JStr t, r)"
      by (simp add: dumps_str_def parse_str_escape)
  qed
next
  case (JBool b)
  show ?case unfolding reads_def
  proof (intro allI impI)
    fix n r assume "length (dumps (JBool b)) \<le> n"
    then obtain m where "n = Suc m" by (cases n) (auto split: if_splits)
    then show "parse_value n (dumps (JBool b) @ r) = Some (JBool b, r)" by (cases b) simp_all
  qed
next
  case JNull
  show ?case unfolding reads_def
  proof (intro allI impI)
    fix n r assume "length (dumps JNull) \<le> n"
    then obtain m where "n = Suc m" by (cases n) auto
    then show "parse_value n (dumps JNull @ r) = Some (JNull, r)" by simp
  qed
qed

lemma loads_dumps: "json_ok j \<Longrightarrow> loads (dumps j) = Some j"
  using readsD [OF json_reads, of j "[]" "Suc (length (dumps j))"]
  by (simp add: loads_def del: parse_value.simps)

section \<open>Round trip\<close>

text \<open>
  What \<open>json.dumps\<close> writes, \<open>json.loads\<close> reads back: any value whose objects have distinct
  keys, whatever quotes, control or non-ASCII characters its strings contain; so two different
  values never have the same text.
\<close>

lemma json_roundtrip:
  assumes "json_ok j" and "json_ok k"
  shows "loads (dumps j) = Some j \<and> (dumps j = dumps k \<longleftrightarrow> j = k)"
  using loads_dumps [OF assms(1)] loads_dumps [OF assms(2)] by (metis option.inject)

text \<open>Texts are handled through these facts, not by running the reader and the writer.\<close>

declare parse_value.simps [simp del] parse_elems.simps [simp del] parse_members.simps [simp del]
  parse_str.simps [simp del] dumps.simps [simp del]

end
