(* ===== verification/Errors.thy ===== *)
theory Errors
  imports Session Json
begin

text \<open>
  Errors on the way out: the exception classes of \<open>app/core/exceptions.py\<close>, and of
  \<open>app/main.py\<close> the four exception handlers with their common body
  \<open>{code, message, detail}\<close> and the middleware that adds the security headers.
\<close>

section \<open>Application exceptions\<close>

datatype app_class =
    AppException | NotFoundError | ForbiddenError | ConflictError | BadRequestError
  | UnauthorizedError | BookingConflictError

fun class_status :: "app_class \<Rightarrow> int" where
  "class_status AppException = 500"
| "class_status NotFoundError = 404"
| "class_status ForbiddenError = 403"
| "class_status ConflictError = 409"
| "class_status BadRequestError = 400"
| "class_status UnauthorizedError = 401"
| "class_status BookingConflictError = 409"

fun class_code :: "app_class \<Rightarrow> string" where
  "class_code AppException = ''INTERNAL_ERROR''"
| "class_code NotFoundError = ''NOT_FOUND''"
| "class_code ForbiddenError = ''FORBIDDEN''"
| "class_code ConflictError = ''CONFLICT''"
| "class_code BadRequestError = ''BAD_REQUEST''"
| "class_code UnauthorizedError = ''UNAUTHORIZED''"
| "class_code BookingConflictError = ''BOOKING_CONFLICT''"

fun class_message :: "app_class \<Rightarrow> string" where
  "class_message AppException = ''An unexpected error occurred.''"
| "class_message NotFoundError = ''Resource not found.''"
| "class_message ForbiddenError = ''Forbidden.''"
| "class_message ConflictError = ''Conflict.''"
| "class_message BadRequestError = ''Bad request.''"
| "class_message UnauthorizedError = ''Unauthorized.''"
| "class_message BookingConflictError = ''Provider is not available during the requested time.''"

record app_exception =
  ae_status_code :: int
  ae_code :: string
  ae_message :: string
  ae_detail :: json

text \<open>\<open>__init__\<close>: an argument that is given hides the attribute of the class.\<close>

definition new_app_exception ::
  "app_class \<Rightarrow> string option \<Rightarrow> string option \<Rightarrow> int option \<Rightarrow> json option \<Rightarrow> app_exception" where
  "new_app_exception c message code status dtl =
     \<lparr>ae_status_code = (case status of None \<Rightarrow> class_status c | Some n \<Rightarrow> n),
      ae_code = (case code of None \<Rightarrow> class_code c | Some s \<Rightarrow> s),
      ae_message = (case message of None \<Rightarrow> class_message c | Some s \<Rightarrow> s),
      ae_detail = (case dtl of None \<Rightarrow> JNull | Some d \<Rightarrow> d)\<rparr>"

section \<open>Responses\<close>

record response =
  rsp_status :: int
  rsp_content :: json
  rsp_headers :: "(string \<times> string) list"

definition error_content :: "string \<Rightarrow> string \<Rightarrow> json \<Rightarrow> json" where
  "error_content code message dtl =
     JObj [(''code'', JStr code), (''message'', JStr message), (''detail'', dtl)]"

definition status_to_code :: "int \<Rightarrow> string" where
  "status_to_code n =
     (case map_of [(400, ''BAD_REQUEST''), (401, ''UNAUTHORIZED''), (403, ''FORBIDDEN''), (404, ''NOT_FOUND''),
        (409, ''CONFLICT''), (422, ''VALIDATION_ERROR''), (500, ''INTERNAL_SERVER_ERROR''),
        (503, ''SERVICE_UNAVAILABLE'')] n of
        Some c \<Rightarrow> c | None \<Rightarrow> ''HTTP_'' @ str_int n)"

definition app_exception_handler :: "app_exception \<Rightarrow> response" where
  "app_exception_handler exc =
     \<lparr>rsp_status = ae_status_code exc,
      rsp_content = error_content (ae_code exc) (ae_message exc) (ae_detail exc), rsp_headers = []\<rparr>"

definition http_exception_handler :: "int \<Rightarrow> json \<Rightarrow> (string \<times> string) list \<Rightarrow> response" where
  "http_exception_handler code dtl hs =
     (let message = (case dtl of JStr s \<Rightarrow> s | _ \<Rightarrow> ''An error occurred.'') in
      \<lparr>rsp_status = code, rsp_content = error_content (status_to_code code) message dtl,
       rsp_headers = hs\<rparr>)"

definition unhandled_exception_handler :: response where
  "unhandled_exception_handler =
     \<lparr>rsp_status = 500,
      rsp_content = error_content ''INTERNAL_SERVER_ERROR'' ''An internal server error occurred.'' JNull,
      rsp_headers = []\<rparr>"

section \<open>Validation errors\<close>

text \<open>One entry of \<open>exc.errors()\<close>: the location is a tuple of names and indices.\<close>

datatype loc_part = LStr string | LInt int

record validation_error =
  ve_loc :: "loc_part list"
  ve_msg :: "string option"

fun loc_str :: "loc_part \<Rightarrow> string" where
  "loc_str (LStr s) = s"
| "loc_str (LInt i) = str_int i"

definition py_join :: "string \<Rightarrow> string list \<Rightarrow> string" where
  "py_join sep parts = (case parts of [] \<Rightarrow> [] | p # ps \<Rightarrow> p @ concat (map (\<lambda>q. sep @ q) ps))"

definition value_error_prefix :: string where
  "value_error_prefix = ''Value error, ''"

definition format_error :: "validation_error \<Rightarrow> string \<times> string" where
  "format_error err =
     (let field_parts = map loc_str (filter (\<lambda>x. x \<noteq> LStr ''body'') (ve_loc err));
          field = (if field_parts \<noteq> [] then py_join ''.'' field_parts else ''request'');
          msg = (case ve_msg err of None \<Rightarrow> ''Invalid value'' | Some m \<Rightarrow> m);
          msg = (if prefix value_error_prefix msg then drop (length value_error_prefix) msg else msg)
      in (field, msg))"

definition validation_exception_handler :: "validation_error list \<Rightarrow> response" where
  "validation_exception_handler errs =
     \<lparr>rsp_status = 422,
      rsp_content = error_content ''VALIDATION_ERROR'' ''Request validation failed.''
        (JArr (map (\<lambda>(field, msg). JObj [(''field'', JStr field), (''message'', JStr msg)]) (map format_error errs))),
      rsp_headers = []\<rparr>"

section \<open>Which handler answers\<close>

datatype failure =
    Raised exn
  | RaisedApp app_exception
  | Invalid "validation_error list"

fun respond :: "failure \<Rightarrow> response" where
  "respond (Raised (HTTPException code dtl hs)) = http_exception_handler code (JStr dtl) hs"
| "respond (Raised e) = unhandled_exception_handler"
| "respond (RaisedApp exc) = app_exception_handler exc"
| "respond (Invalid errs) = validation_exception_handler errs"

section \<open>Security headers\<close>

text \<open>\<open>bytes.lower\<close>: ASCII letters only.\<close>

definition bytes_lower :: "string \<Rightarrow> string" where
  "bytes_lower = map (\<lambda>c. if 65 \<le> (of_char c :: nat) \<and> (of_char c :: nat) \<le> 90 then char_of ((of_char c :: nat) + 32) else c)"

datatype asgi_message =
    ResponseStart int "(string \<times> string) list"
  | ResponseBody string

definition add_header :: "string \<Rightarrow> string \<Rightarrow> string set \<Rightarrow> (string \<times> string) list \<Rightarrow> (string \<times> string) list" where
  "add_header name val header_names raw_headers =
     (if name \<notin> header_names then raw_headers @ [(name, val)] else raw_headers)"

definition secure_headers :: "(string \<times> string) list \<Rightarrow> (string \<times> string) list" where
  "secure_headers hs =
     (let header_names = set (map (bytes_lower \<circ> fst) hs) in
      add_header ''referrer-policy'' ''no-referrer'' header_names
        (add_header ''x-frame-options'' ''DENY'' header_names
          (add_header ''x-content-type-options'' ''nosniff'' header_names hs)))"

fun send_with_security_headers :: "asgi_message \<Rightarrow> asgi_message" where
  "send_with_security_headers (ResponseStart code hs) = ResponseStart code (secure_headers hs)"
| "send_with_security_headers m = m"

text \<open>The messages the server sees for those the application sends.\<close>

definition security_headers_middleware :: "string \<Rightarrow> asgi_message list \<Rightarrow> asgi_message list" where
  "security_headers_middleware scope_type sent =
     (if scope_type \<noteq> ''http'' then sent else map send_with_security_headers sent)"

section \<open>Properties\<close>

definition has_header :: "string \<Rightarrow> (string \<times> string) list \<Rightarrow> bool" where
  "has_header name hs \<longleftrightarrow> (\<exists>h \<in> set hs. bytes_lower (fst h) = name)"

lemma has_header_iff: "has_header n hs \<longleftrightarrow> n \<in> set (map (bytes_lower \<circ> fst) hs)"
  by (auto simp: has_header_def)

lemma has_header_add:
  "has_header n (add_header m v names hs) \<longleftrightarrow> has_header n hs \<or> m \<notin> names \<and> n = bytes_lower m"
  by (auto simp: has_header_def add_header_def)

lemma bytes_lower_names [simp]:
  "bytes_lower ''referrer-policy'' = ''referrer-policy''" "bytes_lower ''x-frame-options'' = ''x-frame-options''"
  "bytes_lower ''x-content-type-options'' = ''x-content-type-options''"
  by (simp_all add: bytes_lower_def)

text \<open>
  C35: every HTTP response that passes the middleware leaves with the three security headers, whatever the application set, once
  each when it set none; the application's own headers keep their place and value, its bodies are
  untouched, and running the middleware twice changes nothing more.
\<close>

theorem security_headers_complete:
  "security_headers_middleware ''http'' (ResponseStart code hs # map ResponseBody bodies)
     = ResponseStart code (secure_headers hs) # map ResponseBody bodies
   \<and> (\<exists>added. secure_headers hs = hs @ added
        \<and> set added \<subseteq> {(''x-content-type-options'', ''nosniff''), (''x-frame-options'', ''DENY''), (''referrer-policy'', ''no-referrer'')}
        \<and> distinct added)
   \<and> has_header ''x-content-type-options'' (secure_headers hs)
   \<and> has_header ''x-frame-options'' (secure_headers hs) \<and> has_header ''referrer-policy'' (secure_headers hs)
   \<and> secure_headers (secure_headers hs) = secure_headers hs"
proof -
  let ?names = "set (map (bytes_lower \<circ> fst) hs)"
  let ?add = "\<lambda>name val. if name \<notin> ?names then [(name, val)] else []"
  let ?added = "?add ''x-content-type-options'' ''nosniff'' @ ?add ''x-frame-options'' ''DENY'' @ ?add ''referrer-policy'' ''no-referrer''"
  have 1: "secure_headers hs = hs @ ?added"
    by (simp add: secure_headers_def add_header_def Let_def)
  have has: "has_header ''x-content-type-options'' (secure_headers hs)"
    "has_header ''x-frame-options'' (secure_headers hs)" "has_header ''referrer-policy'' (secure_headers hs)"
    by (simp_all add: secure_headers_def Let_def has_header_add has_header_iff [symmetric] del: set_map)
  then have "secure_headers (secure_headers hs) = secure_headers hs"
    by (subst secure_headers_def) (simp add: add_header_def Let_def has_header_iff)
  moreover have "\<exists>added. secure_headers hs = hs @ added
      \<and> set added \<subseteq> {(''x-content-type-options'', ''nosniff''), (''x-frame-options'', ''DENY''), (''referrer-policy'', ''no-referrer'')}
      \<and> distinct added"
    by (rule exI [of _ ?added]) (simp add: 1)
  ultimately show ?thesis using has by (simp add: security_headers_middleware_def)
qed



text \<open>
  Validation messages. The text a validator of the program raises for a body field reaches the
  client unchanged under the name of that field; every error of the request is reported, in order.
\<close>

theorem validation_messages:
  "validation_exception_handler (map (\<lambda>(f, m). \<lparr>ve_loc = [LStr ''body'', LStr f], ve_msg = Some (value_error_prefix @ m)\<rparr>) fms)
     = \<lparr>rsp_status = 422, rsp_content = JObj [(''code'', JStr ''VALIDATION_ERROR''),
          (''message'', JStr ''Request validation failed.''),
          (''detail'', JArr (map (\<lambda>(f, m). JObj
             [(''field'', JStr (if f = ''body'' then ''request'' else f)), (''message'', JStr m)]) fms))],
        rsp_headers = []\<rparr>"
proof -
  have "format_error \<lparr>ve_loc = [LStr ''body'', LStr f], ve_msg = Some (value_error_prefix @ m)\<rparr>
      = (if f = ''body'' then ''request'' else f, m)" for f m
    by (simp add: format_error_def py_join_def Let_def)
  then show ?thesis
    by (simp add: validation_exception_handler_def error_content_def case_prod_beta comp_def)
qed

end
