(* ===== verification/Ratings.thy ===== *)
theory Ratings
  imports Reviews
begin

text \<open>
  The statistics of \<open>get_provider_review_summary\<close> (\<open>app/services/review_service.py\<close>), which
  \<open>process_summary_job\<close> computes in the same way: count, average and distribution of a
  provider's ratings. PostgreSQL averages integers as an exact decimal cut to sixteen places,
  Python reads that as a double and rounds the double to two places; an average is the number
  of hundredths that results.
\<close>

section \<open>Rounding\<close>

text \<open>\<open>num / den\<close> to the nearest integer, ties to even, for a positive \<open>den\<close>.\<close>

definition round_half_even :: "int \<Rightarrow> int \<Rightarrow> int" where
  "round_half_even num den =
     (let q = num div den; r = num mod den
      in if 2 * r < den then q else if den < 2 * r then q + 1 else if even q then q else q + 1)"

text \<open>\<open>avg\<close> of \<open>n\<close> integers with sum \<open>s\<close>, in units of \<open>10 ^ -16\<close>, ties away from zero.\<close>

definition pg_avg :: "int \<Rightarrow> int \<Rightarrow> int" where
  "pg_avg s n = (2 * s * 10 ^ 16 + n) div (2 * n)"

text \<open>
  The double nearest to \<open>num / den\<close>, for values from 1 up to 8: a 53-bit significand over a
  power of two.
\<close>

definition double_scale :: "int \<Rightarrow> int \<Rightarrow> int" where
  "double_scale num den =
     (if num < 2 * den then 2 ^ 52 else if num < 4 * den then 2 ^ 51 else 2 ^ 50)"

definition to_double :: "int \<Rightarrow> int \<Rightarrow> int \<times> int" where
  "to_double num den =
     (let k = double_scale num den in (round_half_even (num * k) den, k))"

text \<open>\<open>round(x, 2)\<close> of the double \<open>m / k\<close>, in hundredths.\<close>

definition round2 :: "int \<times> int \<Rightarrow> int" where
  "round2 x = (case x of (m, k) \<Rightarrow> round_half_even (m * 100) k)"

definition average_hundredths :: "int list \<Rightarrow> nat" where
  "average_hundredths rs =
     (if rs = [] then 0
      else nat (round2 (to_double (pg_avg (sum_list rs) (int (length rs))) (10 ^ 16))))"

section \<open>Statistics of a provider\<close>

definition provider_ratings :: "database \<Rightarrow> uuid \<Rightarrow> int list" where
  "provider_ratings db pid = map r_rating (filter (\<lambda>r. r_provider_id r = pid) (reviews db))"

text \<open>
  \<open>GROUP BY rating\<close>: the rows of the distribution query. Every rating that occurs has a row;
  a key outside "1" to "5" would be added to the dictionary.
\<close>

definition rating_rows :: "int list \<Rightarrow> (int \<times> nat) list" where
  "rating_rows rs = map (\<lambda>k. (k, count_list rs k)) (remdups rs)"

fun set_count :: "int \<Rightarrow> nat \<Rightarrow> (int \<times> nat) list \<Rightarrow> (int \<times> nat) list" where
  "set_count k c [] = [(k, c)]"
| "set_count k c ((k', c') # d) = (if k' = k then (k, c) # d else (k', c') # set_count k c d)"

definition rating_distribution :: "int list \<Rightarrow> (int \<times> nat) list" where
  "rating_distribution rs =
     foldl (\<lambda>d (k, c). set_count k c d) (map (\<lambda>i. (i, 0)) [1..5]) (rating_rows rs)"

record review_summary =
  rs_provider_id :: uuid
  rs_review_count :: nat
  rs_average_rating :: nat  \<comment> \<open>hundredths\<close>
  rs_rating_distribution :: "(int \<times> nat) list"

definition summarize :: "database \<Rightarrow> uuid \<Rightarrow> review_summary" where
  "summarize db pid =
     (let rs = provider_ratings db pid
      in \<lparr>rs_provider_id = pid, rs_review_count = length rs, rs_average_rating = average_hundredths rs,
          rs_rating_distribution = rating_distribution rs\<rparr>)"

definition get_provider_review_summary :: "uuid \<Rightarrow> review_summary service" where
  "get_provider_review_summary pid =
     bindE (db_get_user pid) (\<lambda>x. case x of
       None \<Rightarrow> raiseE (http 404 ''Provider not found'')
     | Some p \<Rightarrow>
         thenE (raise_if (u_role p \<noteq> PROVIDER)
                  (http 400 ''Selected user is not registered as a service provider''))
         (readE (\<lambda>s. summarize (txn s) pid)))"

section \<open>Error bounds\<close>

lemma round_half_even_near:
  assumes "0 < den"
  shows "2 * num - den \<le> 2 * (round_half_even num den * den)
    \<and> 2 * (round_half_even num den * den) \<le> 2 * num + den"
proof -
  define R D M where "R = round_half_even num den * den" and "D = num div den * den" and "M = num mod den"
  have "num = D + M" "0 \<le> M" "M < den"
    using assms by (simp_all add: D_def M_def)
  moreover have "R = D \<and> 2 * M \<le> den \<or> R = D + den \<and> den \<le> 2 * M"
    by (auto simp: R_def D_def M_def round_half_even_def Let_def distrib_right)
  ultimately have "2 * num - den \<le> 2 * R \<and> 2 * R \<le> 2 * num + den" by linarith
  then show ?thesis by (simp add: R_def)
qed

text \<open>Integers and what lies between integers round into their range.\<close>

lemma round_half_even_mono_bounds:
  assumes "0 < den" and "a * den \<le> num" and "num \<le> b * den"
  shows "a \<le> round_half_even num den \<and> round_half_even num den \<le> b"
proof -
  define R where "R = round_half_even num den * den"
  define A B where "A = a * den" and "B = b * den"
  have "2 * num - den \<le> 2 * R" "2 * R \<le> 2 * num + den"
    using round_half_even_near [OF assms(1)] by (simp_all add: R_def)
  moreover have "A \<le> num" "num \<le> B" using assms by (simp_all add: A_def B_def)
  ultimately have "R < B + den" "A - den < R" using assms(1) by linarith+
  then have "round_half_even num den * den < (b + 1) * den" "(a - 1) * den < round_half_even num den * den"
    by (simp_all add: R_def A_def B_def distrib_right left_diff_distrib)
  with assms(1) show ?thesis by simp
qed

lemma double_scale_pos: "0 < double_scale num den" "2 ^ 50 \<le> double_scale num den"
  by (simp_all add: double_scale_def)

lemma int_div_less:
  assumes "0 < (c::int)" and "x < b * c"
  shows "x div c < b"
proof -
  have "x div c * c \<le> x"
    using div_mult_mod_eq [of x c] pos_mod_sign [OF assms(1), of x] by linarith
  with assms(2) have "x div c * c < b * c" by linarith
  with assms(1) show ?thesis by simp
qed

lemma int_le_div:
  assumes "0 < (c::int)" and "a * c \<le> x"
  shows "a \<le> x div c"
  using zdiv_mono1 [OF assms(2,1)] assms(1) by simp

lemma pg_avg_bounds:
  assumes "0 < n" and "a * n \<le> s" and "s \<le> b * n"
  shows "a * 10 ^ 16 \<le> pg_avg s n \<and> pg_avg s n \<le> b * 10 ^ 16"
proof
  have "(a * n) * (2 * 10 ^ 16) \<le> s * (2 * 10 ^ 16)" using assms by (intro mult_right_mono) auto
  then have "(a * 10 ^ 16) * (2 * n) \<le> s * (2 * 10 ^ 16)" by (simp only: ac_simps)
  also have "\<dots> \<le> 2 * s * 10 ^ 16 + n" using assms(1) by simp
  finally have "(a * 10 ^ 16) * (2 * n) \<le> 2 * s * 10 ^ 16 + n" .
  then show "a * 10 ^ 16 \<le> pg_avg s n"
    unfolding pg_avg_def using assms(1) by (intro int_le_div) auto
  have "s * (2 * 10 ^ 16) \<le> (b * n) * (2 * 10 ^ 16)" using assms by (intro mult_right_mono) auto
  then have "2 * s * 10 ^ 16 + n < (b * 10 ^ 16 + 1) * (2 * n)"
    using assms(1) by (simp add: distrib_right)
  then have "pg_avg s n < b * 10 ^ 16 + 1"
    unfolding pg_avg_def using assms(1) by (intro int_div_less) auto
  then show "pg_avg s n \<le> b * 10 ^ 16" by simp
qed

text \<open>The decimal is within half a unit of the exact quotient.\<close>

lemma pg_avg_near:
  assumes "0 < n"
  shows "2 * (s * 10 ^ 16) - n \<le> 2 * (pg_avg s n * n) \<and> 2 * (pg_avg s n * n) \<le> 2 * (s * 10 ^ 16) + n"
proof -
  define P M where "P = pg_avg s n * n" and "M = (2 * s * 10 ^ 16 + n) mod (2 * n)"
  have "pg_avg s n * (2 * n) + M = 2 * s * 10 ^ 16 + n"
    unfolding M_def pg_avg_def by (rule div_mult_mod_eq)
  then have "2 * P + M = 2 * (s * 10 ^ 16) + n" by (simp add: P_def)
  moreover have "0 \<le> M" "M < 2 * n" using assms by (simp_all add: M_def)
  ultimately have "2 * (s * 10 ^ 16) - n \<le> 2 * P \<and> 2 * P \<le> 2 * (s * 10 ^ 16) + n" by linarith
  then show ?thesis by (simp only: P_def)
qed

lemma to_double_bounds:
  assumes "0 < den" and "a * den \<le> num" and "num \<le> b * den" and "to_double num den = (m, k)"
  shows "0 < k \<and> a * k \<le> m \<and> m \<le> b * k"
proof -
  from assms(4) have k: "k = double_scale num den" and m: "m = round_half_even (num * k) den"
    by (auto simp: to_double_def Let_def)
  have pos: "0 < k" unfolding k by (rule double_scale_pos)
  have "(a * den) * k \<le> num * k" "num * k \<le> (b * den) * k"
    using assms pos by (auto intro: mult_right_mono)
  then have "(a * k) * den \<le> num * k" "num * k \<le> (b * k) * den" by (simp_all add: ac_simps)
  from round_half_even_mono_bounds [OF assms(1) this] pos show ?thesis by (simp add: m)
qed

lemma round2_bounds:
  assumes "0 < k" and "a * k \<le> m" and "m \<le> b * k"
  shows "a * 100 \<le> round2 (m, k) \<and> round2 (m, k) \<le> b * 100"
proof -
  have "(a * 100) * k \<le> m * 100" "m * 100 \<le> (b * 100) * k" using assms(2,3) by simp_all
  from round_half_even_mono_bounds [OF assms(1) this] show ?thesis by (simp add: round2_def)
qed

lemma sum_list_bounds:
  "\<forall>r \<in> set rs. a \<le> r \<and> r \<le> b \<Longrightarrow> a * int (length rs) \<le> sum_list rs \<and> sum_list rs \<le> b * int (length rs)"
  by (induction rs) (auto simp: distrib_left)

text \<open>
  The average of ratings between \<open>a\<close> and \<open>b\<close> is, after the three roundings, still between
  them: with the ratings the tables admit it is 0 for no ratings and between 1.00 and 5.00
  otherwise, so the response model (at most 5.0) never rejects it.
\<close>

lemma average_rating_bounds:
  assumes "\<forall>r \<in> set rs. int a \<le> r \<and> r \<le> int b" and "rs \<noteq> []"
  shows "a * 100 \<le> average_hundredths rs \<and> average_hundredths rs \<le> b * 100"
proof -
  let ?s = "sum_list rs" and ?n = "int (length rs)"
  have n: "0 < ?n" using assms(2) by simp
  from sum_list_bounds [OF assms(1)] have "int a * 10 ^ 16 \<le> pg_avg ?s ?n \<and> pg_avg ?s ?n \<le> int b * 10 ^ 16"
    by (intro pg_avg_bounds [OF n]) auto
  moreover obtain m k where mk: "to_double (pg_avg ?s ?n) (10 ^ 16) = (m, k)"
    by (cases "to_double (pg_avg ?s ?n) (10 ^ 16)")
  ultimately have "0 < k \<and> int a * k \<le> m \<and> m \<le> int b * k"
    by (intro to_double_bounds [of "10 ^ 16"]) auto
  then have "int a * 100 \<le> round2 (m, k) \<and> round2 (m, k) \<le> int b * 100"
    by (intro round2_bounds) auto
  with assms(2) mk show ?thesis by (simp add: average_hundredths_def) linarith
qed

text \<open>
  C33: The average is correctly rounded. For ratings from 1 to 5 and up to a million million reviews
  the three roundings of the code amount to one: the result is a nearest number of hundredths of the
  exact quotient.
\<close>

theorem average_rating_nearest:
  assumes range: "\<forall>r \<in> set rs. 1 \<le> r \<and> r \<le> 5" and ne: "rs \<noteq> []" and len: "length rs \<le> 10 ^ 12"
  shows "\<bar>2 * (int (average_hundredths rs) * int (length rs) - 100 * sum_list rs)\<bar> \<le> int (length rs)"
proof -
  let ?D = "10 ^ 16 :: int"
  define n s P where "n = int (length rs)" and "s = sum_list rs" and "P = pg_avg s n"
  obtain m k where mk: "to_double P ?D = (m, k)" by (cases "to_double P ?D")
  define h where "h = round2 (m, k)"
  have n: "0 < n" "n \<le> 10 ^ 12" using ne len by (simp_all add: n_def)
  have k: "2 ^ 50 \<le> k" and m: "m = round_half_even (P * k) ?D"
    using mk double_scale_pos(2) [of P ?D] by (auto simp: to_double_def Let_def)
  from sum_list_bounds [OF range] have "1 * n \<le> s \<and> s \<le> 5 * n" by (simp add: n_def s_def)
  with pg_avg_bounds [OF n(1), of 1 s 5] to_double_bounds [OF _ _ _ mk, of 1 5]
  have "0 < k \<and> 1 * k \<le> m \<and> m \<le> 5 * k" by (simp add: P_def)
  with round2_bounds [of k 1 m 5] have "0 \<le> h" by (simp add: h_def)
  then have h: "int (average_hundredths rs) = h"
    using ne mk by (simp add: average_hundredths_def h_def P_def n_def s_def)
  define A B C where "A = 2 * (h * k) - 2 * (100 * m)" and "B = 2 * (m * ?D) - 2 * (P * k)"
    and "C = 2 * (P * n) - 2 * (s * ?D)"
  have "\<bar>A\<bar> \<le> k" using round_half_even_near [of k "m * 100"] k
    by (simp add: A_def h_def round2_def abs_le_iff)
  moreover have "\<bar>B\<bar> \<le> ?D" using round_half_even_near [of ?D "P * k"]
    by (simp add: B_def m abs_le_iff)
  moreover have "\<bar>C\<bar> \<le> n" using pg_avg_near [OF n(1), of s]
    by (simp add: C_def P_def abs_le_iff)
  ultimately have "\<bar>n * ?D * A\<bar> \<le> n * ?D * k" "\<bar>100 * n * B\<bar> \<le> 100 * n * ?D" "\<bar>100 * k * C\<bar> \<le> 100 * k * n"
    using n k by (simp_all add: abs_mult)
  moreover have "2 * (h * n - 100 * s) * (k * ?D) = n * ?D * A + 100 * n * B + 100 * k * C"
    by (simp add: A_def B_def C_def algebra_simps)
  ultimately have le: "\<bar>2 * (h * n - 100 * s) * (k * ?D)\<bar> \<le> n * ?D * k + 100 * n * ?D + 100 * k * n"
    by linarith
  have "100 * n * ?D \<le> 10 ^ 14 * ?D" "100 * k * n \<le> 100 * k * 10 ^ 12"
    using n k by (simp, intro mult_left_mono) auto
  moreover have "10 ^ 14 * ?D + 100 * k * 10 ^ 12 < k * ?D" using k by simp
  ultimately have "100 * n * ?D + 100 * k * n < k * ?D" by linarith
  moreover have "(n + 1) * (k * ?D) = n * ?D * k + k * ?D" by (simp only: algebra_simps)
  ultimately have "n * ?D * k + 100 * n * ?D + 100 * k * n < (n + 1) * (k * ?D)" by linarith
  with le have "\<bar>2 * (h * n - 100 * s) * (k * ?D)\<bar> < (n + 1) * (k * ?D)" by (rule le_less_trans)
  moreover have "\<bar>2 * (h * n - 100 * s) * (k * ?D)\<bar> = \<bar>2 * (h * n - 100 * s)\<bar> * \<bar>k * ?D\<bar>"
    by (rule abs_mult)
  moreover have "\<bar>k * ?D\<bar> = k * ?D" using k by simp
  ultimately have "\<bar>2 * (h * n - 100 * s)\<bar> * (k * ?D) < (n + 1) * (k * ?D)" by (simp only:)
  then have "\<bar>2 * (h * n - 100 * s)\<bar> \<le> n" using k by simp
  then show ?thesis by (simp add: h n_def s_def)
qed

lemma average_rating_nearest_witness:
  "\<bar>2 * (int (average_hundredths [4, 5, 4]) * 3 - 100 * 13)\<bar> \<le> 3"
  using average_rating_nearest [of "[4, 5, 4]"] by simp

section \<open>The distribution\<close>

lemma set_count_fst: "k \<in> fst ` set d \<Longrightarrow> map fst (set_count k c d) = map fst d"
  by (induction k c d rule: set_count.induct) auto

lemma set_count_map_of: "map_of (set_count k c d) = (map_of d)(k \<mapsto> c)"
  by (induction k c d rule: set_count.induct) auto

lemma fold_set_count:
  "fst ` set rows \<subseteq> fst ` set d \<Longrightarrow> distinct (map fst rows) \<Longrightarrow>
     map fst (foldl (\<lambda>d (k, c). set_count k c d) d rows) = map fst d
     \<and> map_of (foldl (\<lambda>d (k, c). set_count k c d) d rows) = map_of d ++ map_of rows"
proof (induction rows arbitrary: d)
  case (Cons p rows)
  obtain k c where p: "p = (k, c)" by (cases p)
  have keys: "map fst (set_count k c d) = map fst d" using Cons.prems(1) p by (intro set_count_fst) auto
  then have "fst ` set (set_count k c d) = fst ` set d" by (metis list.set_map)
  with Cons.prems p have "fst ` set rows \<subseteq> fst ` set (set_count k c d)" by auto
  from Cons.IH [OF this] Cons.prems keys p show ?case
    by (auto simp: set_count_map_of fun_eq_iff map_add_def image_iff split: option.split
        dest!: map_of_SomeD)
qed simp

lemma map_of_rating_rows: "map_of (rating_rows rs) k = (if k \<in> set rs then Some (count_list rs k) else None)"
proof -
  have "map_of (map (\<lambda>k. (k, count_list rs k)) ks) k = (if k \<in> set ks then Some (count_list rs k) else None)" for ks
    by (induction ks) auto
  then show ?thesis by (simp add: rating_rows_def)
qed

lemma map_fst_pairs: "map fst (map (\<lambda>i. (i, f i)) xs) = xs"
  by (induction xs) auto

text \<open>
  The distribution of ratings from 1 to 5 has exactly the keys 1 to 5 in order, each with the
  number of times the rating occurs, and the counts sum to the number of reviews.
\<close>

lemma rating_distribution_counts:
  assumes "\<forall>r \<in> set rs. 1 \<le> r \<and> r \<le> 5"
  shows "rating_distribution rs = map (\<lambda>i. (i, count_list rs i)) [1..5]
    \<and> sum_list (map snd (rating_distribution rs)) = length rs"
proof -
  let ?d = "map (\<lambda>i::int. (i, 0::nat)) [1..5]" and ?r = "rating_distribution rs"
  have "fst ` set (rating_rows rs) \<subseteq> fst ` set ?d"
    using assms by (auto simp: rating_rows_def image_iff)
  moreover have "distinct (map fst (rating_rows rs))" by (simp add: rating_rows_def o_def)
  ultimately have keys: "map fst ?r = map fst ?d" and vals: "map_of ?r = map_of ?d ++ map_of (rating_rows rs)"
    using fold_set_count [of "rating_rows rs" ?d] by (simp_all add: rating_distribution_def)
  have "map_of ?d i = (if i \<in> set [1..5] then Some 0 else None)" for i
    by (auto simp: map_of_map_restrict restrict_map_def)
  then have "map_of ?r i = (if i \<in> set [1..5] then Some (count_list rs i) else None)" for i
    using assms by (auto simp: vals map_of_rating_rows map_add_def count_list_0_iff split: option.split)
  then have val: "i \<in> {1..5} \<Longrightarrow> map_of ?r i = Some (count_list rs i)" for i by simp
  have fst_r: "map fst ?r = [1..5]" using keys by (simp only: map_fst_pairs)
  then have dist: "distinct (map fst ?r)" by simp
  have "?r = map (\<lambda>i. (i, count_list rs i)) (map fst ?r)"
  proof (rule nth_equalityI)
    fix j assume j: "j < length ?r"
    then have "?r ! j \<in> set ?r" by simp
    then have "map_of ?r (fst (?r ! j)) = Some (snd (?r ! j))" using dist by (intro map_of_is_SomeI) auto
    moreover have "fst (?r ! j) \<in> set (map fst ?r)" using j by simp
    then have "fst (?r ! j) \<in> {1..5}" unfolding fst_r by simp
    ultimately have "snd (?r ! j) = count_list rs (fst (?r ! j))" using val by simp
    with j show "?r ! j = map (\<lambda>i. (i, count_list rs i)) (map fst ?r) ! j" by (simp add: prod_eq_iff)
  qed simp
  then have r: "?r = map (\<lambda>i. (i, count_list rs i)) [1..5]" unfolding fst_r .
  have "sum_list (map (count_list rs) [1..5]) = (\<Sum>i \<in> {1..5}. count_list rs i)"
    by (subst sum_list_distinct_conv_sum_set) simp_all
  also have "\<dots> = (\<Sum>i \<in> set rs. count_list rs i)"
    using assms by (intro sum.mono_neutral_right) (auto simp: count_list_0_iff)
  also have "\<dots> = length rs" by (rule sum_count_set) simp_all
  finally show ?thesis by (simp only: r) (simp add: o_def)
qed

lemma quiet_get_provider_review_summary [quiet_intros]: "quiet (get_provider_review_summary pid)"
  unfolding get_provider_review_summary_def by (intro quiet_intros)

end
