(* ===== verification/Review_Changes.thy ===== *)
theory Review_Changes
  imports Reviews
begin

text \<open>
  Changing and removing reviews (\<open>app/services/review_service.py\<close>) in full, and what every review
  handler does to the database: the facts the whole-system invariants rest on.
\<close>

section \<open>Effects\<close>

lemma edit_review_simps [simp]:
  "r_id (edit_review upd r) = r_id r" "r_booking_id (edit_review upd r) = r_booking_id r"
  "r_customer_id (edit_review upd r) = r_customer_id r" "r_provider_id (edit_review upd r) = r_provider_id r"
  by (simp_all add: edit_review_def Let_def split: option.split)

lemma edit_review_rating:
  "r_rating (edit_review upd r) = (case ru_rating upd of None \<Rightarrow> r_rating r | Some k \<Rightarrow> k)"
  by (simp add: edit_review_def Let_def split: option.split)

lemma edit_review_comment:
  "r_comment (edit_review upd r) = (case ru_comment upd of None \<Rightarrow> r_comment r | Some c \<Rightarrow> Some c)"
  by (simp add: edit_review_def Let_def split: option.split)

lemma get_review_Some: "get_review db i = Some r \<Longrightarrow> r \<in> set (reviews db) \<and> r_id r = i"
  by (auto simp: get_review_def dest: lookup_by_Some)

lemma update_review_row_intact:
  assumes ok: "integrity db" and get: "get_review db (r_id r) = Some old"
    and same: "r_booking_id r = r_booking_id old" "r_customer_id r = r_customer_id old"
      "r_provider_id r = r_provider_id old"
    and range: "1 \<le> r_rating r" "r_rating r \<le> 5" and plain: "comment_ok (r_comment r)"
  shows "update_review_row now r db = Inr (if r = old then db
      else db\<lparr>reviews := replace_by r_id (r\<lparr>r_updated_at := now\<rparr>) (reviews db)\<rparr>)"
proof -
  from get_review_Some [OF get] have old: "old \<in> set (reviews db)" "r_id old = r_id r" by simp_all
  with ok have "review_checks db old" by (auto simp: integrity_def reviews_ok_def)
  with same range have "review_checks db r" by (simp add: review_checks_def)
  moreover have "r_id x = r_id r" if "x \<in> set (reviews db)" "r_booking_id x = r_booking_id r" for x
  proof -
    have "inj_on r_booking_id (set (reviews db))"
      using ok by (simp add: integrity_def reviews_ok_def distinct_map)
    with that old same have "x = old" by (auto dest: inj_onD)
    with old show ?thesis by simp
  qed
  ultimately show ?thesis using get plain by (auto simp: update_review_row_def)
qed

lemma get_review_replace:
  "get_review db (r_id r) \<noteq> None \<Longrightarrow>
     get_review (db\<lparr>reviews := replace_by r_id r (reviews db)\<rparr>) (r_id r) = Some r"
  by (auto simp: get_review_def lookup_by_replace)

text \<open>Every handler leaves the other tables alone.\<close>

definition only_reviews :: "database \<Rightarrow> database \<Rightarrow> bool" where
  "only_reviews db db' \<longleftrightarrow>
     users db' = users db \<and> bookings db' = bookings db \<and> notifications db' = notifications db"

lemma create_review_effect:
  assumes "with_session env (create_review u rin) db = (Inr r, db')"
  shows "\<exists>b. get_booking db (rc_booking_id rin) = Some b \<and> b_status b = COMPLETED \<and> b_customer_id b = u_id u
    \<and> r_booking_id r = b_id b \<and> r_customer_id r = b_customer_id b \<and> r_provider_id r = b_provider_id b
    \<and> reviews db' = reviews db @ [r] \<and> only_reviews db db' \<and> u_role u = CUSTOMER"
proof -
  from assms obtain t where run: "create_review u rin (open_session env db) = (Inr r, t)" and db': "db' = store t"
    by (auto simp: with_session_run)
  then obtain b where b: "get_booking db (rc_booking_id rin) = Some b" "b_status b = COMPLETED"
      "b_customer_id b = u_id u" "u_role u = CUSTOMER"
    and p: "persist_review u b rin (open_session env db) = (Inr r, t)"
    by (auto simp: create_review_def db_get_booking_def session_run Let_def split: option.splits if_splits)
  from p db' have "r = new_review (env_rand env 0) (env_tx_now env) u b rin"
    "reviews db' = reviews db @ [r]" "only_reviews db db'"
    by (auto simp: persist_review_run Let_def insert_review_def only_reviews_def split: sum.splits if_splits)
  with b show ?thesis by simp
qed

lemma update_review_effect:
  assumes "with_session env (update_review rid upd u) db = (Inr x, db')"
  shows "\<exists>r r'. get_review db rid = Some r \<and> u_role u = CUSTOMER \<and> r_customer_id r = u_id u
    \<and> r_id r' = r_id r \<and> r_booking_id r' = r_booking_id r \<and> r_customer_id r' = r_customer_id r
    \<and> r_provider_id r' = r_provider_id r \<and> only_reviews db db'
    \<and> (reviews db' = reviews db \<or> reviews db' = replace_by r_id r' (reviews db))"
proof -
  let ?s = "open_session env db"
  from assms obtain t where run: "update_review rid upd u ?s = (Inr x, t)" and db': "db' = store t"
    by (auto simp: with_session_run)
  then obtain r where r: "get_review db rid = Some r" "u_role u = CUSTOMER" "r_customer_id r = u_id u"
    and save: "save_review (edit_review upd r) ?s = (Inr x, t)"
    by (auto simp: update_review_def db_get_review_def session_run split: option.splits if_splits)
  from save db' have upd: "update_review_row (env_tx_now env) (edit_review upd r) db = Inr db'"
    by (auto simp: save_review_run split: sum.splits)
  then have "reviews db' = reviews db \<or>
      reviews db' = replace_by r_id (edit_review upd r\<lparr>r_updated_at := env_tx_now env\<rparr>) (reviews db)"
    and "only_reviews db db'"
    by (auto simp: update_review_row_def only_reviews_def split: option.splits if_splits)
  with r show ?thesis
    by (intro exI [of _ r] exI [of _ "edit_review upd r\<lparr>r_updated_at := env_tx_now env\<rparr>"]) simp
qed

lemma delete_review_run:
  assumes "get_review db rid = Some r"
    and "u_role u = CUSTOMER \<and> r_customer_id r = u_id u \<or> u_role u = ADMIN"
  shows "with_session env (delete_review rid u) db = (Inr (), db\<lparr>reviews := delete_by r_id rid (reviews db)\<rparr>)"
  using assms
  by (auto simp: with_session_def delete_review_def db_get_review_def session_run or_rollback_run
      commit_def flush_def thenE_def bindE_def delete_review_row_def raise_if_apply add_pending_def)

lemma delete_review_effect:
  assumes "with_session env (delete_review rid u) db = (Inr x, db')"
  shows "\<exists>r. get_review db rid = Some r \<and> (u_role u = CUSTOMER \<and> r_customer_id r = u_id u \<or> u_role u = ADMIN)
    \<and> db' = db\<lparr>reviews := delete_by r_id rid (reviews db)\<rparr>"
proof -
  from assms obtain r where r: "get_review db rid = Some r"
      "u_role u = CUSTOMER \<and> r_customer_id r = u_id u \<or> u_role u = ADMIN"
    by (auto simp: with_session_def delete_review_def db_get_review_def session_run
        split: option.splits if_splits prod.splits)
  with delete_review_run [OF this, of env] assms show ?thesis by auto
qed

section \<open>Faithfulness\<close>

lemma reviews_faithfulD:
  "reviews_faithful db \<Longrightarrow> r \<in> set (reviews db) \<Longrightarrow>
    \<exists>b. get_booking db (r_booking_id r) = Some b \<and> b_status b = COMPLETED
      \<and> r_customer_id r = b_customer_id b \<and> r_provider_id r = b_provider_id b"
  by (simp add: reviews_faithful_def)

lemma faithful_create:
  assumes run: "with_session env (create_review u rin) db = (Inr r, db')" and "reviews_faithful db"
  shows "reviews_faithful db'"
proof -
  from create_review_effect [OF run] obtain b where b: "get_booking db (rc_booking_id rin) = Some b"
      "b_status b = COMPLETED" "r_booking_id r = b_id b" "r_customer_id r = b_customer_id b"
      "r_provider_id r = b_provider_id b" "reviews db' = reviews db @ [r]" "bookings db' = bookings db"
    by (auto simp: only_reviews_def)
  moreover from b(1) have "b_id b = rc_booking_id rin" by (auto simp: get_booking_def dest: lookup_by_Some)
  ultimately show ?thesis
    using assms(2) by (auto simp: reviews_faithful_def get_booking_def)
qed

lemma faithful_update:
  assumes run: "with_session env (update_review rid upd u) db = (Inr x, db')" and "reviews_faithful db"
  shows "reviews_faithful db'"
proof -
  from update_review_effect [OF run] obtain r r' where r: "r \<in> set (reviews db)"
      "r_booking_id r' = r_booking_id r" "r_customer_id r' = r_customer_id r" "r_provider_id r' = r_provider_id r"
      "bookings db' = bookings db" "reviews db' = reviews db \<or> reviews db' = replace_by r_id r' (reviews db)"
    by (auto simp: only_reviews_def dest: get_review_Some)
  have "\<exists>y \<in> set (reviews db). r_booking_id y = r_booking_id x \<and> r_customer_id y = r_customer_id x
      \<and> r_provider_id y = r_provider_id x" if "x \<in> set (reviews db')" for x
  proof -
    from that r(6) consider "x \<in> set (reviews db)" | "x = r'" by (auto dest!: in_replace_byD)
    then show ?thesis using r(1-4) by cases (blast, metis)
  qed
  with assms(2) r(5) show ?thesis
    unfolding reviews_faithful_def get_booking_def by metis
qed

lemma faithful_delete:
  assumes run: "with_session env (delete_review rid u) db = (Inr x, db')" and "reviews_faithful db"
  shows "reviews_faithful db'"
  using delete_review_effect [OF run] assms(2)
  by (auto simp: reviews_faithful_def get_booking_def set_delete_by)

text \<open>Bookings with a review are final, and final bookings do not change.\<close>

lemma faithful_booking_step:
  assumes step: "booking_step ro db db'" and "reviews_faithful db"
  shows "reviews_faithful db'"
proof -
  have "\<exists>b'. get_booking db' i = Some b' \<and> b_status b' = COMPLETED \<and> b_customer_id b' = b_customer_id b
      \<and> b_provider_id b' = b_provider_id b" if "get_booking db i = Some b" "b_status b = COMPLETED" for i b
    using booking_step_evolves [OF step] that
    by (fastforce simp: evolves_def same_party_def status_moved_def)
  moreover have "reviews db' = reviews db" using booking_step_frame [OF step] by simp
  ultimately show ?thesis
    using assms(2) unfolding reviews_faithful_def by metis
qed


section \<open>Outcomes\<close>

text \<open>
  C19: changing a review, on every branch. Only its author may, as a customer; a valid change that leaves
  rating and comment as they are stores nothing, any other replaces exactly that row, with its
  owners kept and its update time set; a refusal changes nothing. A new comment with a NUL is refused by
  the database driver.
\<close>

theorem update_review_outcome:
  assumes ok: "integrity db" and range: "\<forall>k. ru_rating upd = Some k \<longrightarrow> 1 \<le> k \<and> k \<le> 5"
  shows "with_session env (update_review rid upd u) db =
    (case get_review db rid of
       None \<Rightarrow> (Inl (http 404 ''Review not found''), db)
     | Some r \<Rightarrow>
         if u_role u \<noteq> CUSTOMER \<or> r_customer_id r \<noteq> u_id u then
           (Inl (http 403 ''Only the author customer may update this review''), db)
         else if edit_review upd r = r then (Inr r, db)
         else if \<not> comment_ok (ru_comment upd) then (Inl (DBError DataError), db)
         else (let r' = (edit_review upd r)\<lparr>r_updated_at := env_tx_now env\<rparr>
               in (Inr r', db\<lparr>reviews := replace_by r_id r' (reviews db)\<rparr>)))"
proof (cases "get_review db rid")
  case None
  then show ?thesis by (simp add: with_session_def update_review_def db_get_review_def session_run)
next
  case (Some r)
  let ?r = "edit_review upd r" and ?s = "open_session env db"
  from get_review_Some [OF Some] have r: "r \<in> set (reviews db)" "r_id r = rid" by simp_all
  with ok have "1 \<le> r_rating r \<and> r_rating r \<le> 5"
    by (auto simp: integrity_def reviews_ok_def review_checks_def)
  with range have "1 \<le> r_rating ?r" "r_rating ?r \<le> 5"
    by (auto simp: edit_review_rating split: option.split)
  with update_review_row_intact [OF ok, of ?r r "env_tx_now env"] Some r
  have good_row: "comment_ok (r_comment ?r) \<Longrightarrow> update_review_row (env_tx_now env) ?r db = Inr (if ?r = r then db
      else db\<lparr>reviews := replace_by r_id (?r\<lparr>r_updated_at := env_tx_now env\<rparr>) (reviews db)\<rparr>)" by simp
  have "comment_ok (r_comment r)" using ok r(1) by (auto simp: integrity_def reviews_ok_def)
  then have plain: "comment_ok (r_comment ?r) \<longleftrightarrow> comment_ok (ru_comment upd)"
    by (auto simp: edit_review_comment comment_ok_def split: option.split)
  from Some r have bad_row: "\<not> comment_ok (r_comment ?r) \<Longrightarrow> ?r \<noteq> r \<Longrightarrow>
      update_review_row (env_tx_now env) ?r db = Inl DataError" by (simp add: update_review_row_def)
  let ?r' = "?r\<lparr>r_updated_at := env_tx_now env\<rparr>"
  have "get_review (db\<lparr>reviews := replace_by r_id ?r' (reviews db)\<rparr>) (r_id ?r) = Some ?r'"
    using get_review_replace [of db ?r'] Some r by simp
  then have "with_session env (save_review ?r) db =
      (if ?r = r then (Inr r, db) else if \<not> comment_ok (ru_comment upd) then (Inl (DBError DataError), db)
       else (Inr ?r', db\<lparr>reviews := replace_by r_id ?r' (reviews db)\<rparr>))"
    using good_row bad_row plain \<open>comment_ok (r_comment r)\<close> Some r
    by (cases "?r = r") (simp_all add: with_session_def save_review_run)
  with Some show ?thesis
    by (auto simp: with_session_def update_review_def db_get_review_def session_run Let_def)
qed

definition sample_review :: review where
  "sample_review = \<lparr>r_id = UUID 20, r_booking_id = UUID 10, r_customer_id = UUID 1, r_provider_id = UUID 2,
     r_rating = 4, r_comment = None, r_created_at = 0, r_updated_at = 0\<rparr>"

definition reviewed_db :: database where
  "reviewed_db = (sample_db COMPLETED)\<lparr>reviews := [sample_review]\<rparr>"

lemma reviewed_db_integrity [simp]: "integrity reviewed_db"
  by (simp add: reviewed_db_def sample_review_def integrity_defs sample_defs user_sized_def booking_sized_def
      booking_checks_def has_user_def review_checks_def has_booking_def pg_defs comment_ok_def)

lemma reviewed_db_review [simp]: "get_review reviewed_db (UUID 20) = Some sample_review"
  by (simp add: reviewed_db_def get_review_def lookup_by_def sample_review_def)

lemma update_review_outcome_witness:
  "r_rating (hd (reviews (snd (with_session sample_env
     (update_review (UUID 20) \<lparr>ru_rating = Some 2, ru_comment = None\<rparr> ada) reviewed_db)))) = 2
   \<and> snd (with_session sample_env (update_review (UUID 20) \<lparr>ru_rating = Some 2, ru_comment = None\<rparr> dan) reviewed_db)
     = reviewed_db"
proof -
  let ?upd = "\<lparr>ru_rating = Some 2, ru_comment = None\<rparr>"
  have facts: "u_role ada = CUSTOMER" "r_customer_id sample_review = u_id ada" "r_customer_id sample_review \<noteq> u_id dan"
    "edit_review ?upd sample_review = sample_review\<lparr>r_rating := 2\<rparr>" "sample_review\<lparr>r_rating := 2\<rparr> \<noteq> sample_review"
    "reviews reviewed_db = [sample_review]" "comment_ok None"
    by (simp_all add: ada_def dan_def sample_review_def edit_review_def reviewed_db_def comment_ok_def)
  have range: "\<forall>k. ru_rating ?upd = Some k \<longrightarrow> 1 \<le> k \<and> k \<le> 5" by simp
  note outcome = update_review_outcome [OF reviewed_db_integrity range, of sample_env "UUID 20"]
  have "snd (with_session sample_env (update_review (UUID 20) ?upd dan) reviewed_db) = reviewed_db"
    by (simp add: outcome facts(3))
  moreover have "reviews (snd (with_session sample_env (update_review (UUID 20) ?upd ada) reviewed_db))
      = [sample_review\<lparr>r_rating := 2, r_updated_at := hour 1\<rparr>]"
    by (simp add: outcome facts Let_def replace_by_def) (simp add: sample_env_def)
  ultimately show ?thesis by simp
qed

text \<open>
  Deleting a review, on every branch. Its author and administrators may; exactly that review goes,
  and nothing else in the database changes; a refusal changes nothing, and repeating the request
  is answered 404.
\<close>

theorem delete_review_outcome:
  "with_session env (delete_review rid u) db =
    (case get_review db rid of
       None \<Rightarrow> (Inl (http 404 ''Review not found''), db)
     | Some r \<Rightarrow>
         if u_role u = ADMIN \<or> u_role u = CUSTOMER \<and> r_customer_id r = u_id u
         then (Inr (), db\<lparr>reviews := filter (\<lambda>x. r_id x \<noteq> rid) (reviews db)\<rparr>)
         else (Inl (http 403 ''Not authorized to delete this review''), db))
   \<and> (fst (with_session env (delete_review rid u) db) = Inr () \<longrightarrow>
        with_session env' (delete_review rid u') (snd (with_session env (delete_review rid u) db))
          = (Inl (http 404 ''Review not found''), snd (with_session env (delete_review rid u) db)))"
proof -
  have absent: "with_session env (delete_review rid u) db = (Inl (http 404 ''Review not found''), db)"
    if "get_review db rid = None" for env u db
    using that by (simp add: with_session_def delete_review_def db_get_review_def session_run)
  have "get_review (db\<lparr>reviews := filter (\<lambda>x. r_id x \<noteq> rid) (reviews db)\<rparr>) rid = None"
    by (auto simp: get_review_def lookup_by_None)
  from absent [OF this] have again: "with_session env' (delete_review rid u')
      (db\<lparr>reviews := filter (\<lambda>x. r_id x \<noteq> rid) (reviews db)\<rparr>) = (Inl (http 404 ''Review not found''),
      db\<lparr>reviews := filter (\<lambda>x. r_id x \<noteq> rid) (reviews db)\<rparr>)" .
  show ?thesis
  proof (cases "get_review db rid")
    case None
    then show ?thesis by (simp add: absent)
  next
    case (Some r)
    show ?thesis
    proof (cases "u_role u = ADMIN \<or> u_role u = CUSTOMER \<and> r_customer_id r = u_id u")
      case True
      with delete_review_run [OF Some, of u env] Some again show ?thesis by (auto simp: delete_by_def)
    next
      case False
      with Some show ?thesis
        by (auto simp: with_session_def delete_review_def db_get_review_def session_run)
    qed
  qed
qed

lemma delete_review_outcome_witness:
  "reviews (snd (with_session sample_env (delete_review (UUID 20) ada) reviewed_db)) = []"
proof -
  have facts: "u_role ada = CUSTOMER" "r_customer_id sample_review = u_id ada" "reviews reviewed_db = [sample_review]"
    "r_id sample_review = UUID 20"
    by (simp_all add: ada_def sample_review_def reviewed_db_def)
  from conjunct1 [OF delete_review_outcome, of sample_env "UUID 20" ada reviewed_db] show ?thesis
    by (simp add: facts)
qed

end
