(* ===== verification/Api.thy ===== *)
theory Api
  imports Schemas Errors Ratings Review_Changes
begin

text \<open>
  The routes of \<open>app/api/v1\<close>: how a request becomes a call of a service. FastAPI resolves the
  dependencies of a route first (the session, the caller), then validates parameters and body, then
  calls the route function; the first failure is the answer. A route gives the status of its
  decorator and the response model's fields.
\<close>

section \<open>Responses\<close>

record user_response =
  ur_id :: uuid
  ur_public_name :: string
  ur_public_email :: string
  ur_role :: user_role
  ur_created_at :: timestamp
  ur_updated_at :: timestamp

definition user_response_of :: "user \<Rightarrow> user_response" where
  "user_response_of u = \<lparr>ur_id = u_id u, ur_public_name = u_name u, ur_public_email = u_email u,
     ur_role = u_role u, ur_created_at = u_created_at u, ur_updated_at = u_updated_at u\<rparr>"

record notification_response =
  nr_id :: uuid
  nr_booking_id :: "uuid option"
  nr_type :: notification_type
  nr_title :: string
  nr_message :: string
  nr_is_read :: bool
  nr_created_at :: timestamp
  nr_read_at :: "timestamp option"

definition notification_response_of :: "notification \<Rightarrow> notification_response" where
  "notification_response_of n = \<lparr>nr_id = n_id n, nr_booking_id = n_booking_id n, nr_type = n_type n,
     nr_title = n_title n, nr_message = n_message n, nr_is_read = n_is_read n,
     nr_created_at = n_created_at n, nr_read_at = n_read_at n\<rparr>"

text \<open>\<open>BookingResponse\<close> and \<open>ReviewResponse\<close> show every column, so the rows stand for them.\<close>

datatype 'tok reply =
    UserOut user_response
  | UsersOut "user_response list"
  | TokenOut 'tok string
  | BookingOut booking
  | BookingsOut "booking list"
  | AvailabilityOut availability
  | SummaryOut review_summary
  | ReviewOut review
  | ReviewsOut "review list"
  | NotificationOut notification_response
  | NotificationsOut "notification_response list"
  | MarkedOut string nat
  | NoContent

section \<open>The application\<close>

text \<open>
  What the routes are configured with: settings, the two libraries, the database's collation, and
  the text pydantic gives a broken constraint.
\<close>

record 'tok app =
  app_settings :: settings
  app_bcrypt :: bcrypt
  app_jwt :: "'tok jwt"
  app_collate :: "string \<Rightarrow> nat list"
  app_constraint :: "string \<Rightarrow> string option"

type_synonym 'a route = "(session, failure, 'a) svc"

definition liftE :: "'a service \<Rightarrow> 'a route" where
  "liftE m s = (case m s of (Inl e, t) \<Rightarrow> (Inl (Raised e), t) | (Inr x, t) \<Rightarrow> (Inr x, t))"

fun located :: "'tok app \<Rightarrow> string \<Rightarrow> field_error \<Rightarrow> validation_error" where
  "located app place (Constraint f) = \<lparr>ve_loc = [LStr place, LStr f], ve_msg = app_constraint app f\<rparr>"
| "located app place (FieldValueError f m) =
     \<lparr>ve_loc = [LStr place, LStr f], ve_msg = Some (value_error_prefix @ m)\<rparr>"
| "located app place (ModelValueError m) = \<lparr>ve_loc = [LStr place], ve_msg = Some (value_error_prefix @ m)\<rparr>"

definition validE :: "'tok app \<Rightarrow> string \<Rightarrow> 'a validated \<Rightarrow> 'a route" where
  "validE app place v = (case v of
       Inl errs \<Rightarrow> raiseE (Invalid (map (located app place) errs)) | Inr x \<Rightarrow> returnE x)"

definition caller :: "'tok app \<Rightarrow> 'tok option \<Rightarrow> user route" where
  "caller app tok = liftE (get_current_user (app_jwt app) (app_settings app) tok)"

text \<open>\<open>skip: int = Query(0, ge=0)\<close> and \<open>limit: int = Query(20, ge=1, le=100)\<close>\<close>

definition validate_page :: "int option \<Rightarrow> int option \<Rightarrow> (nat \<times> nat) validated" where
  "validate_page skip limit =
     (let s = (case skip of None \<Rightarrow> 0 | Some k \<Rightarrow> k); l = (case limit of None \<Rightarrow> 20 | Some k \<Rightarrow> k);
          errs = (if 0 \<le> s then [] else [Constraint ''skip'']) @ int_between ''limit'' 1 100 l
      in if errs \<noteq> [] then Inl errs else Inr (nat s, nat l))"

text \<open>A further rule on the same query string.\<close>

definition also_valid :: "field_error list \<Rightarrow> 'a validated \<Rightarrow> 'a validated" where
  "also_valid errs v = (if errs = [] then v else case v of Inl rest \<Rightarrow> Inl (errs @ rest) | Inr x \<Rightarrow> Inl errs)"

section \<open>Accounts\<close>

datatype auth_call = Register user_register | Login user_login | GetMe

fun auth_router :: "'tok app \<Rightarrow> string \<Rightarrow> 'tok option \<Rightarrow> auth_call \<Rightarrow> (int \<times> 'tok reply) route" where
  "auth_router app salt tok (Register raw) =
     bindE (validE app ''body'' (validate_user_register raw)) (\<lambda>user_in.
     bindE (liftE (register_user (app_bcrypt app) salt user_in)) (\<lambda>u.
     returnE (201, UserOut (user_response_of u))))"
| "auth_router app salt tok (Login raw) =
     bindE (validE app ''body'' (validate_user_login raw)) (\<lambda>credentials.
     bindE (liftE (login (app_bcrypt app) (app_jwt app) (app_settings app) credentials)) (\<lambda>access_token.
     returnE (200, TokenOut access_token ''bearer'')))"
| "auth_router app salt tok GetMe =
     bindE (caller app tok) (\<lambda>current_user. returnE (200, UserOut (user_response_of current_user)))"

section \<open>Bookings\<close>

datatype booking_call =
    CreateBooking booking_create_body
  | ListBookings "booking_status option" "int option" "int option"
  | GetBooking uuid
  | UpdateBooking uuid booking_update_body
  | CancelBooking uuid
  | DeleteBooking uuid

fun bookings_router :: "'tok app \<Rightarrow> 'tok option \<Rightarrow> booking_call \<Rightarrow> (int \<times> 'tok reply) route" where
  "bookings_router app tok (CreateBooking raw) =
     bindE (caller app tok) (\<lambda>current_user.
     bindE (validE app ''body'' (validate_booking_create raw)) (\<lambda>booking_in.
     bindE (liftE (create_booking (u_id current_user) booking_in)) (\<lambda>b. returnE (201, BookingOut b))))"
| "bookings_router app tok (ListBookings status skip limit) =
     bindE (caller app tok) (\<lambda>current_user.
     bindE (validE app ''query'' (validate_page skip limit)) (\<lambda>(skip, limit).
     bindE (liftE (select_rows (pg_bigint skip) (\<lambda>db. list_bookings db current_user status skip limit))) (\<lambda>rows.
     returnE (200, BookingsOut rows))))"
| "bookings_router app tok (GetBooking booking_id) =
     bindE (caller app tok) (\<lambda>current_user.
     bindE (liftE (get_booking_by_id booking_id current_user)) (\<lambda>b. returnE (200, BookingOut b)))"
| "bookings_router app tok (UpdateBooking booking_id raw) =
     bindE (caller app tok) (\<lambda>current_user.
     bindE (validE app ''body'' (validate_booking_update raw)) (\<lambda>booking_update.
     bindE (liftE (update_booking booking_id booking_update current_user)) (\<lambda>b. returnE (200, BookingOut b))))"
| "bookings_router app tok (CancelBooking booking_id) =
     bindE (caller app tok) (\<lambda>current_user.
     bindE (liftE (cancel_booking booking_id current_user)) (\<lambda>b. returnE (200, BookingOut b)))"
| "bookings_router app tok (DeleteBooking booking_id) =
     bindE (caller app tok) (\<lambda>current_user.
     bindE (liftE (delete_booking booking_id current_user)) (\<lambda>_. returnE (204, NoContent)))"

section \<open>Reviews\<close>

datatype review_call =
    CreateReview review_create
  | ListReviews "uuid option" "int option" "int option" "int option"
  | GetReview uuid
  | UpdateReview uuid review_update
  | DeleteReview uuid

fun create_review_route :: "'tok app \<Rightarrow> 'tok option \<Rightarrow> review_create \<Rightarrow> (int \<times> 'tok reply) route" where
  "create_review_route app tok raw =
     bindE (caller app tok) (\<lambda>current_user.
     bindE (validE app ''body'' (validate_review_create raw)) (\<lambda>review_in.
     bindE (liftE (create_review current_user review_in)) (\<lambda>r. returnE (201, ReviewOut r))))"

fun list_reviews_route :: "'tok app \<Rightarrow> 'tok option \<Rightarrow> uuid option \<Rightarrow> int option \<Rightarrow> int option \<Rightarrow> int option
    \<Rightarrow> (int \<times> 'tok reply) route" where
  "list_reviews_route app tok provider_id rating skip limit =
     bindE (caller app tok) (\<lambda>current_user.
     bindE (validE app ''query'' (also_valid (if_given (int_between ''rating'' 1 5) rating) (validate_page skip limit)))
       (\<lambda>(skip, limit).
     bindE (liftE (select_rows (pg_bigint skip) (\<lambda>db. list_reviews db current_user provider_id rating skip limit))) (\<lambda>rows.
     returnE (200, ReviewsOut rows))))"

text \<open>The routes of \<open>/reviews/summarize\<close> are in theory \<open>Summary_Api\<close>.\<close>

fun reviews_router :: "'tok app \<Rightarrow> 'tok option \<Rightarrow> review_call \<Rightarrow> (int \<times> 'tok reply) route" where
  "reviews_router app tok (CreateReview raw) = create_review_route app tok raw"
| "reviews_router app tok (ListReviews provider_id rating skip limit) =
     list_reviews_route app tok provider_id rating skip limit"
| "reviews_router app tok (GetReview review_id) =
     bindE (caller app tok) (\<lambda>current_user.
     bindE (liftE (get_review_by_id review_id current_user)) (\<lambda>r. returnE (200, ReviewOut r)))"
| "reviews_router app tok (UpdateReview review_id raw) =
     bindE (caller app tok) (\<lambda>current_user.
     bindE (validE app ''body'' (validate_review_update raw)) (\<lambda>review_update.
     bindE (liftE (update_review review_id review_update current_user)) (\<lambda>r. returnE (200, ReviewOut r))))"
| "reviews_router app tok (DeleteReview review_id) =
     bindE (caller app tok) (\<lambda>current_user.
     bindE (liftE (delete_review review_id current_user)) (\<lambda>_. returnE (204, NoContent)))"

section \<open>Providers\<close>

datatype provider_call =
    ListProviders "string option" "int option" "int option"
  | CheckAvailability uuid py_datetime py_datetime
  | ProviderSummary uuid
  | GetProvider uuid

definition check_slot :: "py_datetime \<Rightarrow> py_datetime \<Rightarrow> unit service" where
  "check_slot start_time end_time =
     thenE (raise_if (is_naive start_time) (http 422 ''start_time must be timezone-aware''))
     (thenE (raise_if (is_naive end_time) (http 422 ''end_time must be timezone-aware''))
     (raise_if (not_after end_time start_time) (http 422 ''end_time must be after start_time'')))"

fun providers_router :: "'tok app \<Rightarrow> 'tok option \<Rightarrow> provider_call \<Rightarrow> (int \<times> 'tok reply) route" where
  "providers_router app tok (ListProviders search skip limit) =
     bindE (caller app tok) (\<lambda>current_user.
     bindE (validE app ''query'' (also_valid (if_given (str_between ''search'' 0 100) search) (validate_page skip limit)))
       (\<lambda>(skip, limit).
     bindE (liftE (select_rows (pg_bigint skip \<and> comment_ok (map_option py_strip search))
       (\<lambda>db. list_providers (app_collate app) db search skip limit))) (\<lambda>rows.
     returnE (200, UsersOut (map user_response_of rows)))))"
| "providers_router app tok (CheckAvailability provider_id start_time end_time) =
     bindE (caller app tok) (\<lambda>current_user.
     thenE (liftE (check_slot start_time end_time))
     (bindE (liftE (check_provider_availability provider_id (instant start_time) (instant end_time))) (\<lambda>a.
      returnE (200, AvailabilityOut a))))"
| "providers_router app tok (ProviderSummary provider_id) =
     bindE (caller app tok) (\<lambda>current_user.
     bindE (liftE (get_provider_review_summary provider_id)) (\<lambda>x. returnE (200, SummaryOut x)))"
| "providers_router app tok (GetProvider provider_id) =
     bindE (caller app tok) (\<lambda>current_user.
     bindE (liftE (get_provider_by_id provider_id)) (\<lambda>p. returnE (200, UserOut (user_response_of p))))"

section \<open>Notifications\<close>

datatype notification_call =
    ListNotifications "int option" "int option" bool
  | MarkAllRead
  | MarkRead uuid

fun notifications_router :: "'tok app \<Rightarrow> 'tok option \<Rightarrow> notification_call \<Rightarrow> (int \<times> 'tok reply) route" where
  "notifications_router app tok (ListNotifications skip limit unread_only) =
     bindE (caller app tok) (\<lambda>current_user.
     bindE (validE app ''query'' (validate_page skip limit)) (\<lambda>(skip, limit).
     bindE (liftE (select_rows (pg_bigint skip)
       (\<lambda>db. list_notifications db (u_id current_user) skip limit unread_only))) (\<lambda>rows.
     returnE (200, NotificationsOut (map notification_response_of rows)))))"
| "notifications_router app tok MarkAllRead =
     bindE (caller app tok) (\<lambda>current_user.
     bindE (liftE (mark_all_as_read (u_id current_user))) (\<lambda>count.
     returnE (200, MarkedOut ''All unread notifications marked as read'' count)))"
| "notifications_router app tok (MarkRead notification_id) =
     bindE (caller app tok) (\<lambda>current_user.
     bindE (liftE (mark_notification_as_read notification_id (u_id current_user))) (\<lambda>n.
     returnE (200, NotificationOut (notification_response_of n))))"

section \<open>Dispatch\<close>

datatype call =
    Auth auth_call
  | Bookings booking_call
  | Reviews review_call
  | Providers provider_call
  | Notifications notification_call

fun api_router :: "'tok app \<Rightarrow> string \<Rightarrow> 'tok option \<Rightarrow> call \<Rightarrow> (int \<times> 'tok reply) route" where
  "api_router app salt tok (Auth c) = auth_router app salt tok c"
| "api_router app salt tok (Bookings c) = bookings_router app tok c"
| "api_router app salt tok (Reviews c) = reviews_router app tok c"
| "api_router app salt tok (Providers c) = providers_router app tok c"
| "api_router app salt tok (Notifications c) = notifications_router app tok c"

text \<open>A request: its own session, closed at the end.\<close>

definition serve ::
  "'tok app \<Rightarrow> string \<Rightarrow> environment \<Rightarrow> 'tok option \<Rightarrow> call \<Rightarrow> database
    \<Rightarrow> (failure + int \<times> 'tok reply) \<times> database" where
  "serve app salt env tok c db =
     (case api_router app salt tok c (open_session env db) of (r, s) \<Rightarrow> (r, store s))"

definition answer_status :: "failure + int \<times> 'tok reply \<Rightarrow> int" where
  "answer_status r = (case r of Inl f \<Rightarrow> rsp_status (respond f) | Inr (n, x) \<Rightarrow> n)"

end
