(* ===== verification/Routes.thy ===== *)
theory Routes
  imports Api
begin

text \<open>
  The shape of every route, and the contract its proofs share. A route resolves the caller, validates
  what it is given, and runs one handler in the request's session; so what is true of a refusal and of
  the handler is true of the route, whatever the property.
\<close>

section \<open>Running the parts of a route\<close>

lemma caller_run:
  "bindE (caller app tok) k s =
    (case fst (get_current_user (app_jwt app) (app_settings app) tok s) of
       Inl e \<Rightarrow> (Inl (Raised e), s) | Inr u \<Rightarrow> k u s)"
proof -
  obtain r t where run: "get_current_user (app_jwt app) (app_settings app) tok s = (r, t)"
    by (rule prod.exhaust)
  from keepsD_run [OF keeps_get_current_user [of "\<lambda>u. u = s"] refl run] have "t = s" .
  with run show ?thesis by (simp add: caller_def liftE_def bindE_def split: sum.split)
qed

lemma current_user_refusal:
  "fst (get_current_user j cfg tok s) = Inl e \<Longrightarrow> \<exists>msg. e = HTTPException 401 msg bearer"
  by (auto simp: get_current_user_def session_run unauthorized_def db_get_user_def
      split: option.splits sum.splits if_splits)

lemma slot_run:
  "thenE (liftE (check_slot a z)) k s = (case fst (check_slot a z s) of
      Inl e \<Rightarrow> (Inl (Raised e), s) | Inr x \<Rightarrow> k s)"
  by (simp add: check_slot_def thenE_def bindE_def liftE_def raise_if_apply)

lemma check_slot_cases:
  "fst (check_slot a z s) = (if is_naive a then Inl (http 422 ''start_time must be timezone-aware'')
     else if is_naive z then Inl (http 422 ''end_time must be timezone-aware'')
     else if instant z \<le> instant a then Inl (http 422 ''end_time must be after start_time'') else Inr ())"
  by (simp add: check_slot_def thenE_def bindE_def raise_if_apply)

lemma lift_return_run:
  "bindE (liftE h) (\<lambda>x. returnE (f x)) s = (case h s of
      (Inl e, t) \<Rightarrow> (Inl (Raised e), t) | (Inr x, t) \<Rightarrow> (Inr (f x), t))"
  by (simp add: bindE_def liftE_def split: prod.split sum.split)

section \<open>The contract\<close>

text \<open>What a route answers and leaves behind, against the environment of the request and the database it started from.\<close>

definition upholds :: "(environment \<Rightarrow> database \<Rightarrow> failure + 'a \<Rightarrow> database \<Rightarrow> bool) \<Rightarrow> 'a route \<Rightarrow> bool" where
  "upholds P m \<longleftrightarrow> (\<forall>env db r s. m (open_session env db) = (r, s) \<longrightarrow> P env db r (store s))"

lemma upholdsI:
  "(\<And>env db r s. m (open_session env db) = (r, s) \<Longrightarrow> P env db r (store s)) \<Longrightarrow> upholds P m"
  by (simp add: upholds_def)

lemma upholdsD: "upholds P m \<Longrightarrow> m (open_session env db) = (r, s) \<Longrightarrow> P env db r (store s)"
  by (simp add: upholds_def)

named_theorems route_intros \<open>routes that respect a contract\<close>

text \<open>What a route answers before it reaches its handler: 401, or 422.\<close>

definition early_refusal :: "failure \<Rightarrow> bool" where
  "early_refusal f \<longleftrightarrow> (\<exists>errs. f = Invalid errs)
     \<or> (\<exists>code msg hs. f = Raised (HTTPException code msg hs) \<and> code \<in> {401, 422})"

lemma early_refusal_simps [simp]:
  "early_refusal (Invalid errs)" "early_refusal (Raised (HTTPException code msg hs)) \<longleftrightarrow> code \<in> {401, 422}"
  by (auto simp: early_refusal_def)

locale route_contract =
  fixes P :: "environment \<Rightarrow> database \<Rightarrow> failure + 'a \<Rightarrow> database \<Rightarrow> bool"
  assumes refusal: "early_refusal f \<Longrightarrow> P env db (Inl f) db"
begin

lemma caller [route_intros]:
  assumes "\<And>u. upholds P (k u)"
  shows "upholds P (bindE (caller app tok) k)"
  using assms by (auto simp: upholds_def caller_run bearer_def split: sum.splits dest!: current_user_refusal intro!: refusal)

lemma valid [route_intros]:
  assumes "\<And>x. v = Inr x \<Longrightarrow> upholds P (k x)"
  shows "upholds P (bindE (validE app place v) k)"
  using assms by (cases v) (auto simp: upholds_def validE_def bindE_def intro!: refusal)

lemma read [route_intros]:
  assumes "\<And>x. upholds P (k x)"
  shows "upholds P (bindE (readE f) k)"
  using assms by (auto simp: upholds_def bindE_readE)

lemma slot [route_intros]:
  assumes "instant a < instant z \<Longrightarrow> upholds P k"
  shows "upholds P (thenE (liftE (check_slot a z)) k)"
  using assms by (auto simp: upholds_def slot_run check_slot_cases intro!: refusal)

lemma pair [route_intros]: "(\<And>a b. x = (a, b) \<Longrightarrow> upholds P (k a b)) \<Longrightarrow> upholds P (case x of (a, b) \<Rightarrow> k a b)"
  by (cases x) simp

text \<open>A handler may fail halfway; the answer is then its exception.\<close>

lemma handler:
  assumes "\<And>env db e t. h (open_session env db) = (Inl e, t) \<Longrightarrow> P env db (Inl (Raised e)) (store t)"
    and "\<And>env db x t. h (open_session env db) = (Inr x, t) \<Longrightarrow> P env db (Inr (f x)) (store t)"
  shows "upholds P (bindE (liftE h) (\<lambda>x. returnE (f x)))"
  using assms by (auto simp: upholds_def lift_return_run split: prod.splits sum.splits)

end

end
