(* ===== verification/Jobs.thy ===== *)
theory Jobs
  imports Schedule Config
begin

text \<open>
  \<open>app/jobs/booking_jobs.py\<close>: the periodic jobs that remind the participants of a confirmed
  booking before it starts and tell them when it ended without being completed. Both jobs visit the
  matching bookings and create two notifications for each; what they leave is described by
  \<open>tell_all\<close>.
\<close>

section \<open>The jobs\<close>

text \<open>A time read from the database comes in the zone of the session.\<close>

definition db_time :: "session \<Rightarrow> timestamp \<Rightarrow> string" where
  "db_time s t = isoformat (astimezone (zone s t) t)"

text \<open>The body of the loops: \<open>created_count\<close> goes up for every notification that is new.\<close>

definition count_created :: "nat \<Rightarrow> notification option \<Rightarrow> nat" where
  "count_created created_count n = (if n \<noteq> None then created_count + 1 else created_count)"

definition notify_pair ::
  "notification_type \<Rightarrow> string \<Rightarrow> string \<Rightarrow> string \<Rightarrow> booking \<Rightarrow> nat \<Rightarrow> nat service" where
  "notify_pair ty title cust_msg prov_msg b created_count =
     bindE (create_notification (b_customer_id b) ty title cust_msg (Some (b_id b))) (\<lambda>cust_notif.
     bindE (create_notification (b_provider_id b) ty title prov_msg (Some (b_id b))) (\<lambda>prov_notif.
     returnE (count_created (count_created created_count cust_notif) prov_notif)))"

fun for_each :: "(booking \<Rightarrow> nat \<Rightarrow> nat service) \<Rightarrow> booking list \<Rightarrow> nat \<Rightarrow> nat service" where
  "for_each body [] n = returnE n"
| "for_each body (b # bs) n = bindE (body b n) (for_each body bs)"

definition reminder_customer :: "(timestamp \<Rightarrow> string) \<Rightarrow> booking \<Rightarrow> string" where
  "reminder_customer time b =
     ''Reminder: You have an upcoming booking for '' @ b_service_name b @ '' at '' @ time (b_start_time b) @ ''.''"

definition reminder_provider :: "(timestamp \<Rightarrow> string) \<Rightarrow> booking \<Rightarrow> string" where
  "reminder_provider time b =
     ''Reminder: You have an upcoming service for '' @ b_service_name b @ '' scheduled at ''
       @ time (b_start_time b) @ ''.''"

definition upcoming :: "timestamp \<Rightarrow> timestamp \<Rightarrow> booking \<Rightarrow> bool" where
  "upcoming now window_end b \<longleftrightarrow>
     b_status b = CONFIRMED \<and> now < b_start_time b \<and> b_start_time b \<le> window_end"

definition run_booking_reminder_job :: "settings \<Rightarrow> int option \<Rightarrow> nat service" where
  "run_booking_reminder_job cfg reminder_window_minutes =
     (let window = (case reminder_window_minutes of None \<Rightarrow> BOOKING_REMINDER_MINUTES cfg | Some m \<Rightarrow> m) in
      bindE (readE py_now) (\<lambda>now.
      let window_end = now + minutes window in
      bindE (readE (\<lambda>s. filter (upcoming now window_end) (bookings (txn s)))) (\<lambda>rows.
      bindE (readE db_time) (\<lambda>time.
      bindE (for_each (\<lambda>b. notify_pair BOOKING_REMINDER ''Upcoming Booking Reminder''
               (reminder_customer time b) (reminder_provider time b) b) rows 0) (\<lambda>created_count.
      thenE commit (returnE created_count))))))"

definition overdue_customer :: "(timestamp \<Rightarrow> string) \<Rightarrow> booking \<Rightarrow> string" where
  "overdue_customer time b =
     ''Your booking for '' @ b_service_name b @ '' ended at '' @ time (b_end_time b) @ '' and is overdue.''"

definition overdue_provider :: "(timestamp \<Rightarrow> string) \<Rightarrow> booking \<Rightarrow> string" where
  "overdue_provider time b =
     ''The booking for '' @ b_service_name b @ '' ended at '' @ time (b_end_time b) @ '' and requires completion.''"

definition overdue :: "timestamp \<Rightarrow> booking \<Rightarrow> bool" where
  "overdue now b \<longleftrightarrow> b_status b = CONFIRMED \<and> b_end_time b < now"

definition run_overdue_booking_job :: "nat service" where
  "run_overdue_booking_job =
     bindE (readE py_now) (\<lambda>now.
     bindE (readE (\<lambda>s. filter (overdue now) (bookings (txn s)))) (\<lambda>rows.
     bindE (readE db_time) (\<lambda>time.
     bindE (for_each (\<lambda>b. notify_pair BOOKING_OVERDUE ''Booking Overdue''
              (overdue_customer time b) (overdue_provider time b) b) rows 0) (\<lambda>created_count.
     thenE commit (returnE created_count)))))"

section \<open>Atomicity and integrity\<close>

lemma quiet_for_each [quiet_intros]: "(\<And>b n. quiet (body b n)) \<Longrightarrow> quiet (for_each body bs n)"
  by (induction bs arbitrary: n) (auto intro: quiet_intros)

lemma keeps_for_each [keeps_intros]: "(\<And>b n. keeps I (body b n)) \<Longrightarrow> keeps I (for_each body bs n)"
  by (induction bs arbitrary: n) (auto intro: keeps_intros)

lemma notify_pair_disciplined [quiet_intros, keeps_intros]:
  "quiet (notify_pair ty title cm pm b n)" "keeps session_ok (notify_pair ty title cm pm b n)"
  unfolding notify_pair_def by (intro quiet_intros keeps_intros)+

lemma safe_commit_return [safe_intros]: "safe (thenE commit (returnE x))"
  by (auto simp: safe_def thenE_commit split: sum.splits)

lemma keeps_commit_return [keeps_intros]: "keeps session_ok (thenE commit (returnE x))"
  by (intro keeps_intros)

interpretation reminder_job: atomic_handler "run_booking_reminder_job cfg window" for cfg window
proof
  show "safe (run_booking_reminder_job cfg window)"
    unfolding run_booking_reminder_job_def Let_def by (intro safe_intros quiet_intros)
  show "keeps session_ok (run_booking_reminder_job cfg window)"
    unfolding run_booking_reminder_job_def Let_def by (intro keeps_intros)
qed

interpretation overdue_job: atomic_handler run_overdue_booking_job
proof
  show "safe run_overdue_booking_job"
    unfolding run_overdue_booking_job_def by (intro safe_intros quiet_intros)
  show "keeps session_ok run_overdue_booking_job"
    unfolding run_overdue_booking_job_def by (intro keeps_intros)
qed


section \<open>What a job leaves\<close>

text \<open>
  The effect of a loop in plain terms: two posts for each booking; the \<open>k\<close>-th row takes the
  identifiers \<open>2k\<close> and \<open>2k + 1\<close>.
\<close>

fun tell_all :: "(nat \<Rightarrow> uuid) \<Rightarrow> timestamp \<Rightarrow> notification_type \<Rightarrow> string \<Rightarrow> (booking \<Rightarrow> string)
    \<Rightarrow> (booking \<Rightarrow> string) \<Rightarrow> nat \<Rightarrow> booking list \<Rightarrow> database \<Rightarrow> database" where
  "tell_all rnd now ty title cm pm i [] d = d"
| "tell_all rnd now ty title cm pm i (b # bs) d =
     tell_all rnd now ty title cm pm (Suc (Suc i)) bs
       (post (rnd (Suc i)) now (b_provider_id b) ty title (pm b) (b_id b)
         (post (rnd i) now (b_customer_id b) ty title (cm b) (b_id b) d))"

definition participant :: "uuid \<Rightarrow> booking \<Rightarrow> bool" where
  "participant uid b \<longleftrightarrow> uid = b_customer_id b \<or> uid = b_provider_id b"

lemma tell_all_rows [simp]:
  "users (tell_all rnd now ty title cm pm i bs d) = users d"
  "bookings (tell_all rnd now ty title cm pm i bs d) = bookings d"
  "reviews (tell_all rnd now ty title cm pm i bs d) = reviews d"
  by (induction bs arbitrary: i d) simp_all

lemma has_notification_tell_all:
  "has_notification (tell_all rnd now ty title cm pm i bs d) uid bid ty' \<longleftrightarrow>
     has_notification d uid bid ty' \<or> ty' = ty \<and> (\<exists>b \<in> set bs. b_id b = bid \<and> participant uid b)"
  by (induction bs arbitrary: i d) (auto simp: participant_def)

text \<open>Only messages of the job's type are added, after the old ones.\<close>

lemma tell_all_new:
  "\<exists>new. notifications (tell_all rnd now ty title cm pm i bs d) = notifications d @ new
     \<and> (\<forall>n \<in> set new. n_type n = ty \<and> \<not> n_is_read n
          \<and> (\<exists>b \<in> set bs. n_booking_id n = Some (b_id b) \<and> participant (n_user_id n) b))"
proof (induction bs arbitrary: i d)
  case (Cons b bs)
  let ?d1 = "post (rnd i) now (b_customer_id b) ty title (cm b) (b_id b) d"
  let ?d2 = "post (rnd (Suc i)) now (b_provider_id b) ty title (pm b) (b_id b) ?d1"
  obtain new where new: "notifications (tell_all rnd now ty title cm pm (Suc (Suc i)) bs ?d2)
      = notifications ?d2 @ new"
    and ok: "\<forall>n \<in> set new. n_type n = ty \<and> \<not> n_is_read n
          \<and> (\<exists>b \<in> set bs. n_booking_id n = Some (b_id b) \<and> participant (n_user_id n) b)"
    using Cons.IH by blast
  obtain mine where "notifications ?d2 = notifications d @ mine"
    and "\<forall>n \<in> set mine. n_type n = ty \<and> \<not> n_is_read n \<and> n_booking_id n = Some (b_id b)
        \<and> participant (n_user_id n) b"
    by (auto simp: post_notifications participant_def simp del: has_notification_post split: if_splits)
  with new ok show ?case by (intro exI [of _ "mine @ new"]) auto
qed simp

lemma tell_all_nothing:
  "\<forall>b \<in> set bs. has_notification d (b_customer_id b) (b_id b) ty \<and> has_notification d (b_provider_id b) (b_id b) ty
    \<Longrightarrow> tell_all rnd now ty title cm pm i bs d = d"
  by (induction bs arbitrary: i) (simp_all add: post_def)

text \<open>Identifiers still to be drawn are new.\<close>

definition fresh_from :: "session \<Rightarrow> nat \<Rightarrow> bool" where
  "fresh_from s k \<longleftrightarrow> inj_on (rand s) {drawn s..<drawn s + k}
     \<and> (\<forall>i \<in> {drawn s..<drawn s + k}. rand s i \<notin> n_id ` set (notifications (txn s)))"

lemma fresh_from_head: "fresh_from s (Suc k) \<Longrightarrow> rand s (drawn s) \<notin> n_id ` set (notifications (txn s))"
  by (simp add: fresh_from_def)

lemma fresh_from_post:
  assumes "fresh_from s (Suc k)"
  shows "fresh_from (s\<lparr>drawn := Suc (drawn s),
      txn := post (rand s (drawn s)) (tx_now s) uid ty title msg bid (txn s)\<rparr>) k"
proof -
  have "inj_on (rand s) {drawn s..<drawn s + Suc k}" using assms by (simp add: fresh_from_def)
  then have "rand s i \<noteq> rand s (drawn s)" if "i \<in> {Suc (drawn s)..<Suc (drawn s) + k}" for i
    using that by (auto dest: inj_onD)
  moreover have "inj_on (rand s) {Suc (drawn s)..<Suc (drawn s) + k}"
    using \<open>inj_on (rand s) {drawn s..<drawn s + Suc k}\<close> by (rule inj_on_subset) auto
  ultimately show ?thesis
    using assms by (auto simp: fresh_from_def post_notifications)
qed

text \<open>One post, with its answer.\<close>

lemma create_notification_post:
  assumes "has_user (txn s) uid" and "has_booking (txn s) bid" and "length title \<le> 255"
    and "rand s (drawn s) \<notin> n_id ` set (notifications (txn s))"
  shows "\<exists>x. create_notification uid ty title msg (Some bid) s = (Inr x, s\<lparr>drawn := Suc (drawn s),
       txn := post (rand s (drawn s)) (tx_now s) uid ty title msg bid (txn s)\<rparr>)
     \<and> count_created n x + length (notifications (txn s))
       = n + length (notifications (post (rand s (drawn s)) (tx_now s) uid ty title msg bid (txn s)))"
  using assms
  by (auto simp: create_notification_run insert_notification_post Let_def count_created_def post_notifications)

lemma notify_pair_run:
  fixes ty :: notification_type and cm pm :: string
  assumes refs: "has_user (txn s) (b_customer_id b)" "has_user (txn s) (b_provider_id b)"
      "has_booking (txn s) (b_id b)" "length title \<le> 255"
    and fresh: "fresh_from s (Suc (Suc k))"
  defines "d \<equiv> tell_all (rand s) (tx_now s) ty title (\<lambda>_. cm) (\<lambda>_. pm) (drawn s) [b] (txn s)"
  shows "\<exists>m. notify_pair ty title cm pm b n s = (Inr m, s\<lparr>drawn := Suc (Suc (drawn s)), txn := d\<rparr>)
     \<and> m + length (notifications (txn s)) = n + length (notifications d)
     \<and> fresh_from (s\<lparr>drawn := Suc (Suc (drawn s)), txn := d\<rparr>) k"
proof -
  let ?s1 = "s\<lparr>drawn := Suc (drawn s),
    txn := post (rand s (drawn s)) (tx_now s) (b_customer_id b) ty title cm (b_id b) (txn s)\<rparr>"
  obtain x where x: "create_notification (b_customer_id b) ty title cm (Some (b_id b)) s = (Inr x, ?s1)"
      "count_created n x + length (notifications (txn s)) = n + length (notifications (txn ?s1))"
    using create_notification_post [OF refs(1,3,4) fresh_from_head [OF fresh], of ty cm n] by auto
  have fresh1: "fresh_from ?s1 (Suc k)" by (rule fresh_from_post [OF fresh])
  obtain y where y: "create_notification (b_provider_id b) ty title pm (Some (b_id b)) ?s1
        = (Inr y, s\<lparr>drawn := Suc (Suc (drawn s)), txn := d\<rparr>)"
      "count_created (count_created n x) y + length (notifications (txn ?s1))
        = count_created n x + length (notifications d)"
    using create_notification_post [of ?s1 "b_provider_id b" "b_id b" title ty pm "count_created n x"]
      refs fresh_from_head [OF fresh1] by (auto simp: d_def)
  have "fresh_from (s\<lparr>drawn := Suc (Suc (drawn s)), txn := d\<rparr>) k"
    using fresh_from_post [OF fresh1, of "b_provider_id b" ty title pm "b_id b"] by (simp add: d_def)
  with x y show ?thesis by (simp add: notify_pair_def bindE_def)
qed

lemma for_each_run:
  fixes ty :: notification_type and cm pm :: "booking \<Rightarrow> string"
  assumes "\<forall>b \<in> set bs. has_user (txn s) (b_customer_id b) \<and> has_user (txn s) (b_provider_id b)
      \<and> has_booking (txn s) (b_id b)"
    and "length title \<le> 255" and "fresh_from s (2 * length bs)"
  shows "\<exists>m. for_each (\<lambda>b. notify_pair ty title (cm b) (pm b) b) bs n s =
      (Inr m, s\<lparr>drawn := drawn s + 2 * length bs, txn := tell_all (rand s) (tx_now s) ty title cm pm (drawn s) bs (txn s)\<rparr>)
    \<and> m + length (notifications (txn s))
      = n + length (notifications (tell_all (rand s) (tx_now s) ty title cm pm (drawn s) bs (txn s)))"
  using assms
proof (induction bs arbitrary: s n)
  case (Cons b bs)
  let ?d = "tell_all (rand s) (tx_now s) ty title (\<lambda>_. cm b) (\<lambda>_. pm b) (drawn s) [b] (txn s)"
  let ?t = "s\<lparr>drawn := Suc (Suc (drawn s)), txn := ?d\<rparr>"
  obtain m where m: "notify_pair ty title (cm b) (pm b) b n s = (Inr m, ?t)"
      "m + length (notifications (txn s)) = n + length (notifications ?d)" "fresh_from ?t (2 * length bs)"
  proof -
    have "fresh_from s (Suc (Suc (2 * length bs)))" using Cons.prems(3) by simp
    moreover have "has_user (txn s) (b_customer_id b)" "has_user (txn s) (b_provider_id b)"
      "has_booking (txn s) (b_id b)" using Cons.prems(1) by simp_all
    ultimately show thesis
      using notify_pair_run [of s b title "2 * length bs" ty "cm b" "pm b" n] Cons.prems(2) that by blast
  qed
  have "has_user ?d = has_user (txn s)" "has_booking ?d = has_booking (txn s)"
    by (simp_all add: has_user_def [abs_def] has_booking_def [abs_def])
  then obtain m' where "for_each (\<lambda>b. notify_pair ty title (cm b) (pm b) b) bs m ?t =
      (Inr m', ?t\<lparr>drawn := drawn ?t + 2 * length bs,
        txn := tell_all (rand ?t) (tx_now ?t) ty title cm pm (drawn ?t) bs (txn ?t)\<rparr>)"
    "m' + length (notifications (txn ?t))
      = m + length (notifications (tell_all (rand ?t) (tx_now ?t) ty title cm pm (drawn ?t) bs (txn ?t)))"
    using Cons.IH [of ?t m] Cons.prems(1,2) m(3) by auto
  with m Cons.prems show ?case by (simp add: bindE_def)
qed simp


section \<open>Properties\<close>

text \<open>
  The specification of a job: for every participant of a booking that matches there is afterwards a
  message of the job's type, nobody else gets one, the old messages stay as they were, and the
  answer is the number of new ones.
\<close>

definition tells :: "notification_type \<Rightarrow> (booking \<Rightarrow> bool) \<Rightarrow> database \<Rightarrow> nat \<Rightarrow> database \<Rightarrow> bool" where
  "tells ty matches db m db' \<longleftrightarrow>
     users db' = users db \<and> bookings db' = bookings db \<and> reviews db' = reviews db
     \<and> (\<forall>uid bid. has_notification db' uid bid ty \<longleftrightarrow> has_notification db uid bid ty
          \<or> (\<exists>b \<in> set (bookings db). matches b \<and> b_id b = bid \<and> participant uid b))
     \<and> (\<exists>new. notifications db' = notifications db @ new \<and> m = length new
          \<and> (\<forall>n \<in> set new. n_type n = ty \<and> \<not> n_is_read n
               \<and> (\<exists>b \<in> set (bookings db). matches b \<and> n_booking_id n = Some (b_id b)
                    \<and> participant (n_user_id n) b)))"

lemma fresh_from_open: "fresh_ids k env db \<Longrightarrow> fresh_from (open_session env db) k"
  by (auto simp: fresh_ids_def fresh_from_def lessThan_atLeast0)

text \<open>The common part of the two jobs, run in a fresh session.\<close>

lemma job_run:
  assumes ok: "integrity db" and fresh: "fresh_ids (2 * length (filter matches (bookings db))) env db"
    and title: "length title \<le> 255"
  shows "\<exists>m db'. with_session env
      (bindE (for_each (\<lambda>b. notify_pair ty title (cm b) (pm b) b) (filter matches (bookings db)) 0)
        (\<lambda>n. thenE commit (returnE n))) db = (Inr m, db')
    \<and> tells ty matches db m db'
    \<and> ((\<forall>b \<in> set (bookings db). matches b \<longrightarrow> has_notification db (b_customer_id b) (b_id b) ty
          \<and> has_notification db (b_provider_id b) (b_id b) ty) \<longrightarrow> m = 0 \<and> db' = db)"
proof -
  let ?s = "open_session env db" and ?rows = "filter matches (bookings db)"
  let ?d = "tell_all (env_rand env) (env_tx_now env) ty title cm pm 0 ?rows db"
  have "has_user db (b_customer_id b) \<and> has_user db (b_provider_id b) \<and> has_booking db (b_id b)"
    if "b \<in> set ?rows" for b
    using ok that by (auto simp: integrity_def bookings_ok_def booking_checks_def has_booking_def)
  then obtain m where loop: "for_each (\<lambda>b. notify_pair ty title (cm b) (pm b) b) ?rows 0 ?s =
      (Inr m, ?s\<lparr>drawn := 2 * length ?rows, txn := ?d\<rparr>)"
    and count: "m + length (notifications db) = length (notifications ?d)"
    using for_each_run [of ?rows ?s title ty cm pm 0] fresh_from_open [OF fresh] title by auto
  have "tells ty matches db m ?d"
  proof -
    obtain new where "notifications ?d = notifications db @ new"
        "\<forall>n \<in> set new. n_type n = ty \<and> \<not> n_is_read n
          \<and> (\<exists>b \<in> set ?rows. n_booking_id n = Some (b_id b) \<and> participant (n_user_id n) b)"
      using tell_all_new by blast
    moreover from this count have "m = length new" by simp
    ultimately show ?thesis
      unfolding tells_def by (auto simp: has_notification_tell_all intro!: exI [of _ new])
  qed
  moreover have "m = 0 \<and> ?d = db" if "\<forall>b \<in> set (bookings db). matches b \<longrightarrow>
      has_notification db (b_customer_id b) (b_id b) ty \<and> has_notification db (b_provider_id b) (b_id b) ty"
    using that count tell_all_nothing [of ?rows db ty] by simp
  ultimately show ?thesis
    using loop by (simp add: with_session_def bindE_def thenE_commit)
qed

lemma reminder_job_run:
  assumes "integrity db"
    and "fresh_ids (2 * length (filter (upcoming (env_py_now env) (env_py_now env + minutes w)) (bookings db))) env db"
    and "window = Some w \<or> window = None \<and> w = BOOKING_REMINDER_MINUTES cfg"
  shows "\<exists>m db'. with_session env (run_booking_reminder_job cfg window) db = (Inr m, db')
    \<and> tells BOOKING_REMINDER (upcoming (env_py_now env) (env_py_now env + minutes w)) db m db'
    \<and> ((\<forall>b \<in> set (bookings db). upcoming (env_py_now env) (env_py_now env + minutes w) b \<longrightarrow>
          has_notification db (b_customer_id b) (b_id b) BOOKING_REMINDER
          \<and> has_notification db (b_provider_id b) (b_id b) BOOKING_REMINDER) \<longrightarrow> m = 0 \<and> db' = db)"
proof -
  have "with_session env (run_booking_reminder_job cfg window) db = with_session env
      (bindE (for_each (\<lambda>b. notify_pair BOOKING_REMINDER ''Upcoming Booking Reminder''
         (reminder_customer (db_time (open_session env db)) b)
         (reminder_provider (db_time (open_session env db)) b) b)
         (filter (upcoming (env_py_now env) (env_py_now env + minutes w)) (bookings db)) 0)
       (\<lambda>n. thenE commit (returnE n))) db"
    using assms(3) by (auto simp: with_session_def run_booking_reminder_job_def Let_def session_run)
  then show ?thesis
    using job_run [OF assms(1,2), of "''Upcoming Booking Reminder''"] by simp
qed

lemma overdue_job_run:
  assumes "integrity db" and "fresh_ids (2 * length (filter (overdue (env_py_now env)) (bookings db))) env db"
  shows "\<exists>m db'. with_session env run_overdue_booking_job db = (Inr m, db')
    \<and> tells BOOKING_OVERDUE (overdue (env_py_now env)) db m db'
    \<and> ((\<forall>b \<in> set (bookings db). overdue (env_py_now env) b \<longrightarrow>
          has_notification db (b_customer_id b) (b_id b) BOOKING_OVERDUE
          \<and> has_notification db (b_provider_id b) (b_id b) BOOKING_OVERDUE) \<longrightarrow> m = 0 \<and> db' = db)"
proof -
  have "with_session env run_overdue_booking_job db = with_session env
      (bindE (for_each (\<lambda>b. notify_pair BOOKING_OVERDUE ''Booking Overdue''
         (overdue_customer (db_time (open_session env db)) b)
         (overdue_provider (db_time (open_session env db)) b) b)
         (filter (overdue (env_py_now env)) (bookings db)) 0)
       (\<lambda>n. thenE commit (returnE n))) db"
    by (simp add: with_session_def run_overdue_booking_job_def session_run)
  then show ?thesis using job_run [OF assms, of "''Booking Overdue''"] by simp
qed

text \<open>
  C27: the reminder job. With an intact database it succeeds, and afterwards exactly those users have a
  reminder who had one before or take part in a confirmed booking that starts after the job's clock
  and no later than the window, both read as the configured number of minutes when no window is
  given; bookings, users, reviews and all older messages are untouched and the answer counts the
  new messages.
\<close>

theorem reminder_job_exact:
  assumes "integrity db"
    and "fresh_ids (2 * length (filter (upcoming (env_py_now env) (env_py_now env + minutes w)) (bookings db))) env db"
    and "window = Some w \<or> window = None \<and> w = BOOKING_REMINDER_MINUTES cfg"
  shows "\<exists>m db'. with_session env (run_booking_reminder_job cfg window) db = (Inr m, db')
    \<and> tells BOOKING_REMINDER (\<lambda>b. b_status b = CONFIRMED \<and> env_py_now env < b_start_time b
         \<and> b_start_time b \<le> env_py_now env + w * 60000000) db m db'"
proof -
  have "upcoming (env_py_now env) (env_py_now env + minutes w) =
      (\<lambda>b. b_status b = CONFIRMED \<and> env_py_now env < b_start_time b
         \<and> b_start_time b \<le> env_py_now env + w * 60000000)"
    by (auto simp: upcoming_def fun_eq_iff minutes_def microseconds_def)
  with reminder_job_run [OF assms] show ?thesis by metis
qed

lemma reminder_job_exact_witness:
  "\<exists>m db'. with_session (sample_env\<lparr>env_py_now := hour 9\<rparr>) (run_booking_reminder_job (default_settings ''k'') (Some 60))
       (sample_db CONFIRMED) = (Inr m, db')
    \<and> has_notification db' (UUID 1) (UUID 10) BOOKING_REMINDER"
proof -
  let ?env = "sample_env\<lparr>env_py_now := hour 9\<rparr>" and ?b = "sample_booking CONFIRMED"
  have "filter (upcoming (hour 9) (hour 9 + minutes 60)) [?b] = [?b]"
    by (simp add: upcoming_def sample_defs minutes_def microseconds_def)
  moreover have "fresh_ids 2 ?env (sample_db CONFIRMED)"
    using sample_fresh(2) [of 2 CONFIRMED] by (simp add: fresh_ids_def)
  ultimately obtain m db' where run: "with_session ?env (run_booking_reminder_job (default_settings ''k'') (Some 60))
       (sample_db CONFIRMED) = (Inr m, db')"
    and "tells BOOKING_REMINDER (\<lambda>b. b_status b = CONFIRMED \<and> env_py_now ?env < b_start_time b
         \<and> b_start_time b \<le> env_py_now ?env + 60 * 60000000) (sample_db CONFIRMED) m db'"
    using reminder_job_exact [of "sample_db CONFIRMED" ?env 60 "Some 60" "default_settings ''k''"] by auto
  then have "has_notification db' (UUID 1) (UUID 10) BOOKING_REMINDER"
    by (auto simp: tells_def participant_def sample_defs)
  with run show ?thesis by blast
qed

text \<open>Running again tells only what the first run could not.\<close>

lemma tells_twice:
  assumes first: "tells ty P db m db1" and second: "tells ty Q db1 m' db2" and ok: "integrity db2"
  shows "tells ty (\<lambda>b. Q b \<and> \<not> P b) db1 m' db2"
proof -
  from second obtain new where new: "notifications db2 = notifications db1 @ new" "m' = length new"
      "\<forall>n \<in> set new. n_type n = ty \<and> \<not> n_is_read n
        \<and> (\<exists>b \<in> set (bookings db1). Q b \<and> n_booking_id n = Some (b_id b) \<and> participant (n_user_id n) b)"
    by (auto simp: tells_def)
  have told: "has_notification db1 uid (b_id b) ty" if "b \<in> set (bookings db1)" "P b" "participant uid b" for b uid
    using first that by (auto simp: tells_def)
  have fresh: "\<not> P b" if "n \<in> set new" "b \<in> set (bookings db1)" "n_booking_id n = Some (b_id b)"
      "participant (n_user_id n) b" for n b
  proof
    assume "P b"
    with told that obtain k where k: "k \<in> set (notifications db1)" "same_notification_key k n"
      using new(3) by (fastforce simp: has_notification_def same_notification_key_def)
    with ok new(1) that(1) have "n_id k = n_id n" "distinct (map n_id (notifications db1 @ new))"
      by (auto simp: integrity_def notifications_ok_def)
    with k that(1) show False by auto
  qed
  have "has_notification db2 uid bid ty \<longleftrightarrow> has_notification db1 uid bid ty
      \<or> (\<exists>b \<in> set (bookings db1). (Q b \<and> \<not> P b) \<and> b_id b = bid \<and> participant uid b)" for uid bid
    using second told unfolding tells_def by blast
  moreover have "\<forall>n \<in> set new. n_type n = ty \<and> \<not> n_is_read n \<and> (\<exists>b \<in> set (bookings db1).
      (Q b \<and> \<not> P b) \<and> n_booking_id n = Some (b_id b) \<and> participant (n_user_id n) b)"
    using new(3) fresh by blast
  ultimately show ?thesis
    using second new(1,2) unfolding tells_def by (intro conjI exI [of _ new]) simp_all
qed

text \<open>
  No one is reminded twice. When the reminder job runs again, at whatever clock and window, on the
  database the first run left, it tells only participants of bookings that did not match the first
  time; with the same clock and window it creates nothing and answers 0.
\<close>

theorem reminder_job_no_repeat:
  assumes "integrity db"
    and "fresh_ids (2 * length (filter (upcoming (env_py_now env) (env_py_now env + minutes w)) (bookings db))) env db"
    and "fresh_ids (2 * length (filter (upcoming (env_py_now env') (env_py_now env' + minutes w')) (bookings db))) env' db1"
    and run: "with_session env (run_booking_reminder_job cfg (Some w)) db = (Inr m, db1)"
    and again: "with_session env' (run_booking_reminder_job cfg (Some w')) db1 = (r, db2)"
  shows "\<exists>m'. r = Inr m' \<and> tells BOOKING_REMINDER
      (\<lambda>b. upcoming (env_py_now env') (env_py_now env' + minutes w') b
         \<and> \<not> upcoming (env_py_now env) (env_py_now env + minutes w) b) db1 m' db2
    \<and> (env_py_now env' = env_py_now env \<and> w' = w \<longrightarrow> m' = 0 \<and> notifications db2 = notifications db1)"
proof -
  have ok1: "integrity db1" by (rule reminder_job.integrity_kept [OF run assms(1)])
  have ok2: "integrity db2" by (rule reminder_job.integrity_kept [OF again ok1])
  have first: "tells BOOKING_REMINDER (upcoming (env_py_now env) (env_py_now env + minutes w)) db m db1"
    using reminder_job_run [OF assms(1,2), of "Some w" cfg] run by auto
  then have "bookings db1 = bookings db" by (simp add: tells_def)
  with assms(3) obtain m' where m': "r = Inr m'"
      "tells BOOKING_REMINDER (upcoming (env_py_now env') (env_py_now env' + minutes w')) db1 m' db2"
    using reminder_job_run [OF ok1, where env = env' and w = w' and window = "Some w'" and cfg = cfg] again by auto
  have twice: "tells BOOKING_REMINDER (\<lambda>b. upcoming (env_py_now env') (env_py_now env' + minutes w') b
      \<and> \<not> upcoming (env_py_now env) (env_py_now env + minutes w) b) db1 m' db2"
    by (rule tells_twice [OF first m'(2) ok2])
  moreover have "m' = 0 \<and> notifications db2 = notifications db1" if "env_py_now env' = env_py_now env \<and> w' = w"
  proof -
    from twice obtain new where "notifications db2 = notifications db1 @ new" "m' = length new"
        "\<forall>n \<in> set new. \<exists>b. upcoming (env_py_now env') (env_py_now env' + minutes w') b
          \<and> \<not> upcoming (env_py_now env) (env_py_now env + minutes w) b"
      unfolding tells_def by blast
    with that show ?thesis by (cases new) auto
  qed
  ultimately show ?thesis using m'(1) by blast
qed

lemma reminder_job_no_repeat_witness:
  "\<exists>db1. with_session sample_env (run_booking_reminder_job (default_settings ''k'') (Some 60)) (sample_db CONFIRMED) = (Inr 0, db1)
    \<and> has_notification (snd (with_session (sample_env\<lparr>env_py_now := hour 9\<rparr>)
        (run_booking_reminder_job (default_settings ''k'') (Some 60)) db1)) (UUID 1) (UUID 10) BOOKING_REMINDER"
proof -
  let ?env' = "sample_env\<lparr>env_py_now := hour 9\<rparr>" and ?b = "sample_booking CONFIRMED" and ?db = "sample_db CONFIRMED"
  let ?job = "run_booking_reminder_job (default_settings ''k'') (Some 60)"
  have no: "\<not> upcoming (hour 1) (hour 1 + minutes 60) ?b" and yes: "upcoming (hour 9) (hour 9 + minutes 60) ?b"
    by (simp_all add: upcoming_def sample_defs minutes_def microseconds_def)
  have now: "env_py_now sample_env = hour 1" "env_py_now ?env' = hour 9" by (simp_all add: sample_env_def)
  have "fresh_ids 2 ?env' ?db"
    using sample_fresh(2) [of 2 CONFIRMED] by (simp add: fresh_ids_def)
  with yes have fresh: "fresh_ids (2 * length (filter (upcoming (env_py_now ?env') (env_py_now ?env' + minutes 60)) (bookings ?db))) ?env' ?db"
    by (simp add: now)
  have fresh0: "fresh_ids (2 * length (filter (upcoming (env_py_now sample_env) (env_py_now sample_env + minutes 60)) (bookings ?db))) sample_env ?db"
    using no by (simp add: now)
  from reminder_job_run [OF sample_db_integrity fresh0, of "Some 60" "default_settings ''k''"] no
  have run: "with_session sample_env ?job ?db = (Inr 0, ?db)" by (auto simp: now)
  from reminder_job_no_repeat [OF sample_db_integrity fresh0 fresh run prod.collapse [symmetric]] no yes
  have "has_notification (snd (with_session ?env' ?job ?db)) (UUID 1) (UUID 10) BOOKING_REMINDER"
    by (auto simp: tells_def now participant_def sample_booking_def)
  with run show ?thesis by blast
qed

text \<open>
  C28: the overdue job reads the end of a booking: with an intact database it succeeds, and afterwards
  exactly those users have an overdue message who had one before or take part in a confirmed
  booking that ended before the job's clock. No booking changes its status, in particular none
  that is pending.
\<close>

theorem overdue_job_exact:
  assumes "integrity db" and "fresh_ids (2 * length (filter (overdue (env_py_now env)) (bookings db))) env db"
  shows "\<exists>m db'. with_session env run_overdue_booking_job db = (Inr m, db')
    \<and> tells BOOKING_OVERDUE (\<lambda>b. b_status b = CONFIRMED \<and> b_end_time b < env_py_now env) db m db'"
proof -
  have "overdue (env_py_now env) = (\<lambda>b. b_status b = CONFIRMED \<and> b_end_time b < env_py_now env)"
    by (simp add: overdue_def fun_eq_iff)
  with overdue_job_run [OF assms] show ?thesis by metis
qed

lemma overdue_job_exact_witness:
  "\<exists>m db'. with_session (sample_env\<lparr>env_py_now := hour 12\<rparr>) run_overdue_booking_job (sample_db CONFIRMED) = (Inr m, db')
    \<and> has_notification db' (UUID 2) (UUID 10) BOOKING_OVERDUE"
proof -
  let ?env = "sample_env\<lparr>env_py_now := hour 12\<rparr>" and ?b = "sample_booking CONFIRMED"
  have "filter (overdue (hour 12)) [?b] = [?b]" by (simp add: overdue_def sample_defs)
  moreover have "fresh_ids 2 ?env (sample_db CONFIRMED)"
    using sample_fresh(2) [of 2 CONFIRMED] by (simp add: fresh_ids_def)
  ultimately obtain m db' where run: "with_session ?env run_overdue_booking_job (sample_db CONFIRMED) = (Inr m, db')"
    and "tells BOOKING_OVERDUE (\<lambda>b. b_status b = CONFIRMED \<and> b_end_time b < env_py_now ?env)
       (sample_db CONFIRMED) m db'"
    using overdue_job_exact [of "sample_db CONFIRMED" ?env] by auto
  then have "has_notification db' (UUID 2) (UUID 10) BOOKING_OVERDUE"
    by (auto simp: tells_def participant_def sample_defs)
  with run show ?thesis by blast
qed

end
