(* ===== verification/Scheduler.thy ===== *)
theory Scheduler
  imports Jobs
begin

text \<open>
  \<open>app/jobs/scheduler.py\<close> and the lifespan of \<open>app/main.py\<close>: the in-process scheduler. Its methods
  run on one event loop, so a step lasts from one suspension point to the next: \<open>start\<close> is
  one step, \<open>stop\<close> is two (before and after \<open>await self._task\<close>), and the loop coroutine is resumed at
  its start or after its sleep. Tasks are numbered in the order of their creation and stay in the
  list when they are done.
\<close>

section \<open>State\<close>

datatype phase = Created | Sleeping | Finished

record task =
  t_phase :: phase
  t_cancelled :: bool  \<comment> \<open>\<open>cancel()\<close> was called\<close>

text \<open>\<open>awaiting\<close>: the tasks that suspended calls of \<open>stop\<close> wait for.\<close>

record scheduler =
  sc_task :: "nat option"
  sc_running :: bool
  tasks :: "task list"
  awaiting :: "nat list"
  sc_db :: database

definition new_scheduler :: "database \<Rightarrow> scheduler" where
  "new_scheduler db = \<lparr>sc_task = None, sc_running = False, tasks = [], awaiting = [], sc_db = db\<rparr>"

definition task_done :: "scheduler \<Rightarrow> nat \<Rightarrow> bool" where
  "task_done s i \<longleftrightarrow> i < length (tasks s) \<longrightarrow> t_phase (tasks s ! i) = Finished"

definition is_running :: "scheduler \<Rightarrow> bool" where
  "is_running s \<longleftrightarrow> sc_running s \<and> (case sc_task s of None \<Rightarrow> False | Some i \<Rightarrow> \<not> task_done s i)"

section \<open>Jobs\<close>

text \<open>
  \<open>_run_single_job\<close>: a fresh session, closed whatever happens; an exception is logged and dropped.
\<close>

definition run_single_job :: "environment \<Rightarrow> nat service \<Rightarrow> database \<Rightarrow> database" where
  "run_single_job env job db = snd (with_session env job db)"

definition execute_jobs :: "settings \<Rightarrow> environment \<Rightarrow> environment \<Rightarrow> database \<Rightarrow> database" where
  "execute_jobs cfg env1 env2 db =
     run_single_job env2 run_overdue_booking_job (run_single_job env1 (run_booking_reminder_job cfg None) db)"

section \<open>Methods\<close>

text \<open>\<open>start\<close>; \<open>has_loop\<close> is whether an event loop is running in this thread.\<close>

definition start :: "bool \<Rightarrow> scheduler \<Rightarrow> scheduler" where
  "start has_loop s =
     (if is_running s then s
      else if \<not> has_loop then s
      else s\<lparr>sc_running := True, sc_task := Some (length (tasks s)),
             tasks := tasks s @ [\<lparr>t_phase = Created, t_cancelled = False\<rparr>]\<rparr>)"

definition stop_begin :: "scheduler \<Rightarrow> scheduler" where
  "stop_begin s =
     (if \<not> sc_running s \<and> sc_task s = None then s
      else case sc_task s of
        None \<Rightarrow> s\<lparr>sc_running := False\<rparr>
      | Some i \<Rightarrow> s\<lparr>sc_running := False, tasks := (tasks s)[i := (tasks s ! i)\<lparr>t_cancelled := True\<rparr>],
                    awaiting := awaiting s @ [i]\<rparr>)"

text \<open>The \<open>finally\<close> after the await, for the suspended call number \<open>k\<close>.\<close>

definition stop_resume :: "nat \<Rightarrow> scheduler \<Rightarrow> scheduler" where
  "stop_resume k s = s\<lparr>sc_task := None, awaiting := take k (awaiting s) @ drop (Suc k) (awaiting s)\<rparr>"

text \<open>
  \<open>_run_loop\<close> from one suspension to the next. A task cancelled before its first step never
  enters its body; one cancelled in its sleep breaks out of the loop; otherwise the loop condition
  is read, and the two jobs run before the next sleep.
\<close>

definition run_loop_step :: "settings \<Rightarrow> environment \<Rightarrow> environment \<Rightarrow> nat \<Rightarrow> scheduler \<Rightarrow> scheduler" where
  "run_loop_step cfg env1 env2 i s =
     (let t = tasks s ! i in
      if t_phase t = Finished then s
      else if t_cancelled t \<or> \<not> sc_running s then s\<lparr>tasks := (tasks s)[i := t\<lparr>t_phase := Finished\<rparr>]\<rparr>
      else s\<lparr>sc_db := execute_jobs cfg env1 env2 (sc_db s), tasks := (tasks s)[i := t\<lparr>t_phase := Sleeping\<rparr>]\<rparr>)"

text \<open>The lifespan of the application.\<close>

definition lifespan_startup :: "settings \<Rightarrow> bool \<Rightarrow> scheduler \<Rightarrow> scheduler" where
  "lifespan_startup cfg has_loop s = (if BACKGROUND_JOBS_ENABLED cfg then start has_loop s else s)"

definition lifespan_shutdown :: "settings \<Rightarrow> scheduler \<Rightarrow> scheduler" where
  "lifespan_shutdown cfg s = (if BACKGROUND_JOBS_ENABLED cfg then stop_begin s else s)"

section \<open>Steps\<close>

text \<open>
  One step of the event loop. \<open>start\<close> may be called at any time; the flag of the relation says
  whether it may be called while a \<open>stop\<close> is suspended.
\<close>

inductive sched_step :: "settings \<Rightarrow> bool \<Rightarrow> scheduler \<Rightarrow> scheduler \<Rightarrow> bool"
  for cfg :: settings and overlap :: bool where
  start: "overlap \<or> awaiting s = [] \<Longrightarrow> sched_step cfg overlap s (start l s)"
| stop_begin: "sched_step cfg overlap s (stop_begin s)"
| stop_resume: "k < length (awaiting s) \<Longrightarrow> task_done s (awaiting s ! k) \<Longrightarrow>
    sched_step cfg overlap s (stop_resume k s)"
| loop: "i < length (tasks s) \<Longrightarrow> sched_step cfg overlap s (run_loop_step cfg env1 env2 i s)"

inductive_cases sched_stepE: "sched_step cfg overlap s t"

definition live :: "scheduler \<Rightarrow> nat \<Rightarrow> bool" where
  "live s i \<longleftrightarrow> i < length (tasks s) \<and> t_phase (tasks s ! i) \<noteq> Finished \<and> \<not> t_cancelled (tasks s ! i)"

text \<open>The invariant: the only live loop is the one the scheduler holds, and it is not being stopped.\<close>

definition one_loop :: "scheduler \<Rightarrow> bool" where
  "one_loop s \<longleftrightarrow> (\<forall>i. live s i \<longrightarrow> sc_task s = Some i \<and> sc_running s \<and> awaiting s = [])
     \<and> (\<forall>i. sc_task s = Some i \<longrightarrow> i < length (tasks s))"

lemma one_loopD: "one_loop s \<Longrightarrow> live s i \<Longrightarrow> sc_task s = Some i \<and> sc_running s \<and> awaiting s = []"
  by (simp add: one_loop_def)

lemma live_is_running:
  assumes "one_loop s" and "live s i"
  shows "is_running s"
  using one_loopD [OF assms] assms(2) by (simp add: is_running_def task_done_def live_def)

lemma one_loop_start:
  assumes "one_loop s" and "awaiting s = []"
  shows "one_loop (start l s)"
proof (cases "is_running s \<or> \<not> l")
  case True
  with assms show ?thesis by (auto simp: start_def)
next
  case False
  then have s': "start l s = s\<lparr>sc_running := True, sc_task := Some (length (tasks s)),
      tasks := tasks s @ [\<lparr>t_phase = Created, t_cancelled = False\<rparr>]\<rparr>" by (simp add: start_def)
  have "\<not> live s i" for i using live_is_running [OF assms(1)] False by blast
  then have "live (start l s) i \<longleftrightarrow> i = length (tasks s)" for i
    by (auto simp: s' live_def nth_append split: if_splits)
  with assms(2) show ?thesis by (simp add: one_loop_def s')
qed

lemma live_update:
  "live (s\<lparr>tasks := (tasks s)[i := t]\<rparr>) j \<longleftrightarrow>
     (if j = i then i < length (tasks s) \<and> t_phase t \<noteq> Finished \<and> \<not> t_cancelled t else live s j)"
  by (auto simp: live_def nth_list_update)

lemma live_frame [simp]:
  "live (s\<lparr>sc_task := x\<rparr>) i = live s i" "live (s\<lparr>sc_running := b\<rparr>) i = live s i"
  "live (s\<lparr>awaiting := w\<rparr>) i = live s i" "live (s\<lparr>sc_db := d\<rparr>) i = live s i"
  by (simp_all add: live_def)

lemma one_loop_stop_begin:
  assumes "one_loop s"
  shows "one_loop (stop_begin s)"
proof (cases "sc_task s")
  case None
  with assms show ?thesis by (auto simp: stop_begin_def one_loop_def)
next
  case (Some i)
  have "\<not> live (s\<lparr>tasks := (tasks s)[i := (tasks s ! i)\<lparr>t_cancelled := True\<rparr>]\<rparr>) j" for j
    using assms Some by (auto simp: live_update dest: one_loopD)
  then have "\<not> live (stop_begin s) j" for j
    using Some by (simp add: stop_begin_def live_def)
  with assms Some show ?thesis by (simp add: one_loop_def stop_begin_def)
qed

lemma one_loop_stop_resume:
  assumes "one_loop s" and "k < length (awaiting s)"
  shows "one_loop (stop_resume k s)"
proof -
  have "\<not> live s i" for i using assms by (auto dest: one_loopD)
  then show ?thesis by (simp add: one_loop_def stop_resume_def)
qed

lemma one_loop_run:
  assumes "one_loop s"
  shows "one_loop (run_loop_step cfg env1 env2 i s)"
proof -
  have "live s j" if "live (run_loop_step cfg env1 env2 i s) j" for j
    using that by (cases "i = j") (auto simp: run_loop_step_def Let_def live_def split: if_splits)
  moreover have "sc_task (run_loop_step cfg env1 env2 i s) = sc_task s"
    "sc_running (run_loop_step cfg env1 env2 i s) = sc_running s"
    "awaiting (run_loop_step cfg env1 env2 i s) = awaiting s"
    "length (tasks (run_loop_step cfg env1 env2 i s)) = length (tasks s)"
    by (simp_all add: run_loop_step_def Let_def)
  ultimately show ?thesis using assms unfolding one_loop_def by metis
qed

lemma one_loop_step: "sched_step cfg False s t \<Longrightarrow> one_loop s \<Longrightarrow> one_loop t"
  by (elim sched_stepE) (auto intro: one_loop_start one_loop_stop_begin one_loop_stop_resume one_loop_run)

lemma reachable_one_loop:
  assumes "(sched_step cfg False)\<^sup>*\<^sup>* (new_scheduler db) s"
  shows "one_loop s"
  using assms
proof (induction rule: rtranclp_induct)
  case base
  show ?case by (simp add: one_loop_def new_scheduler_def live_def)
qed (rule one_loop_step)

text \<open>
  C29: one scheduler loop. As long as \<open>start\<close> is not called while a \<open>stop\<close> is suspended, whatever the
  order of starts, stops, job runs and wake-ups, at most one loop that is not cancelled is alive, the
  scheduler holds it, and \<open>is_running\<close> says so.
\<close>

theorem scheduler_single_loop:
  assumes "(sched_step cfg False)\<^sup>*\<^sup>* (new_scheduler db) s"
    and "live s i" and "live s j"
  shows "i = j \<and> sc_task s = Some i \<and> is_running s"
proof -
  have one: "one_loop s" using assms(1) by (rule reachable_one_loop)
  from one_loopD [OF one assms(2)] one_loopD [OF one assms(3)] live_is_running [OF one assms(2)]
  show ?thesis by simp
qed


lemma scheduler_single_loop_witness:
  "let s = start True (new_scheduler no_bookings) in live s 0 \<and> sc_task s = Some 0 \<and> is_running s"
proof -
  let ?s = "start True (new_scheduler no_bookings)"
  have run: "(sched_step (default_settings ''k'') False)\<^sup>*\<^sup>* (new_scheduler no_bookings) ?s"
    by (intro r_into_rtranclp sched_step.start) (simp add: new_scheduler_def)
  have "live ?s 0" by (simp add: start_def new_scheduler_def is_running_def live_def)
  with scheduler_single_loop [OF run this this] show ?thesis by (simp add: Let_def)
qed

text \<open>
  A start during a stop leaks a loop. When \<open>start\<close> is called while \<open>stop\<close> still waits for the old
  task, the resumed \<open>stop\<close> forgets the new task, so the scheduler reports that it is not running
  while that loop goes on, and one more \<open>start\<close> gives two live loops.
\<close>

theorem scheduler_restart_leaks:
  "\<exists>s t. (sched_step cfg True)\<^sup>*\<^sup>* (new_scheduler db) s \<and> live s 1 \<and> \<not> is_running s
     \<and> sched_step cfg True s t \<and> live t 1 \<and> live t 2"
proof -
  define s1 where "s1 = start True (new_scheduler db)"
  define s2 where "s2 = stop_begin s1"
  define s3 where "s3 = start True s2"
  define s4 where "s4 = run_loop_step cfg undefined undefined 0 s3"
  define s5 where "s5 = stop_resume 0 s4"
  note defs = new_scheduler_def start_def stop_begin_def stop_resume_def run_loop_step_def is_running_def
    task_done_def live_def Let_def
  have s4: "s4 = \<lparr>sc_task = Some 1, sc_running = True, tasks =
      [\<lparr>t_phase = Finished, t_cancelled = True\<rparr>, \<lparr>t_phase = Created, t_cancelled = False\<rparr>],
      awaiting = [0], sc_db = db\<rparr>"
    by (simp add: s4_def s3_def s2_def s1_def defs)
  have "sched_step cfg True (new_scheduler db) s1" "sched_step cfg True s1 s2" "sched_step cfg True s2 s3"
    by (simp_all add: s1_def s2_def s3_def sched_step.intros)
  moreover have "sched_step cfg True s3 s4"
    unfolding s4_def by (rule sched_step.loop) (simp add: s3_def s2_def s1_def defs)
  moreover have "sched_step cfg True s4 s5"
    unfolding s5_def by (rule sched_step.stop_resume) (simp_all add: s4 task_done_def)
  ultimately have "(sched_step cfg True)\<^sup>*\<^sup>* (new_scheduler db) s5"
    by (meson rtranclp.rtrancl_into_rtrancl rtranclp.rtrancl_refl)
  moreover have "sched_step cfg True s5 (start True s5)" by (simp add: sched_step.start)
  moreover have "live s5 1" "\<not> is_running s5" "live (start True s5) 1" "live (start True s5) 2"
    by (simp_all add: s5_def s4 defs numeral_2_eq_2)
  ultimately show ?thesis by blast
qed

section \<open>Stopping\<close>

text \<open>Events of the loop after a stop: wake-ups of tasks and the end of the stop itself.\<close>

definition quiesced :: "scheduler \<Rightarrow> bool" where
  "quiesced s \<longleftrightarrow> \<not> sc_running s \<and> (\<forall>i. \<not> live s i)"

lemma quiesced_run:
  assumes "quiesced s" and "i < length (tasks s)"
  shows "quiesced (run_loop_step cfg env1 env2 i s)" "sc_db (run_loop_step cfg env1 env2 i s) = sc_db s"
    "task_done (run_loop_step cfg env1 env2 i s) i"
    "task_done s j \<Longrightarrow> task_done (run_loop_step cfg env1 env2 i s) j"
proof -
  have "\<not> live (run_loop_step cfg env1 env2 i s) j" for j
    using assms by (cases "i = j") (auto simp: quiesced_def run_loop_step_def Let_def live_def split: if_splits)
  then show "quiesced (run_loop_step cfg env1 env2 i s)"
    using assms by (auto simp: quiesced_def run_loop_step_def Let_def)
  show "sc_db (run_loop_step cfg env1 env2 i s) = sc_db s"
    using assms by (auto simp: quiesced_def run_loop_step_def Let_def)
  show "task_done (run_loop_step cfg env1 env2 i s) i"
    using assms by (auto simp: quiesced_def run_loop_step_def Let_def task_done_def)
  show "task_done s j \<Longrightarrow> task_done (run_loop_step cfg env1 env2 i s) j"
    using assms by (cases "i = j") (auto simp: quiesced_def run_loop_step_def Let_def task_done_def)
qed

text \<open>\<open>wakeups\<close>: the loop resumes the listed tasks, each with the environments its jobs would see.\<close>

fun wakeups :: "settings \<Rightarrow> (nat \<times> environment \<times> environment) list \<Rightarrow> scheduler \<Rightarrow> scheduler" where
  "wakeups cfg [] s = s"
| "wakeups cfg ((i, env1, env2) # es) s = wakeups cfg es (run_loop_step cfg env1 env2 i s)"

lemma run_loop_length [simp]: "length (tasks (run_loop_step cfg env1 env2 i s)) = length (tasks s)"
  by (simp add: run_loop_step_def Let_def)

lemma quiesced_wakeups:
  assumes "quiesced s" and "\<forall>e \<in> set es. fst e < length (tasks s)"
  shows "quiesced (wakeups cfg es s) \<and> sc_db (wakeups cfg es s) = sc_db s
    \<and> (\<forall>j. task_done s j \<or> j \<in> fst ` set es \<longrightarrow> task_done (wakeups cfg es s) j)"
  using assms
proof (induction es arbitrary: s)
  case (Cons e es)
  obtain i env1 env2 where e: "e = (i, env1, env2)" by (cases e)
  let ?t = "run_loop_step cfg env1 env2 i s"
  have i: "i < length (tasks s)" using Cons.prems(2) e by simp
  note step = quiesced_run [OF Cons.prems(1) i, where cfg = cfg and ?env1.0 = env1 and ?env2.0 = env2]
  have "quiesced (wakeups cfg es ?t) \<and> sc_db (wakeups cfg es ?t) = sc_db ?t
      \<and> (\<forall>j. task_done ?t j \<or> j \<in> fst ` set es \<longrightarrow> task_done (wakeups cfg es ?t) j)"
    using Cons.IH [OF step(1)] Cons.prems(2) by simp
  with step show ?case by (auto simp: e)
qed simp

text \<open>
  C30: stopping the scheduler. From any state reached by starts and stops that do not overlap, once
  \<open>stop\<close> has cancelled the task no wake-up runs a job any more: the database stays as it is, the
  task ends at its next wake-up, so that the waiting \<open>stop\<close> can return, and the scheduler is then
  stopped with no task held.
\<close>

theorem scheduler_stop_quiesces:
  assumes "(sched_step cfg False)\<^sup>*\<^sup>* (new_scheduler db) s" and "sc_task s = Some i"
    and "\<forall>e \<in> set es. fst e < length (tasks s)" and "i \<in> fst ` set es"
  defines "t \<equiv> wakeups cfg es (stop_begin s)"
  shows "sc_db t = sc_db s \<and> task_done t i \<and> \<not> is_running t
    \<and> sc_task (stop_resume k t) = None \<and> (\<forall>j. \<not> live (stop_resume k t) j)"
proof -
  have "one_loop s" using assms(1) by (rule reachable_one_loop)
  then have "one_loop (stop_begin s)" by (rule one_loop_stop_begin)
  moreover have s': "\<not> sc_running (stop_begin s)" "sc_db (stop_begin s) = sc_db s"
      "length (tasks (stop_begin s)) = length (tasks s)"
    using assms(2) by (simp_all add: stop_begin_def)
  ultimately have "quiesced (stop_begin s)" by (auto simp: quiesced_def dest: one_loopD)
  from quiesced_wakeups [OF this, of es cfg] assms(3,4) s'
  have "quiesced t" "sc_db t = sc_db s" "task_done t i" unfolding t_def by auto
  then show ?thesis by (simp add: quiesced_def is_running_def stop_resume_def)
qed

lemma scheduler_stop_quiesces_witness:
  "let s = start True (new_scheduler no_bookings);
       t = wakeups (default_settings ''k'') [(0, sample_env, sample_env)] (stop_begin s)
   in sc_db t = no_bookings \<and> \<not> is_running t"
proof -
  let ?s = "start True (new_scheduler no_bookings)"
  have run: "(sched_step (default_settings ''k'') False)\<^sup>*\<^sup>* (new_scheduler no_bookings) ?s"
    by (intro r_into_rtranclp sched_step.start) (simp add: new_scheduler_def)
  have s: "sc_task ?s = Some 0" "length (tasks ?s) = 1" "sc_db ?s = no_bookings"
    by (simp_all add: start_def new_scheduler_def is_running_def)
  from scheduler_stop_quiesces [OF run s(1), of "[(0, sample_env, sample_env)]"] s(2,3)
  show ?thesis by (simp add: Let_def)
qed

section \<open>Isolation of the jobs\<close>

text \<open>
  A failing job does not stop the other. One round of the scheduler always finishes; it keeps an
  intact database intact; when the reminder job raises, the
  overdue job runs on the database as it was, and when the overdue job raises, what the reminder
  job committed stays.
\<close>

theorem jobs_isolated:
  assumes "integrity db"
  shows "integrity (execute_jobs cfg env1 env2 db)
    \<and> (\<forall>e. fst (with_session env1 (run_booking_reminder_job cfg None) db) = Inl e \<longrightarrow>
         execute_jobs cfg env1 env2 db = snd (with_session env2 run_overdue_booking_job db))
    \<and> (\<forall>m db1 e. with_session env1 (run_booking_reminder_job cfg None) db = (Inr m, db1)
         \<and> fst (with_session env2 run_overdue_booking_job db1) = Inl e \<longrightarrow>
         execute_jobs cfg env1 env2 db = db1)"
proof -
  let ?r = "with_session env1 (run_booking_reminder_job cfg None) db"
  have ok1: "integrity (snd ?r)"
    using reminder_job.integrity_kept [OF prod.collapse [symmetric] assms] .
  have "integrity (execute_jobs cfg env1 env2 db)"
    unfolding execute_jobs_def run_single_job_def
    by (rule overdue_job.integrity_kept [OF prod.collapse [symmetric] ok1])
  moreover have "snd ?r = db" if "fst ?r = Inl e" for e
    using reminder_job.error_unchanged [of env1 cfg None db e "snd ?r"] that by (metis prod.collapse)
  moreover have "snd (with_session env2 run_overdue_booking_job db1) = db1"
    if "fst (with_session env2 run_overdue_booking_job db1) = Inl e" for e db1
    using overdue_job.error_unchanged [of env2 db1 e] that by (metis prod.collapse)
  ultimately show ?thesis by (simp add: execute_jobs_def run_single_job_def)
qed

lemma jobs_isolated_witness:
  "integrity (execute_jobs (default_settings ''k'') sample_env sample_env (sample_db CONFIRMED))"
  by (rule conjunct1 [OF jobs_isolated]) simp

end
