(* ===== verification/System.thy ===== *)
theory System
  imports Routes Scheduler
begin

text \<open>
  The whole back end as one system: any sequence of requests, with any callers, bodies, clocks and
  identifiers, and of rounds of the background jobs, each in its own session. The contract of a
  handler is extended by what it may do to a good database (\<open>lawful_handler\<close>); the booking handlers
  have it through their own contract.
\<close>

section \<open>Good databases and their history\<close>

definition good :: "database \<Rightarrow> bool" where
  "good db \<longleftrightarrow> integrity db \<and> schedule_ok db \<and> reviews_faithful db \<and> emails_ok db"

text \<open>
  What no operation ever takes back: accounts stay as they are, a booking keeps its parties and, once
  final, its status, and no notification disappears.
\<close>

definition history :: "database \<Rightarrow> database \<Rightarrow> bool" where
  "history db db' \<longleftrightarrow>
     prefix (users db) (users db')
     \<and> (\<forall>i b. get_booking db i = Some b \<longrightarrow> (\<exists>b'. get_booking db' i = Some b' \<and> same_party b b'
          \<and> (terminal (b_status b) \<longrightarrow> b_status b' = b_status b)))
     \<and> prefix (map n_id (notifications db)) (map n_id (notifications db'))"

lemma history_refl [simp]: "history db db"
  by (simp add: history_def same_party_def)

lemma history_trans: "history a b \<Longrightarrow> history b c \<Longrightarrow> history a c"
  unfolding history_def by (fastforce simp: same_party_def intro: prefix_order.trans)

lemma history_bookings:
  "bookings db' = bookings db \<Longrightarrow> prefix (users db) (users db')
    \<Longrightarrow> prefix (map n_id (notifications db)) (map n_id (notifications db')) \<Longrightarrow> history db db'"
  by (simp add: history_def get_booking_def same_party_def)

lemma schedule_ok_frame:
  assumes "schedule_ok db" and "bookings db' = bookings db" and "prefix (users db) (users db')"
  shows "schedule_ok db'"
  using assms
  by (fastforce simp: schedule_ok_def no_double_booking_def providers_ok_def dest: set_mono_prefix)

lemma reviews_faithful_frame:
  "reviews_faithful db \<Longrightarrow> bookings db' = bookings db \<Longrightarrow> reviews db' = reviews db \<Longrightarrow> reviews_faithful db'"
  by (simp add: reviews_faithful_def get_booking_def)

lemma emails_ok_frame: "emails_ok db \<Longrightarrow> users db' = users db \<Longrightarrow> emails_ok db'"
  by (simp add: emails_ok_def)

section \<open>Lawful handlers\<close>

locale lawful_handler = atomic_handler h for h :: "'a service" +
  assumes success_lawful: "with_session env h db = (Inr r, db') \<Longrightarrow> good db \<Longrightarrow> good db' \<and> history db db'"
begin

lemma run_lawful:
  assumes "with_session env h db = (r, db')" and "good db"
  shows "good db' \<and> history db db'"
proof (cases r)
  case (Inl e)
  with assms have "db' = db" by (simp add: error_unchanged)
  with assms(2) show ?thesis by simp
qed (use assms success_lawful in simp)

end

text \<open>Bookings: the steps of the schedule.\<close>

lemma booking_step_lawful:
  assumes step: "booking_step ro db db'" and ok: "good db" "integrity db'"
  shows "good db' \<and> history db db'"
proof -
  note frame = booking_step_frame [OF step]
  have "get_booking db i = Some b \<Longrightarrow> \<exists>b'. get_booking db' i = Some b' \<and> same_party b b'
      \<and> (terminal (b_status b) \<longrightarrow> b_status b' = b_status b)" for i b
    using booking_step_evolves [OF step]
    by (fastforce simp: evolves_def status_moved_def terminal_def)
  moreover have "prefix (map n_id (notifications db)) (map n_id (notifications db'))"
    using frame by (auto intro: map_mono_prefix)
  ultimately have "history db db'" using frame by (simp add: history_def)
  moreover have "good db'"
    using ok frame booking_step_schedule [OF step] faithful_booking_step [OF step]
    by (simp add: good_def emails_ok_def)
  ultimately show ?thesis by simp
qed

sublocale booking_handler \<subseteq> lawful_handler h
proof unfold_locales
  fix env db r db'
  assume run: "with_session env h db = (Inr r, db')" and good: "good db"
  then have "integrity db" by (simp add: good_def)
  with run have "booking_step actor db db'" "integrity db'"
    by (rule success_steps, rule integrity_kept)
  then show "good db' \<and> history db db'" using good by (intro booking_step_lawful)
qed


text \<open>Reviews: bookings, accounts and notifications stay.\<close>

lemma only_reviews_lawful:
  assumes "good db" and "integrity db'" and "only_reviews db db'" and "reviews_faithful db'"
  shows "good db' \<and> history db db'"
proof -
  from assms(3) have frame: "users db' = users db" "bookings db' = bookings db" "notifications db' = notifications db"
    by (simp_all add: only_reviews_def)
  with assms have "schedule_ok db'" "emails_ok db'"
    by (auto simp: good_def intro: schedule_ok_frame emails_ok_frame)
  with assms frame show ?thesis by (simp add: good_def history_bookings)
qed

interpretation post_review: lawful_handler "create_review u rin" for u rin
proof unfold_locales
  fix env db r db'
  assume run: "with_session env (create_review u rin) db = (Inr r, db')" and good: "good db"
  from good have ok: "integrity db'" "reviews_faithful db'"
    by (auto simp: good_def intro: post_review.integrity_kept [OF run] faithful_create [OF run])
  moreover have "only_reviews db db'" using create_review_effect [OF run] by blast
  ultimately show "good db' \<and> history db db'" using good by (intro only_reviews_lawful)
qed

interpretation patch_review: lawful_handler "update_review rid upd u" for rid upd u
proof unfold_locales
  fix env db r db'
  assume run: "with_session env (update_review rid upd u) db = (Inr r, db')" and good: "good db"
  from good have ok: "integrity db'" "reviews_faithful db'"
    by (auto simp: good_def intro: patch_review.integrity_kept [OF run] faithful_update [OF run])
  moreover have "only_reviews db db'" using update_review_effect [OF run] by blast
  ultimately show "good db' \<and> history db db'" using good by (intro only_reviews_lawful)
qed

interpretation drop_review: lawful_handler "delete_review rid u" for rid u
proof unfold_locales
  fix env db r db'
  assume run: "with_session env (delete_review rid u) db = (Inr r, db')" and good: "good db"
  from good have ok: "integrity db'" "reviews_faithful db'"
    by (auto simp: good_def intro: drop_review.integrity_kept [OF run] faithful_delete [OF run])
  moreover have "only_reviews db db'" using delete_review_effect [OF run] by (auto simp: only_reviews_def)
  ultimately show "good db' \<and> history db db'" using good by (intro only_reviews_lawful)
qed

text \<open>Accounts: one more row at most.\<close>

lemma register_lawful:
  assumes norm: "email_normal (ur_email rin)"
  shows "lawful_handler (register_user bc salt rin)"
proof unfold_locales
  fix env db u db'
  assume run: "with_session env (register_user bc salt rin) db = (Inr u, db')" and good: "good db"
  then have old: "emails_ok db" "integrity db" by (simp_all add: good_def)
  have "\<exists>h. insert_user (new_user (env_rand env 0) (env_tx_now env) rin h) db = Inr db'"
    using run unfolding register_user_run [OF old norm]
    by (auto simp: Let_def split: if_splits sum.splits)
  then obtain h where ins: "insert_user (new_user (env_rand env 0) (env_tx_now env) rin h) db = Inr db'" ..
  then have rows: "users db' = users db @ [new_user (env_rand env 0) (env_tx_now env) rin h]"
      "bookings db' = bookings db" "reviews db' = reviews db" "notifications db' = notifications db"
    by (auto simp: insert_user_def split: if_splits)
  then have "emails_ok db'" using old(1) norm by (simp add: emails_ok_def new_user_def)
  moreover have "integrity db'" using ins old(2) by (rule insert_user_integrity)
  moreover have "schedule_ok db'" "reviews_faithful db'"
    using good rows by (auto simp: good_def intro: schedule_ok_frame reviews_faithful_frame)
  moreover have "history db db'" using rows by (simp add: history_bookings)
  ultimately show "good db' \<and> history db db'" by (simp add: good_def)
qed

text \<open>Notifications: the other tables stay, and so do the identifiers of the old messages.\<close>

definition only_notes :: "database \<Rightarrow> database \<Rightarrow> bool" where
  "only_notes db db' \<longleftrightarrow> users db' = users db \<and> bookings db' = bookings db \<and> reviews db' = reviews db
     \<and> prefix (map n_id (notifications db)) (map n_id (notifications db'))"

lemma only_notes_lawful:
  assumes "good db" and "integrity db'" and "only_notes db db'"
  shows "good db' \<and> history db db'"
proof -
  from assms(3) have frame: "users db' = users db" "bookings db' = bookings db" "reviews db' = reviews db"
    and ids: "prefix (map n_id (notifications db)) (map n_id (notifications db'))"
    by (simp_all add: only_notes_def)
  from assms(1) frame have "schedule_ok db'" "emails_ok db'" "reviews_faithful db'"
    by (auto simp: good_def intro: schedule_ok_frame emails_ok_frame reviews_faithful_frame)
  with assms(2) frame ids show ?thesis by (simp add: good_def history_bookings)
qed

lemma only_notes_refl [simp]: "only_notes db db"
  by (simp add: only_notes_def)

lemma only_notes_trans: "only_notes a b \<Longrightarrow> only_notes b c \<Longrightarrow> only_notes a c"
  unfolding only_notes_def by (auto intro: prefix_order.trans)

text \<open>Services that write only notifications, seen from the session's start.\<close>

definition notes_session :: "database \<Rightarrow> session \<Rightarrow> bool" where
  "notes_session db s \<longleftrightarrow> only_notes db (txn s) \<and> only_notes db (store s) \<and> pending s = []"

lemma notes_create [keeps_intros]: "keeps (notes_session db) (create_notification uid ty title msg bid)"
proof (rule keepsI)
  fix s
  assume s: "notes_session db s"
  have "only_notes (txn s) d" if "insert_notification_nothing n (txn s) = Inr (x, d)" for n x d
    using that by (auto simp: insert_notification_nothing_def only_notes_def split: if_splits)
  with s show "notes_session db (snd (create_notification uid ty title msg bid s))"
    by (auto simp: notes_session_def create_notification_run Let_def split: sum.split prod.split
        intro: only_notes_trans)
qed

lemma notes_commit [keeps_intros]: "keeps (notes_session db) commit"
  by (auto simp: keeps_def notes_session_def commit_def thenE_def bindE_def flush_def)

lemma notes_jobs:
  "keeps (notes_session db) (run_booking_reminder_job cfg window)"
  "keeps (notes_session db) run_overdue_booking_job"
  unfolding run_booking_reminder_job_def run_overdue_booking_job_def notify_pair_def Let_def
  by (intro keeps_intros)+

lemma notes_lawful:
  assumes h: "atomic_handler h" and only: "\<And>db. keeps (notes_session db) h"
  shows "lawful_handler h"
proof (rule lawful_handler.intro [OF h], unfold_locales)
  fix env db r db'
  assume run: "with_session env h db = (Inr r, db')" and good: "good db"
  then obtain s where s: "h (open_session env db) = (Inr r, s)" "db' = store s"
    by (auto simp: with_session_run)
  have "notes_session db (open_session env db)" by (simp add: notes_session_def)
  from keepsD_run [OF only this s(1)] have "only_notes db db'" by (simp add: notes_session_def s(2))
  moreover have "integrity db'"
    using good by (auto simp: good_def intro: atomic_handler.integrity_kept [OF h run])
  ultimately show "good db' \<and> history db db'" using good by (intro only_notes_lawful)
qed

interpretation reminder_job: lawful_handler "run_booking_reminder_job cfg window" for cfg window
  by (rule notes_lawful [OF reminder_job.atomic_handler_axioms notes_jobs(1)])

interpretation overdue_job: lawful_handler run_overdue_booking_job
  by (rule notes_lawful [OF overdue_job.atomic_handler_axioms notes_jobs(2)])

lemma mark_read_notes: "keeps (notes_session db) (mark_notification_as_read nid uid)"
proof (rule keepsI)
  fix s
  assume s: "notes_session db s"
  have "only_notes (txn s) d" if "update_notification_row n (txn s) = Inr d" for n d
    using that by (auto simp: update_notification_row_def only_notes_def split: option.splits if_splits)
  with s show "notes_session db (snd (mark_notification_as_read nid uid s))"
    by (auto simp: notes_session_def mark_notification_as_read_def db_get_notification_def session_run or_rollback_run
        thenE_commit refreshed_run split: option.splits sum.splits intro: only_notes_trans)
qed

lemma mark_all_notes: "keeps (notes_session db) (mark_all_as_read uid)"
proof (rule keepsI)
  fix s
  assume s: "notes_session db s"
  have "only_notes (txn s) (mark_all_rows uid now (txn s))" for now
    by (simp add: only_notes_def mark_all_rows_def comp_def)
  with s show "notes_session db (snd (mark_all_as_read uid s))"
    by (auto simp: notes_session_def mark_all_run intro: only_notes_trans)
qed

lemma safe_mark_read [safe_intros]: "safe (mark_notification_as_read nid uid)"
proof (rule safeI)
  fix s e t assume "pending s = []" and "mark_notification_as_read nid uid s = (Inl e, t)"
  then show "store t = store s"
    by (auto simp: mark_notification_as_read_def db_get_notification_def session_run or_rollback_run
        thenE_commit refreshed_run update_notification_row_def get_notification_def lookup_by_replace
        split: option.splits sum.splits if_splits)
qed

lemma keeps_mark_all [keeps_intros]: "keeps session_ok (mark_all_as_read uid)"
proof -
  have "keeps session_ok (modifyE (\<lambda>s. s\<lparr>txn := mark_all_rows uid now (txn s)\<rparr>))" for now
    by (simp add: keeps_def session_ok_def mark_all_rows_integrity)
  then show ?thesis
    unfolding mark_all_as_read_def by (intro keeps_intros)
qed

lemma safe_mark_all [safe_intros]: "safe (mark_all_as_read uid)"
  by (auto simp: safe_def mark_all_run)

interpretation read_one: lawful_handler "mark_notification_as_read nid uid" for nid uid
  by (rule notes_lawful [OF _ mark_read_notes], unfold_locales) (intro safe_intros keeps_intros)+

interpretation read_all: lawful_handler "mark_all_as_read uid" for uid
  by (rule notes_lawful [OF _ mark_all_notes], unfold_locales) (intro safe_intros keeps_intros)+

section \<open>Routes\<close>

text \<open>What a route may do, whatever it answers.\<close>

definition lawful_answer :: "environment \<Rightarrow> database \<Rightarrow> failure + 'a \<Rightarrow> database \<Rightarrow> bool" where
  "lawful_answer env db r db' \<longleftrightarrow> (good db \<longrightarrow> good db' \<and> history db db')"

interpretation lawful: route_contract lawful_answer
  by unfold_locales (simp add: lawful_answer_def)

lemma route_return [route_intros]: "upholds lawful_answer (returnE x)"
  by (simp add: upholds_def lawful_answer_def)

lemma route_lawful:
  assumes "lawful_handler h"
  shows "upholds lawful_answer (bindE (liftE h) (\<lambda>x. returnE (f x)))"
proof -
  have "good (store s) \<and> history db (store s)" if "h (open_session env db) = (r, s)" "good db" for env db r s
  proof -
    from that(1) have "with_session env h db = (r, store s)" by (simp add: with_session_run)
    from lawful_handler.run_lawful [OF assms this that(2)] show ?thesis .
  qed
  then show ?thesis by (intro lawful.handler) (simp_all add: lawful_answer_def)
qed

lemma route_quiet [route_intros]:
  assumes "quiet h"
  shows "upholds lawful_answer (bindE (liftE h) (\<lambda>x. returnE (f x)))"
  by (rule lawful.handler) (use quietD [OF assms] in \<open>auto simp: lawful_answer_def\<close>)

lemmas route_handlers [route_intros] =
  route_lawful [OF create.lawful_handler_axioms] route_lawful [OF update.lawful_handler_axioms]
  route_lawful [OF cancel.lawful_handler_axioms] route_lawful [OF delete.lawful_handler_axioms]
  route_lawful [OF post_review.lawful_handler_axioms] route_lawful [OF patch_review.lawful_handler_axioms]
  route_lawful [OF drop_review.lawful_handler_axioms]
  route_lawful [OF read_one.lawful_handler_axioms] route_lawful [OF read_all.lawful_handler_axioms]


lemma quiet_login [quiet_intros]: "quiet (login bc j cfg cred)"
  unfolding login_def by (intro quiet_intros)

lemma auth_router_lawful [route_intros]: "upholds lawful_answer (auth_router app salt tok c)"
proof (cases c)
  case (Register raw)
  have "email_normal (ur_email r)" if "validate_user_register raw = Inr r" for r
    using that by (simp add: validate_user_register_iff email_normal_norm)
  with Register show ?thesis
    by (auto intro!: route_intros route_lawful register_lawful)
qed (auto intro!: route_intros quiet_intros)

lemma quiet_get_review_by_id [quiet_intros]: "quiet (get_review_by_id rid u)"
  unfolding get_review_by_id_def by (intro quiet_intros)

lemma routers_lawful [route_intros]:
  "upholds lawful_answer (bookings_router app tok bc)" "upholds lawful_answer (reviews_router app tok rc)"
  "upholds lawful_answer (providers_router app tok pc)" "upholds lawful_answer (notifications_router app tok nc)"
proof -
  show "upholds lawful_answer (bookings_router app tok bc)"
    by (cases bc) (auto intro!: route_intros quiet_intros)
  show "upholds lawful_answer (reviews_router app tok rc)"
    by (cases rc) (auto intro!: route_intros quiet_intros)
  show "upholds lawful_answer (providers_router app tok pc)"
    by (cases pc) (auto intro!: route_intros quiet_intros)
  show "upholds lawful_answer (notifications_router app tok nc)"
    by (cases nc) (auto intro!: route_intros quiet_intros)
qed

lemma serve_lawful:
  assumes "serve app salt env tok c db = (r, db')" and "good db"
  shows "good db' \<and> history db db'"
proof -
  have "upholds lawful_answer (api_router app salt tok c)" by (cases c) (auto intro: route_intros)
  with assms show ?thesis by (auto simp: serve_def upholds_def lawful_answer_def split: prod.splits)
qed

section \<open>Reachable databases\<close>

text \<open>
  From an initial database, by requests and by rounds of the scheduler, one after the other. Provider
  and administrator accounts come with the initial database: no route creates them.
\<close>

inductive reachable :: "'tok app \<Rightarrow> database \<Rightarrow> database \<Rightarrow> bool" for app :: "'tok app" and db0 :: database where
  initial: "reachable app db0 db0"
| request: "reachable app db0 db \<Longrightarrow> serve app salt env tok c db = (r, db') \<Longrightarrow> reachable app db0 db'"
| jobs: "reachable app db0 db \<Longrightarrow> reachable app db0 (execute_jobs (app_settings app) env1 env2 db)"

lemma execute_jobs_lawful:
  assumes "good db"
  shows "good (execute_jobs cfg env1 env2 db) \<and> history db (execute_jobs cfg env1 env2 db)"
proof -
  let ?d = "run_single_job env1 (run_booking_reminder_job cfg None) db"
  have 1: "good ?d \<and> history db ?d"
    unfolding run_single_job_def using reminder_job.run_lawful [OF prod.collapse [symmetric] assms] .
  moreover have "good (execute_jobs cfg env1 env2 db) \<and> history ?d (execute_jobs cfg env1 env2 db)"
    unfolding execute_jobs_def run_single_job_def [of env2]
    using overdue_job.run_lawful [OF prod.collapse [symmetric] conjunct1 [OF 1]] .
  ultimately show ?thesis using history_trans by blast
qed

lemma reachable_lawful: "reachable app db0 db \<Longrightarrow> good db0 \<Longrightarrow> good db \<and> history db0 db"
proof (induction rule: reachable.induct)
  case (request db salt env tok c r db')
  with serve_lawful show ?case using history_trans by blast
next
  case (jobs db env1 env2)
  with execute_jobs_lawful show ?case using history_trans by blast
qed simp

text \<open>
  C1: the system's invariants. Whatever requests arrive, from whomever and with whatever content, and
  whenever the jobs run, one at a time: the constraints of the models hold, no provider has two
  overlapping bookings that are not cancelled, every booked user is a provider, every review is by
  the customer and about the provider of its completed booking, and every email is in normal form.
\<close>

theorem system_invariants:
  assumes "reachable app db0 db" and "good db0"
  shows "integrity db
    \<and> (\<forall>b \<in> set (bookings db). \<forall>c \<in> set (bookings db).
         b_provider_id b = b_provider_id c \<and> b_status b \<noteq> CANCELLED \<and> b_status c \<noteq> CANCELLED
         \<and> b_start_time b < b_end_time c \<and> b_start_time c < b_end_time b \<longrightarrow> b_id b = b_id c)
    \<and> (\<forall>b \<in> set (bookings db). \<exists>p \<in> set (users db). u_id p = b_provider_id b \<and> u_role p = PROVIDER)
    \<and> (\<forall>r \<in> set (reviews db). \<exists>b. get_booking db (r_booking_id r) = Some b \<and> b_status b = COMPLETED
         \<and> r_customer_id r = b_customer_id b \<and> r_provider_id r = b_provider_id b)
    \<and> (\<forall>u \<in> set (users db). py_lower (py_strip (u_email u)) = u_email u)"
proof -
  have "good db" using reachable_lawful [OF assms] by simp
  then have parts: "integrity db" "no_double_booking db" "providers_ok db" "reviews_faithful db" "emails_ok db"
    by (simp_all add: good_def schedule_ok_def)
  show ?thesis
    by (intro conjI parts(1) parts(2) [unfolded no_double_booking_def clash_def active_def, simplified]
        parts(3) [unfolded providers_ok_def] parts(4) [unfolded reviews_faithful_def]
        parts(5) [unfolded emails_ok_def email_normal_def])
qed

text \<open>
  C2: nothing is taken back. Along any such run every account of the start is still there unchanged
  and in its place, every booking still belongs to the same two people, a completed or cancelled one
  stays so for ever, and no notification is lost.
\<close>

theorem system_history:
  assumes "reachable app db0 db" and "good db0"
  shows "take (length (users db0)) (users db) = users db0
    \<and> (\<forall>i b. get_booking db0 i = Some b \<longrightarrow> (\<exists>b'. get_booking db i = Some b'
         \<and> b_customer_id b' = b_customer_id b \<and> b_provider_id b' = b_provider_id b
         \<and> (b_status b \<in> {COMPLETED, CANCELLED} \<longrightarrow> b_status b' = b_status b)))
    \<and> n_id ` set (notifications db0) \<subseteq> n_id ` set (notifications db)"
proof -
  from reachable_lawful [OF assms] have h: "history db0 db" by simp
  then have "take (length (users db0)) (users db) = users db0"
    by (auto simp: history_def prefix_def)
  moreover have "n_id ` set (notifications db0) \<subseteq> n_id ` set (notifications db)"
    using h by (metis history_def list.set_map set_mono_prefix)
  ultimately show ?thesis
    using h by (fastforce simp: history_def same_party_def terminal_def)
qed

definition sample_app :: "(claims \<times> string \<times> string) app" where
  "sample_app = \<lparr>app_settings = default_settings ''k'', app_bcrypt = plain_bcrypt, app_jwt = plain_jwt,
     app_collate = map of_char, app_constraint = (\<lambda>f. None)\<rparr>"


lemma sample_good [simp]: "good (sample_db st)"
proof -
  have "schedule_ok (sample_db st)"
    by (simp add: schedule_ok_def no_double_booking_def providers_ok_def) (simp add: sample_defs)
  moreover have "reviews_faithful (sample_db st)" by (simp add: reviews_faithful_def)
  moreover have "emails_ok (sample_db st)"
    by (rule emails_ok_frame [OF sample_emails]) (simp add: sample_db_def)
  ultimately show ?thesis by (simp add: good_def)
qed

lemma system_invariants_witness:
  "let db = snd (serve sample_app [] sample_env None (Auth (Register sample_registration))
              (execute_jobs (app_settings sample_app) sample_env sample_env (sample_db CONFIRMED)))
   in integrity db \<and> (\<forall>u \<in> set (users db). py_lower (py_strip (u_email u)) = u_email u)"
proof -
  let ?jobs = "execute_jobs (app_settings sample_app) sample_env sample_env (sample_db CONFIRMED)"
  have "reachable sample_app (sample_db CONFIRMED) ?jobs"
    by (rule reachable.jobs [OF reachable.initial])
  then have "reachable sample_app (sample_db CONFIRMED)
      (snd (serve sample_app [] sample_env None (Auth (Register sample_registration)) ?jobs))"
    by (rule reachable.request [OF _ prod.collapse [symmetric]])
  from system_invariants [OF this sample_good] show ?thesis
    unfolding Let_def by (elim conjE) (intro conjI; assumption)
qed

lemma system_history_witness:
  "\<exists>b. get_booking (snd (serve sample_app [] sample_env None (Bookings (CancelBooking (UUID 10))) (sample_db COMPLETED)))
      (UUID 10) = Some b \<and> b_status b = COMPLETED \<and> b_customer_id b = UUID 1"
proof -
  have run: "reachable sample_app (sample_db COMPLETED)
      (snd (serve sample_app [] sample_env None (Bookings (CancelBooking (UUID 10))) (sample_db COMPLETED)))"
    by (rule reachable.request [OF reachable.initial prod.collapse [symmetric]])
  have "b_customer_id (sample_booking COMPLETED) = UUID 1" by (simp add: sample_booking_def)
  with system_history [OF run sample_good, THEN conjunct2, THEN conjunct1, rule_format, OF sample_rows(1)]
  show ?thesis by auto
qed

end
