(* ===== verification/Access.thy ===== *)
theory Access
  imports System
begin

text \<open>
  Who gets an answer at all: authentication comes first on every route but registration and login, and
  a request that is refused, or only reads, leaves the database as it was.
\<close>

section \<open>Authentication\<close>

definition public_call :: "call \<Rightarrow> bool" where
  "public_call c \<longleftrightarrow> (\<exists>raw. c = Auth (Register raw)) \<or> (\<exists>raw. c = Auth (Login raw))"

lemma protected_route:
  assumes "\<not> public_call c"
  shows "\<exists>k. api_router app salt tok c = bindE (caller app tok) k"
proof (cases c)
  case (Auth a)
  with assms show ?thesis by (cases a) (auto simp: public_call_def)
next
  case (Bookings b)
  then show ?thesis by (cases b) auto
next
  case (Reviews r)
  then show ?thesis by (cases r) auto
next
  case (Providers p)
  then show ?thesis by (cases p) auto
next
  case (Notifications n)
  then show ?thesis by (cases n) auto
qed

text \<open>The bearer token spells the identifier of this account, at the request's clock.\<close>

definition token_names :: "'tok app \<Rightarrow> environment \<Rightarrow> 'tok option \<Rightarrow> user \<Rightarrow> bool" where
  "token_names app env tok u \<longleftrightarrow> (\<exists>t c subject. tok = Some t
     \<and> decode_access_token (app_jwt app) (app_settings app) (env_py_now env) t = Inr c
     \<and> cl_sub c = Some subject \<and> uuid_parse subject = Some (u_id u))"

lemma current_user_named:
  assumes "fst (get_current_user (app_jwt app) (app_settings app) tok (open_session env db)) = Inr u"
  shows "u \<in> set (users db) \<and> token_names app env tok u"
proof -
  have "get_user db i = Some u \<Longrightarrow> u_id u = i \<and> u \<in> set (users db)" for i
    by (auto simp: get_user_def dest: lookup_by_Some)
  with assms show ?thesis
    by (auto simp: get_current_user_def session_run unauthorized_def db_get_user_def token_names_def
        split: option.splits sum.splits if_splits)
qed

text \<open>
  No access without a valid token. On every route but registration and login, when the token is
  missing, invalid, expired, or names no stored account, the answer is 401 with the
  \<open>WWW-Authenticate\<close> challenge, whatever the request holds, and the database is untouched.
\<close>

lemma unauthenticated_refused:
  assumes "\<not> public_call c" and "\<forall>u \<in> set (users db). \<not> token_names app env tok u"
  shows "\<exists>msg. serve app salt env tok c db =
    (Inl (Raised (HTTPException 401 msg [(''WWW-Authenticate'', ''Bearer'')])), db)"
proof -
  obtain k where k: "api_router app salt tok c = bindE (caller app tok) k"
    using protected_route [OF assms(1)] by blast
  let ?r = "fst (get_current_user (app_jwt app) (app_settings app) tok (open_session env db))"
  show ?thesis
  proof (cases ?r)
    case (Inl e)
    from current_user_refusal [OF this] obtain msg where "e = HTTPException 401 msg bearer" ..
    with Inl show ?thesis by (simp add: serve_def k caller_run bearer_def)
  next
    case (Inr u)
    from current_user_named [OF this] assms(2) show ?thesis by blast
  qed
qed

section \<open>Failures and reads\<close>

text \<open>A failed route has changed nothing; a quiet one never writes.\<close>

definition safe_answer :: "environment \<Rightarrow> database \<Rightarrow> failure + 'a \<Rightarrow> database \<Rightarrow> bool" where
  "safe_answer env db r db' \<longleftrightarrow> (\<forall>f. r = Inl f \<longrightarrow> db' = db)"

definition quiet_answer :: "environment \<Rightarrow> database \<Rightarrow> failure + 'a \<Rightarrow> database \<Rightarrow> bool" where
  "quiet_answer env db r db' \<longleftrightarrow> db' = db"

interpretation safe: route_contract safe_answer
  by unfold_locales (simp add: safe_answer_def)

interpretation quiet: route_contract quiet_answer
  by unfold_locales (simp add: quiet_answer_def)

lemma quiet_safe_route: "upholds quiet_answer m \<Longrightarrow> upholds safe_answer m"
  by (simp add: upholds_def quiet_answer_def safe_answer_def)

lemma quiet_route_return [route_intros]: "upholds quiet_answer (returnE x)"
  by (simp add: upholds_def quiet_answer_def)

lemma safe_route_lift [route_intros]:
  assumes "safe h"
  shows "upholds safe_answer (bindE (liftE h) (\<lambda>x. returnE (f x)))"
  by (rule safe.handler) (use safeD [OF assms, of "open_session env db" for env db] in \<open>auto simp: safe_answer_def\<close>)

lemma quiet_route_lift [route_intros]:
  assumes "quiet h"
  shows "upholds quiet_answer (bindE (liftE h) (\<lambda>x. returnE (f x)))"
  by (rule quiet.handler) (use quietD [OF assms] in \<open>auto simp: quiet_answer_def\<close>)

text \<open>The calls that only read: every GET.\<close>

fun read_call :: "call \<Rightarrow> bool" where
  "read_call (Auth c) = (c = GetMe)"
| "read_call (Bookings c) = (case c of ListBookings _ _ _ \<Rightarrow> True | GetBooking _ \<Rightarrow> True | _ \<Rightarrow> False)"
| "read_call (Reviews c) = (case c of ListReviews _ _ _ _ \<Rightarrow> True | GetReview _ \<Rightarrow> True | _ \<Rightarrow> False)"
| "read_call (Providers c) = True"
| "read_call (Notifications c) = (case c of ListNotifications _ _ _ \<Rightarrow> True | _ \<Rightarrow> False)"

lemma quiet_reads:
  assumes "read_call c"
  shows "upholds quiet_answer (api_router app salt tok c)"
proof (cases c)
  case (Auth a)
  with assms show ?thesis by (auto intro!: route_intros quiet_intros)
next
  case (Bookings b)
  with assms show ?thesis by (cases b) (auto intro!: route_intros quiet_intros)
next
  case (Reviews r)
  with assms show ?thesis by (cases r) (auto intro!: route_intros quiet_intros)
next
  case (Providers p)
  then show ?thesis by (cases p) (auto intro!: route_intros quiet_intros)
next
  case (Notifications n)
  with assms show ?thesis by (cases n) (auto intro!: route_intros quiet_intros)
qed

lemma safe_calls: "upholds safe_answer (api_router app salt tok c)"
proof (cases "read_call c")
  case True
  then show ?thesis by (intro quiet_safe_route quiet_reads)
next
  case False
  show ?thesis
  proof (cases c)
    case (Auth a)
    with False show ?thesis by (cases a) (auto intro!: route_intros safe_intros safe_quiet quiet_intros)
  next
    case (Bookings b)
    with False show ?thesis by (cases b) (auto intro!: route_intros safe_intros)
  next
    case (Reviews r)
    with False show ?thesis by (cases r) (auto intro!: route_intros safe_intros)
  next
    case (Notifications n)
    with False show ?thesis by (cases n) (auto intro!: route_intros safe_intros)
  qed (use False in simp)
qed



end
