(* ===== verification/Answers.thy ===== *)
theory Answers
  imports Access
begin

text \<open>
  What a successful answer shows: the rows of \<open>BookingResponse\<close>, \<open>ReviewResponse\<close> and
  \<open>NotificationResponse\<close> that reach a caller are those he takes part in, through every route.
\<close>

section \<open>What may be shown\<close>

definition takes_part :: "user \<Rightarrow> uuid \<Rightarrow> uuid \<Rightarrow> bool" where
  "takes_part u customer provider \<longleftrightarrow> u_role u = ADMIN \<or> u_id u = customer \<or> u_id u = provider"

definition sees_user :: "user \<Rightarrow> database \<Rightarrow> user_response \<Rightarrow> bool" where
  "sees_user u db x \<longleftrightarrow> (\<exists>v \<in> set (users db). x = user_response_of v \<and> (v = u \<or> u_role v = PROVIDER))"

definition sees_note :: "user \<Rightarrow> database \<Rightarrow> notification_response \<Rightarrow> bool" where
  "sees_note u db x \<longleftrightarrow> (\<exists>n \<in> set (notifications db). x = notification_response_of n \<and> n_user_id n = u_id u)"

fun shown_to :: "user \<Rightarrow> database \<Rightarrow> 'tok reply \<Rightarrow> bool" where
  "shown_to u db (BookingOut b) = takes_part u (b_customer_id b) (b_provider_id b)"
| "shown_to u db (BookingsOut bs) = (\<forall>b \<in> set bs. takes_part u (b_customer_id b) (b_provider_id b))"
| "shown_to u db (ReviewOut r) = takes_part u (r_customer_id r) (r_provider_id r)"
| "shown_to u db (ReviewsOut rs) = (\<forall>r \<in> set rs. takes_part u (r_customer_id r) (r_provider_id r))"
| "shown_to u db (NotificationOut n) = sees_note u db n"
| "shown_to u db (NotificationsOut ns) = (\<forall>n \<in> set ns. sees_note u db n)"
| "shown_to u db (UserOut x) = sees_user u db x"
| "shown_to u db (UsersOut xs) = (\<forall>x \<in> set xs. sees_user u db x)"
| "shown_to u db (TokenOut t ty) = False"
| "shown_to u db (AvailabilityOut a) = True"
| "shown_to u db (SummaryOut a) = True"
| "shown_to u db (MarkedOut msg k) = True"
| "shown_to u db NoContent = True"

definition shown_answer :: "user \<Rightarrow> environment \<Rightarrow> database \<Rightarrow> failure + int \<times> 'tok reply \<Rightarrow> database \<Rightarrow> bool" where
  "shown_answer u env db r db' \<longleftrightarrow> (u \<in> set (users db) \<longrightarrow> (\<forall>n x. r = Inr (n, x) \<longrightarrow> shown_to u db' x))"

interpretation shown: route_contract "shown_answer u" for u
  by unfold_locales (simp add: shown_answer_def)

lemma shown_return [route_intros]:
  "(\<And>db. u \<in> set (users db) \<Longrightarrow> shown_to u db x) \<Longrightarrow> upholds (shown_answer u) (returnE (n, x))"
  by (simp add: upholds_def shown_answer_def)

lemma shown_read:
  "(\<And>db. u \<in> set (users db) \<Longrightarrow> shown_to u db (g (f db)))
    \<Longrightarrow> upholds (shown_answer u) (bindE (liftE (select_rows c f)) (\<lambda>x. returnE (n, g x)))"
  by (simp add: upholds_def shown_answer_def lift_return_run select_rows_run)

lemma shown_handler:
  assumes "\<And>env db x db'. with_session env h db = (Inr x, db') \<Longrightarrow> u \<in> set (users db) \<Longrightarrow> shown_to u db' (g x)"
  shows "upholds (shown_answer u) (bindE (liftE h) (\<lambda>x. returnE (n, g x)))"
proof -
  have "shown_to u (store t) (g x)" if "h (open_session env db) = (Inr x, t)" "u \<in> set (users db)" for env db x t
    using assms [OF iffD2 [OF with_session_run]] that by blast
  then show ?thesis by (intro shown.handler) (simp_all add: shown_answer_def)
qed

section \<open>What the handlers return\<close>

lemma may_modify_takes_part: "may_modify u b \<Longrightarrow> takes_part u (b_customer_id b) (b_provider_id b)"
  by (auto simp: may_modify_def takes_part_def)

lemma save_booking_result:
  assumes "save_booking b s = (Inr r, t)" and "pending s = []"
  shows "same_booking b r"
  using assms by (auto simp: save_booking_run split: sum.splits dest: update_row_get)

lemma update_booking_saves:
  assumes run: "with_session env (update_booking bid upd u) db = (Inr r, db')"
  obtains b b2 s t where "get_booking db bid = Some b" "may_modify u b"
    "b_customer_id b2 = b_customer_id b" "b_provider_id b2 = b_provider_id b" "pending s = []"
    "save_booking (rename_service upd b2) s = (Inr r, t)" "db' = store t"
proof -
  let ?s = "open_session env db"
  from run obtain t' where h: "update_booking bid upd u ?s = (Inr r, t')" and db': "db' = store t'"
    by (auto simp: with_session_run)
  from h obtain b where get: "get_booking db bid = Some b"
    by (auto simp: update_booking_def db_get_booking_def bindE_readE split: option.splits)
  with h have may: "may_modify u b" and live: "\<not> terminal (b_status b)"
    by (auto simp: update_booking_def db_get_booking_def session_run terminal_def thenE_def bindE_def
        split: if_splits option.splits prod.splits sum.splits)
  with h get obtain b1 t1 b2 t2 where
      1: "update_status u upd b ?s = (Inr b1, t1)" and 2: "reschedule upd b1 t1 = (Inr b2, t2)"
      and 3: "save_booking (rename_service upd b2) t2 = (Inr r, t')"
    by (auto simp: update_booking_def db_get_booking_def session_run terminal_def elim!: bindE_InrE)
  from update_status_Inr [OF 1 live] reschedule_Inr [OF 2]
  have "b_customer_id b2 = b_customer_id b" "b_provider_id b2 = b_provider_id b" "pending t2 = []"
    by (auto simp: notified_def)
  with get may 3 db' show thesis by (intro that)
qed

lemma cancel_booking_saves:
  assumes run: "with_session env (cancel_booking bid u) db = (Inr r, db')"
  obtains b s t where "get_booking db bid = Some b" "may_modify u b" "pending s = []"
    "save_booking (b\<lparr>b_status := CANCELLED\<rparr>) s = (Inr r, t)" "db' = store t"
proof -
  let ?s = "open_session env db"
  from run obtain t' where "cancel_booking bid u ?s = (Inr r, t')" and db': "db' = store t'"
    by (auto simp: with_session_run)
  then obtain b t t1 where 0: "get_booking_by_id bid u ?s = (Inr b, t)"
      and n: "notify_cancellation (b\<lparr>b_status := CANCELLED\<rparr>) u t = (Inr (), t1)"
      and s: "save_booking (b\<lparr>b_status := CANCELLED\<rparr>) t1 = (Inr r, t')"
    unfolding cancel_booking_def Let_def by (elim bindE_InrE thenE_InrE) (auto simp: checkE_Inr)
  from get_booking_by_id_Inr [OF 0] notify_cancellation_Inr [OF n]
  have "get_booking db bid = Some b" "may_modify u b" "pending t1 = []" by (auto simp: notified_def)
  with s db' show thesis by (intro that)
qed

lemma update_booking_result:
  assumes "with_session env (update_booking bid upd u) db = (Inr r, db')"
  shows "takes_part u (b_customer_id r) (b_provider_id r)"
proof -
  from assms obtain b b2 s t where b: "may_modify u b" "b_customer_id b2 = b_customer_id b"
      "b_provider_id b2 = b_provider_id b" and saved: "save_booking (rename_service upd b2) s = (Inr r, t)" "pending s = []"
    by (rule update_booking_saves)
  from save_booking_result [OF saved] same_booking_fields
  have "b_customer_id r = b_customer_id b2" "b_provider_id r = b_provider_id b2"
    by (auto simp: rename_service_def split: option.splits)
  with may_modify_takes_part [OF b(1)] b show ?thesis by simp
qed

lemma cancel_booking_result:
  assumes "with_session env (cancel_booking bid u) db = (Inr r, db')"
  shows "takes_part u (b_customer_id r) (b_provider_id r)"
proof -
  from assms obtain b s t where "may_modify u b"
      and saved: "save_booking (b\<lparr>b_status := CANCELLED\<rparr>) s = (Inr r, t)" "pending s = []"
    by (rule cancel_booking_saves)
  with save_booking_result [OF saved] same_booking_fields may_modify_takes_part [of u b] show ?thesis by auto
qed

lemma create_booking_result:
  assumes "with_session env (create_booking (u_id u) b) db = (Inr r, db')"
  shows "takes_part u (b_customer_id r) (b_provider_id r)"
  using create_booking_effect [OF assms] by (simp add: takes_part_def)

lemma get_booking_result:
  assumes "with_session env (get_booking_by_id bid u) db = (Inr r, db')"
  shows "takes_part u (b_customer_id r) (b_provider_id r)"
  using assms by (auto simp: with_session_run dest!: get_booking_by_id_Inr intro: may_modify_takes_part)

lemma same_review_fields: "same_review a b \<Longrightarrow> r_customer_id b = r_customer_id a \<and> r_provider_id b = r_provider_id a"
  by (cases a; cases b) (simp add: same_review_def)

lemma update_review_result:
  assumes "with_session env (update_review rid upd u) db = (Inr x, db')"
  shows "takes_part u (r_customer_id x) (r_provider_id x)"
proof -
  let ?s = "open_session env db"
  from assms obtain t r where "r_customer_id r = u_id u" and save: "save_review (edit_review upd r) ?s = (Inr x, t)"
    by (auto simp: with_session_run update_review_def db_get_review_def session_run split: option.splits if_splits)
  moreover from save have "same_review (edit_review upd r) x"
    by (auto simp: save_review_run split: sum.splits dest: review_table.get_upd_same)
  from same_review_fields [OF this] have "r_customer_id x = r_customer_id r" by simp
  ultimately show ?thesis by (simp add: takes_part_def)
qed

lemma create_review_result:
  assumes "with_session env (create_review u rin) db = (Inr x, db')"
  shows "takes_part u (r_customer_id x) (r_provider_id x)"
  using create_review_effect [OF assms] by (auto simp: takes_part_def)

lemma get_review_result:
  assumes "with_session env (get_review_by_id rid u) db = (Inr x, db')"
  shows "takes_part u (r_customer_id x) (r_provider_id x)"
  using assms by (auto simp: with_session_run get_review_by_id_def db_get_review_def session_run takes_part_def
      split: option.splits if_splits)

lemma get_provider_result:
  assumes "with_session env (get_provider_by_id pid) db = (Inr v, db')"
  shows "v \<in> set (users db') \<and> u_role v = PROVIDER"
  using assms by (auto simp: with_session_run get_provider_by_id_def db_get_user_def session_run get_user_def
      split: option.splits if_splits dest: lookup_by_Some)

lemma mark_read_result:
  assumes "with_session env (mark_notification_as_read nid uid) db = (Inr n, db')"
  shows "n \<in> set (notifications db') \<and> n_user_id n = uid"
  using assms by (auto simp: with_session_run mark_notification_as_read_def db_get_notification_def session_run
      or_rollback_run thenE_commit refreshed_run update_notification_row_def get_notification_def lookup_by_replace
      split: option.splits sum.splits if_splits dest: lookup_by_Some)

lemma list_bookings_part:
  "b \<in> set (list_bookings db u st skip limit) \<Longrightarrow> takes_part u (b_customer_id b) (b_provider_id b)"
  using set_paginate
  by (fastforce simp: list_bookings_def Let_def takes_part_def split: user_role.splits option.splits)

lemma list_reviews_part:
  "r \<in> set (list_reviews db u p k skip limit) \<Longrightarrow> takes_part u (r_customer_id r) (r_provider_id r)"
  using set_paginate
  by (fastforce simp: list_reviews_def Let_def takes_part_def order_by_desc_def split: user_role.splits option.splits)

section \<open>The routes\<close>

lemma shown_booking [route_intros]:
  "upholds (shown_answer u) (bindE (liftE (create_booking (u_id u) b)) (\<lambda>x. returnE (n, BookingOut x)))"
  "upholds (shown_answer u) (bindE (liftE (get_booking_by_id bid u)) (\<lambda>x. returnE (n, BookingOut x)))"
  "upholds (shown_answer u) (bindE (liftE (update_booking bid upd u)) (\<lambda>x. returnE (n, BookingOut x)))"
  "upholds (shown_answer u) (bindE (liftE (cancel_booking bid u)) (\<lambda>x. returnE (n, BookingOut x)))"
  by (rule shown_handler, unfold shown_to.simps,
      erule create_booking_result get_booking_result update_booking_result cancel_booking_result)+

lemma shown_review [route_intros]:
  "upholds (shown_answer u) (bindE (liftE (create_review u rin)) (\<lambda>x. returnE (n, ReviewOut x)))"
  "upholds (shown_answer u) (bindE (liftE (get_review_by_id rid u)) (\<lambda>x. returnE (n, ReviewOut x)))"
  "upholds (shown_answer u) (bindE (liftE (update_review rid rupd u)) (\<lambda>x. returnE (n, ReviewOut x)))"
  by (rule shown_handler, unfold shown_to.simps,
      erule create_review_result get_review_result update_review_result)+

lemma shown_account [route_intros]:
  "upholds (shown_answer u) (bindE (liftE (get_provider_by_id pid)) (\<lambda>v. returnE (n, UserOut (user_response_of v))))"
  by (rule shown_handler) (auto simp: sees_user_def dest!: get_provider_result)

lemma shown_marked [route_intros]:
  "upholds (shown_answer u) (bindE (liftE (mark_notification_as_read nid (u_id u)))
     (\<lambda>x. returnE (n, NotificationOut (notification_response_of x))))"
  by (rule shown_handler) (auto simp: sees_note_def dest!: mark_read_result)

text \<open>Answers that show no row.\<close>

lemma shown_rowless [route_intros]:
  "upholds (shown_answer u) (bindE (liftE h1) (\<lambda>x. returnE (n, NoContent)))"
  "upholds (shown_answer u) (bindE (liftE h2) (\<lambda>a. returnE (n, AvailabilityOut a)))"
  "upholds (shown_answer u) (bindE (liftE h3) (\<lambda>a. returnE (n, SummaryOut a)))"
  "upholds (shown_answer u) (bindE (liftE h4) (\<lambda>k. returnE (n, MarkedOut msg k)))"
  by (rule shown_handler, simp)+

lemma shown_lists [route_intros]:
  "upholds (shown_answer u) (bindE (liftE (select_rows c (\<lambda>db. list_bookings db u st k l))) (\<lambda>x. returnE (n, BookingsOut x)))"
  "upholds (shown_answer u) (bindE (liftE (select_rows c (\<lambda>db. list_reviews db u p r k l))) (\<lambda>x. returnE (n, ReviewsOut x)))"
  "upholds (shown_answer u) (bindE (liftE (select_rows c (\<lambda>db. list_notifications db (u_id u) k l only)))
     (\<lambda>x. returnE (n, NotificationsOut (map notification_response_of x))))"
  "upholds (shown_answer u) (bindE (liftE (select_rows c (\<lambda>db. list_providers co db q k l)))
     (\<lambda>x. returnE (n, UsersOut (map user_response_of x))))"
  by (rule shown_read, simp add: list_bookings_part list_reviews_part,
      (auto simp: sees_note_def sees_user_def dest!: list_notifications_set list_providers_set)?)+

text \<open>A route that resolves its caller first.\<close>

definition shows_own :: "'tok app \<Rightarrow> 'tok option \<Rightarrow> (int \<times> 'tok reply) route \<Rightarrow> bool" where
  "shows_own app tok m \<longleftrightarrow> (\<forall>env db n x s. m (open_session env db) = (Inr (n, x), s) \<longrightarrow>
     (\<exists>u \<in> set (users db). token_names app env tok u \<and> shown_to u (store s) x))"

lemma caller_shown:
  assumes "\<And>u. upholds (shown_answer u) (k u)"
  shows "shows_own app tok (bindE (caller app tok) k)"
  unfolding shows_own_def
proof (intro allI impI)
  fix env db n x s
  assume run: "bindE (caller app tok) k (open_session env db) = (Inr (n, x), s)"
  then obtain u where u: "fst (get_current_user (app_jwt app) (app_settings app) tok (open_session env db)) = Inr u"
    and k: "k u (open_session env db) = (Inr (n, x), s)"
    by (auto simp: caller_run split: sum.splits)
  from upholdsD [OF assms k] current_user_named [OF u]
  show "\<exists>u \<in> set (users db). token_names app env tok u \<and> shown_to u (store s) x"
    by (auto simp: shown_answer_def)
qed

lemma shown_me: "upholds (shown_answer u) (returnE (n, UserOut (user_response_of u)))"
  by (auto simp: sees_user_def intro!: route_intros)

lemma routes_show_own:
  assumes "\<not> public_call c"
  shows "shows_own app tok (api_router app salt tok c)"
proof (cases c)
  case (Auth a)
  with assms show ?thesis by (cases a) (auto simp: public_call_def intro!: caller_shown shown_me)
next
  case (Bookings b)
  then show ?thesis by (cases b) (auto intro!: caller_shown route_intros)
next
  case (Reviews r)
  then show ?thesis by (cases r) (auto intro!: caller_shown route_intros)
next
  case (Providers p)
  then show ?thesis by (cases p) (auto intro!: caller_shown route_intros)
next
  case (Notifications n)
  then show ?thesis by (cases n) (auto intro!: caller_shown route_intros)
qed

text \<open>
  C11: answers are private. Whatever a route other than registration and login answers with success,
  the token named a stored account, and the answer shows only what that account may see: bookings and
  reviews it is the customer or the provider of (or any, for an administrator), its own notifications,
  its own profile and the profiles of providers, never a credential.
\<close>

theorem private_answers:
  assumes "\<not> public_call c" and "serve app salt env tok c db = (Inr (n, x), db')"
  shows "\<exists>u \<in> set (users db). token_names app env tok u \<and> shown_to u db' x"
proof -
  from assms(2) obtain s where "api_router app salt tok c (open_session env db) = (Inr (n, x), s)" "db' = store s"
    by (auto simp: serve_def split: prod.splits)
  with routes_show_own [OF assms(1), of app tok salt] show ?thesis by (auto simp: shows_own_def)
qed

text \<open>A valid token of Ada's, an hour into the sample day.\<close>

definition ada_token :: "claims \<times> string \<times> string" where
  "ada_token = create_access_token plain_jwt (default_settings ''k'') (hour 1) (uuid_str (UUID 1)) None"

lemma ada_token_decodes:
  "\<exists>c. decode_access_token plain_jwt (default_settings ''k'') (hour 1) ada_token = Inr c
     \<and> cl_sub c = Some (uuid_str (UUID 1))"
  unfolding ada_token_def
  by (rule decode_issued) (simp_all add: default_settings_def hour_def microseconds_def minutes_def)

lemma ada_signed_in:
  assumes "get_user db (UUID 1) = Some ada"
  shows "get_current_user plain_jwt (default_settings ''k'') (Some ada_token) (open_session sample_env db)
    = (Inr ada, open_session sample_env db)"
proof -
  have "env_py_now sample_env = hour 1" by (simp add: sample_env_def)
  with ada_token_decodes assms uuid_str_ne show ?thesis
    by (auto simp: get_current_user_def session_run db_get_user_def uuid_parse_str)
qed

lemma ada_stored [simp]: "get_user (sample_db st) (UUID 1) = Some ada"
  by (simp add: get_user_def lookup_by_def sample_defs)

lemma private_answers_witness:
  "\<exists>u \<in> set (users (sample_db PENDING)). token_names sample_app sample_env (Some ada_token) u
     \<and> takes_part u (b_customer_id (sample_booking PENDING)) (b_provider_id (sample_booking PENDING))"
proof -
  have "serve sample_app [] sample_env (Some ada_token) (Bookings (GetBooking (UUID 10))) (sample_db PENDING)
      = (Inr (200, BookingOut (sample_booking PENDING)), sample_db PENDING)"
    by (simp add: serve_def caller_run sample_app_def ada_signed_in lift_return_run get_booking_by_id_def
        db_get_booking_def session_run) (simp add: sample_defs lift_return_run get_booking_by_id_def)
  from private_answers [OF _ this] show ?thesis by (simp add: public_call_def)
qed

end
