(* ===== verification/Robustness.thy ===== *)
theory Robustness
  imports Answers
begin

text \<open>
  No internal errors: on a database that satisfies its constraints, with fresh identifiers, every
  handler behind a login either succeeds or refuses with a client error, so that the fallback of
  \<open>unhandled_exception_handler\<close> is not reached. Registration is apart: bcrypt may refuse a password.
\<close>

section \<open>Client errors\<close>

definition client_error :: "exn \<Rightarrow> bool" where
  "client_error e \<longleftrightarrow> (\<exists>code msg hs. e = HTTPException code msg hs \<and> code \<in> {400, 401, 403, 404, 409, 422})"

lemma client_error_simps [simp]:
  "client_error (HTTPException code msg hs) \<longleftrightarrow> code \<in> {400, 401, 403, 404, 409, 422}"
  "\<not> client_error (DBError d)" "\<not> client_error (ValueError m)"
  by (auto simp: client_error_def)

text \<open>A handler that gives only client errors where the session is sound.\<close>

definition clean :: "'a service \<Rightarrow> bool" where
  "clean h \<longleftrightarrow> (\<forall>env db e t. integrity db \<longrightarrow> fresh_ids 2 env db \<longrightarrow>
     h (open_session env db) = (Inl e, t) \<longrightarrow> client_error e)"

lemma cleanI:
  "(\<And>env db e t. integrity db \<Longrightarrow> fresh_ids 2 env db \<Longrightarrow> h (open_session env db) = (Inl e, t) \<Longrightarrow> client_error e)
    \<Longrightarrow> clean h"
  by (simp add: clean_def)

lemma cleanD:
  "clean h \<Longrightarrow> integrity db \<Longrightarrow> fresh_ids 2 env db \<Longrightarrow> h (open_session env db) = (Inl e, t) \<Longrightarrow> client_error e"
  by (simp add: clean_def)

lemma get_booking_row:
  assumes "integrity db" and "get_booking db i = Some b"
  shows "b_id b = i" "booking_checks db b" "booking_sized b" "has_booking db i"
proof -
  from assms(2) have "b \<in> set (bookings db)" "b_id b = i" by (auto simp: get_booking_def dest: lookup_by_Some)
  with assms show "b_id b = i" "booking_checks db b" "booking_sized b" "has_booking db i"
    by (auto simp: integrity_def bookings_ok_def get_booking_has)
qed

section \<open>Handlers\<close>

lemma clean_create:
  assumes caller: "has_user db cid" and ok: "integrity db" and fresh: "fresh_ids 2 env db"
    and range: "bc_start_time b < bc_end_time b" and sized: "pg_string 255 (bc_service_name b)"
    and run: "create_booking cid b (open_session env db) = (Inl e, t)"
  shows "client_error e"
proof (cases "create_booking_checks cid b (open_session env db)")
  case (Pair r s)
  show ?thesis
  proof (cases r)
    case (Inl f)
    with Pair run have "e = f" by (simp add: create_booking_def thenE_def bindE_def)
    moreover from Pair Inl have "client_error f"
      by (auto simp: create_booking_checks_def db_get_user_def session_run check_provider_conflict_def
          split: option.splits if_splits)
    ultimately show ?thesis by simp
  next
    case (Inr x)
    with Pair obtain p where p: "s = open_session env db" "cid \<noteq> bc_provider_id b"
        "get_user db (bc_provider_id b) = Some p"
      by (auto simp: create_booking_checks_Inr)
    from create_booking_granted [OF ok fresh caller range sized p(3) p(2)] Pair Inr p(1) run
    show ?thesis by (simp add: create_booking_def thenE_def bindE_def Let_def)
  qed
qed

lemma clean_get_booking: "clean (get_booking_by_id bid u)"
  by (rule cleanI)
    (auto simp: get_booking_by_id_def db_get_booking_def session_run split: option.splits if_splits)

lemma validate_status_client: "validate_status_transition a b r = Inl e \<Longrightarrow> client_error e"
  by (auto simp: validate_status_transition_def split: if_splits)

lemma cancelling_succeeds:
  assumes "integrity db" and "fresh_ids 2 env db" and "get_booking db bid = Some b" and "\<not> terminal (b_status b)"
  obtains x t1 r t where
    "notify_cancellation (b\<lparr>b_status := CANCELLED\<rparr>) u (open_session env db) = (Inr x, t1)"
    "save_booking (b\<lparr>b_status := CANCELLED\<rparr>) t1 = (Inr r, t)" "pending t1 = []"
proof -
  from assms(4) have "b_status b \<noteq> CANCELLED" by auto
  from notify_then_save_run [OF assms(1-3) this, of u] obtain t where
    "thenE (notify_cancellation (b\<lparr>b_status := CANCELLED\<rparr>) u) (save_booking (b\<lparr>b_status := CANCELLED\<rparr>))
      (open_session env db) = (Inr (b\<lparr>b_status := CANCELLED, b_updated_at := env_tx_now env\<rparr>), t)" by blast
  then obtain x t1 where n: "notify_cancellation (b\<lparr>b_status := CANCELLED\<rparr>) u (open_session env db) = (Inr x, t1)"
      and "save_booking (b\<lparr>b_status := CANCELLED\<rparr>) t1 = (Inr (b\<lparr>b_status := CANCELLED, b_updated_at := env_tx_now env\<rparr>), t)"
    by (rule thenE_InrE)
  moreover from notify_cancellation_Inr [OF n] have "pending t1 = []" by (simp add: notified_def)
  ultimately show thesis by (rule that)
qed

lemma clean_cancel: "clean (cancel_booking bid u)"
proof (rule cleanI)
  fix env db e t
  assume ok: "integrity db" and fresh: "fresh_ids 2 env db"
    and run: "cancel_booking bid u (open_session env db) = (Inl e, t)"
  let ?s = "open_session env db"
  obtain r s where g: "get_booking_by_id bid u ?s = (r, s)" by (rule prod.exhaust)
  show "client_error e"
  proof (cases r)
    case (Inl f)
    with g run have "e = f" by (simp add: cancel_booking_def bindE_def)
    with cleanD [OF clean_get_booking ok fresh g [unfolded Inl]] show ?thesis by simp
  next
    case (Inr b)
    from get_booking_by_id_Inr [OF g [unfolded Inr]] have s: "s = ?s" and get: "get_booking db bid = Some b"
      by auto
    show ?thesis
    proof (cases "validate_status_transition (b_status b) CANCELLED (u_role u)")
      case (Inl f)
      with g Inr run have "e = f" by (simp add: cancel_booking_def bindE_def thenE_def checkE_def)
      with validate_status_client [OF Inl] show ?thesis by simp
    next
      case v: (Inr y)
      then have "\<not> terminal (b_status b)" by (simp add: validate_ok_iff)
      with get ok fresh obtain x t1 r' t' where
        "notify_cancellation (b\<lparr>b_status := CANCELLED\<rparr>) u ?s = (Inr x, t1)"
        "save_booking (b\<lparr>b_status := CANCELLED\<rparr>) t1 = (Inr r', t')"
        by (rule_tac cancelling_succeeds)
      with g Inr s v run show ?thesis
        by (simp add: cancel_booking_def bindE_def thenE_def checkE_def Let_def)
    qed
  qed
qed

lemma clean_delete: "clean (delete_booking bid u)"
proof (rule cleanI)
  fix env db e t
  assume ok: "integrity db" and fresh: "fresh_ids 2 env db"
    and run: "delete_booking bid u (open_session env db) = (Inl e, t)"
  let ?s = "open_session env db"
  show "client_error e"
  proof (cases "get_booking db bid")
    case None
    with run show ?thesis by (auto simp: delete_booking_def db_get_booking_def session_run)
  next
    case (Some b)
    show ?thesis
    proof (cases "u_role u \<noteq> PROVIDER \<and> (u_role u = CUSTOMER \<longrightarrow> b_customer_id b = u_id u) \<and> b_status b = PENDING")
      case False
      with Some run show ?thesis
        by (cases "b_status b") (auto simp: delete_booking_def db_get_booking_def session_run split: if_splits)
    next
      case True
      then have "\<not> terminal (b_status b)" by simp
      with ok fresh Some obtain x t1 r' t' where
        n: "notify_cancellation (b\<lparr>b_status := CANCELLED\<rparr>) u ?s = (Inr x, t1)"
        and "save_booking (b\<lparr>b_status := CANCELLED\<rparr>) t1 = (Inr r', t')" "pending t1 = []"
        by (rule cancelling_succeeds)
      with commit_like_save have "thenE (add_pending (SaveBooking (b\<lparr>b_status := CANCELLED\<rparr>))) (or_rollback commit) t1
          = (Inr (), t')" by blast
      with True Some run n show ?thesis
        by (auto simp: delete_booking_def db_get_booking_def session_run Let_def thenE_run)
    qed
  qed
qed

lemma checkE_then: "thenE (checkE r) k s = (case r of Inl e \<Rightarrow> (Inl e, s) | Inr x \<Rightarrow> k s)"
  by (simp add: thenE_def bindE_def checkE_def split: sum.split)

lemma clean_update_status:
  assumes ok: "integrity db" and fresh: "fresh_ids 2 env db" and get: "get_booking db bid = Some b"
    and run: "update_status u upd b (open_session env db) = (Inl e, t)"
  shows "client_error e"
proof -
  let ?s = "open_session env db"
  note row = get_booking_row [OF ok get]
  then have users: "has_user db (b_customer_id b)" by (simp add: booking_checks_def)
  from run obtain st where st: "bu_status upd = Some st" "st \<noteq> b_status b"
    by (auto simp: update_status_def split: option.splits if_splits)
  show ?thesis
  proof (cases "validate_status_transition (b_status b) st (u_role u)")
    case (Inl f)
    with run st have "e = f" by (simp add: update_status_def checkE_then)
    with validate_status_client [OF Inl] show ?thesis by simp
  next
    case (Inr x)
    then have live: "\<not> terminal (b_status b)" by (simp add: validate_ok_iff)
    from cancelling_succeeds [OF ok fresh get live, of u] obtain y t1 where
      "notify_cancellation (b\<lparr>b_status := CANCELLED\<rparr>) u ?s = (Inr y, t1)" by blast
    with run st Inr users row fresh_idsD [OF fresh, of 0] show ?thesis
      by (cases st)
        (auto simp: update_status_def checkE_then Let_def thenE_run told_run)
  qed
qed

lemma conflict_then: "thenE (check_provider_conflict pid a z ex) k s =
    (if is_provider_available (txn s) pid a z ex then k s
     else (Inl (http 409 ''Provider has an overlapping booking for the requested time slot''), s))"
  by (simp add: check_provider_conflict_def thenE_def bindE_def readE_def raise_if_apply)

lemma clean_reschedule: "reschedule upd b s = (Inl e, t) \<Longrightarrow> client_error e"
  by (auto simp: reschedule_def Let_def session_run conflict_then split: if_splits option.splits)

lemma clean_update:
  assumes sized: "\<forall>nm. bu_service_name upd = Some nm \<longrightarrow> pg_string 255 nm"
  shows "clean (update_booking bid upd u)"
proof (rule cleanI)
  fix env db e t
  assume ok: "integrity db" and fresh: "fresh_ids 2 env db"
    and run: "update_booking bid upd u (open_session env db) = (Inl e, t)"
  let ?s = "open_session env db"
  show "client_error e"
  proof (cases "get_booking db bid")
    case None
    with run show ?thesis by (auto simp: update_booking_def db_get_booking_def session_run)
  next
    case (Some b)
    note row = get_booking_row [OF ok Some]
    show ?thesis
    proof (cases "may_modify u b \<and> \<not> terminal (b_status b)")
      case False
      with Some run show ?thesis
        by (auto simp: update_booking_def db_get_booking_def session_run terminal_def checkE_then thenE_def bindE_def
            raise_if_apply checkE_def split: if_splits option.splits sum.splits dest!: validate_status_client)
    next
      case True
      then have run: "bindE (update_status u upd b) (\<lambda>b1. bindE (reschedule upd b1) (\<lambda>b2.
          save_booking (rename_service upd b2))) ?s = (Inl e, t)"
        using Some run by (auto simp: update_booking_def db_get_booking_def session_run terminal_def)
      obtain r1 t1 where 1: "update_status u upd b ?s = (r1, t1)" by (rule prod.exhaust)
      show ?thesis
      proof (cases r1)
        case (Inl f)
        with run 1 clean_update_status [OF ok fresh Some] show ?thesis by (simp add: bindE_def)
      next
        case b1: (Inr b1)
        obtain r2 t2 where 2: "reschedule upd b1 t1 = (r2, t2)" by (rule prod.exhaust)
        show ?thesis
        proof (cases r2)
          case (Inl f)
          with run 1 2 b1 clean_reschedule show ?thesis by (simp add: bindE_def)
        next
          case b2: (Inr b2)
          from update_status_Inr [OF 1 [unfolded b1]] True reschedule_Inr [OF 2 [unfolded b2]]
          have n: "grows db (txn t2)" "pending t2 = []" and moved: "time_moved (txn t1) b1 b2"
            and b2_rows: "\<exists>st a z. b2 = b\<lparr>b_status := st, b_start_time := a, b_end_time := z\<rparr>"
            and b1_rows: "\<exists>st. b1 = b\<lparr>b_status := st\<rparr>"
            by (auto simp: notified_def)
          let ?b = "rename_service upd b2"
          from b2_rows b1_rows moved row(1,2) n have "booking_checks (txn t2) ?b"
            by (auto simp: booking_checks_def rename_service_def time_moved_def grows_def has_user_def
                split: option.splits)
          moreover from b2_rows row(3) sized have "booking_sized ?b"
            by (auto simp: booking_sized_def rename_service_def split: option.splits)
          moreover from b2_rows row(1) have "b_id ?b = bid" by (auto simp: rename_service_def split: option.splits)
          then have "get_booking (txn t2) (b_id ?b) = Some b" using Some get_booking_grows [OF n(1)] by simp
          ultimately have "\<exists>d. update_booking_row (tx_now t2) ?b (txn t2) = Inr d"
            by (simp add: update_booking_row_def)
          then obtain d where "update_booking_row (tx_now t2) ?b (txn t2) = Inr d" ..
          with n(2) have "\<exists>x t'. save_booking ?b t2 = (Inr x, t')" by (simp add: save_booking_run)
          with run 1 2 b1 b2 show ?thesis by (auto simp: bindE_def)
        qed
      qed
    qed
  qed
qed

text \<open>Reviews and notifications.\<close>

lemma clean_create_review:
  assumes plain: "comment_ok (rc_comment rin)"
  shows "clean (create_review u rin)"
proof (rule cleanI)
  fix env db e t
  assume "create_review u rin (open_session env db) = (Inl e, t)"
  moreover have "persist_review u b rin (open_session env db) = (Inl e, t) \<Longrightarrow> client_error e" for b
    using plain
    by (auto simp: persist_review_run Let_def insert_review_def review_conflict_def split: sum.splits if_splits)
  ultimately show "client_error e"
    by (auto simp: create_review_def db_get_booking_def session_run review_conflict_def Let_def
        split: option.splits if_splits)
qed

lemma clean_get_review: "clean (get_review_by_id rid u)"
  by (rule cleanI) (auto simp: get_review_by_id_def db_get_review_def session_run split: option.splits if_splits)

lemma clean_update_review:
  assumes range: "\<forall>k. ru_rating upd = Some k \<longrightarrow> 1 \<le> k \<and> k \<le> 5" and plain: "comment_ok (ru_comment upd)"
  shows "clean (update_review rid upd u)"
proof (rule cleanI)
  fix env db e t
  assume ok: "integrity db" and run: "update_review rid upd u (open_session env db) = (Inl e, t)"
  let ?s = "open_session env db"
  have saved: "save_review (edit_review upd r) ?s \<noteq> (Inl e, t)" if r: "get_review db rid = Some r" for r
  proof -
    from get_review_Some [OF r] ok have "r_id r = rid" and row: "1 \<le> r_rating r \<and> r_rating r \<le> 5" "comment_ok (r_comment r)"
      by (auto simp: integrity_def reviews_ok_def review_checks_def)
    from row(2) plain have edited: "comment_ok (r_comment (edit_review upd r))"
      by (auto simp: edit_review_comment comment_ok_def split: option.splits)
    from row(1) range have "1 \<le> r_rating (edit_review upd r)" "r_rating (edit_review upd r) \<le> 5"
      by (auto simp: edit_review_rating split: option.split)
    with update_review_row_intact [OF ok, of "edit_review upd r" r "env_tx_now env"] edited r \<open>r_id r = rid\<close>
    show ?thesis by (simp add: save_review_run)
  qed
  with run show "client_error e"
    by (auto simp: update_review_def db_get_review_def session_run split: option.splits if_splits)
qed

lemma clean_delete_review: "clean (delete_review rid u)"
proof (rule cleanI)
  fix env db e t
  assume run: "delete_review rid u (open_session env db) = (Inl e, t)"
  show "client_error e"
  proof (cases "get_review db rid")
    case None
    with run show ?thesis by (auto simp: delete_review_def db_get_review_def session_run)
  next
    case (Some r)
    from delete_review_run [OF Some, of u env] Some run show ?thesis
      by (auto simp: with_session_def delete_review_def db_get_review_def session_run split: if_splits prod.splits)
  qed
qed

lemma clean_mark_all: "clean (mark_all_as_read uid)"
  by (rule cleanI) (simp add: mark_all_run)

lemma clean_mark_one: "clean (mark_notification_as_read nid uid)"
proof (rule cleanI)
  fix env db e t
  assume ok: "integrity db" and run: "mark_notification_as_read nid uid (open_session env db) = (Inl e, t)"
  have saved: "\<exists>d. update_notification_row (n\<lparr>n_is_read := True, n_read_at := Some now\<rparr>) db = Inr d
      \<and> get_notification d nid \<noteq> None"
    if n: "get_notification db nid = Some n" for n now
  proof -
    let ?n = "n\<lparr>n_is_read := True, n_read_at := Some now\<rparr>"
    from n have mem: "n \<in> set (notifications db)" "n_id n = nid"
      by (auto simp: get_notification_def dest: lookup_by_Some)
    with ok have "notification_sized ?n" "notification_checks db ?n"
      by (auto simp: integrity_def notifications_ok_def notification_sized_def notification_checks_def)
    moreover have "\<not> (\<exists>m \<in> set (notifications db). n_id m \<noteq> n_id ?n \<and> same_notification_key m ?n)"
      using ok mem by (auto simp: integrity_def notifications_ok_def same_notification_key_def)
    ultimately show ?thesis using n mem(2)
      by (auto simp: update_notification_row_def get_notification_def lookup_by_replace)
  qed
  show "client_error e"
  proof (cases "get_notification db nid")
    case None
    with run show ?thesis
      by (auto simp: mark_notification_as_read_def db_get_notification_def session_run)
  next
    case (Some n)
    with saved [OF Some, of "env_py_now env"] run show ?thesis
      by (auto simp: mark_notification_as_read_def db_get_notification_def session_run or_rollback_run
          thenE_commit refreshed_run split: if_splits)
  qed
qed

text \<open>Reads.\<close>

lemma clean_select: "fits \<Longrightarrow> clean (select_rows fits q)"
  by (rule cleanI) (simp add: select_rows_run)

lemma clean_get_provider: "clean (get_provider_by_id pid)"
  by (rule cleanI) (auto simp: get_provider_by_id_def db_get_user_def session_run split: option.splits if_splits)

lemma clean_availability:
  assumes "a < z"
  shows "clean (check_provider_availability pid a z)"
proof (rule cleanI)
  fix env db e t
  assume ok: "integrity db" "fresh_ids 2 env db" and "check_provider_availability pid a z (open_session env db) = (Inl e, t)"
  with assms have "\<exists>t. get_provider_by_id pid (open_session env db) = (Inl e, t)"
    by (auto simp: check_provider_availability_def thenE_def bindE_def readE_def availability_response_def raise_if_apply
        returnE_def split: prod.splits sum.splits)
  with cleanD [OF clean_get_provider ok] show "client_error e" by blast
qed

lemma clean_summary: "clean (get_provider_review_summary pid)"
  by (rule cleanI)
    (auto simp: get_provider_review_summary_def get_provider_by_id_def db_get_user_def session_run
      split: option.splits if_splits)

section \<open>Routes\<close>

definition clean_answer :: "user \<Rightarrow> environment \<Rightarrow> database \<Rightarrow> failure + int \<times> 'tok reply \<Rightarrow> database \<Rightarrow> bool" where
  "clean_answer u env db r db' \<longleftrightarrow> (integrity db \<and> fresh_ids 2 env db \<and> u \<in> set (users db) \<longrightarrow>
     (\<forall>e. r = Inl (Raised e) \<longrightarrow> client_error e) \<and> (\<forall>e. r \<noteq> Inl (RaisedApp e)))"

interpretation clean: route_contract "clean_answer u" for u
  by unfold_locales (auto simp: clean_answer_def early_refusal_def)

lemma clean_handler [route_intros]:
  assumes "clean h"
  shows "upholds (clean_answer u) (bindE (liftE h) (\<lambda>x. returnE (f x)))"
  using cleanD [OF assms]
  by (auto simp: upholds_def clean_answer_def lift_return_run split: prod.splits sum.splits)

lemma clean_return [route_intros]: "upholds (clean_answer u) (returnE x)"
  by (simp add: upholds_def clean_answer_def)

lemma clean_create_route:
  assumes "pg_text (bcb_service_name raw)"
  shows "upholds (clean_answer u) (bindE (validE app place (validate_booking_create raw)) (\<lambda>b.
    bindE (liftE (create_booking (u_id u) b)) (\<lambda>x. returnE (f x))))"
proof (rule clean.valid)
  fix b assume "validate_booking_create raw = Inr b"
  with assms have b: "bc_start_time b < bc_end_time b" "pg_string 255 (bc_service_name b)"
    by (auto simp: validate_booking_create_iff pg_string_def)
  have "client_error e" if "integrity db" "fresh_ids 2 env db" "u \<in> set (users db)"
      "create_booking (u_id u) b (open_session env db) = (Inl e, t)" for env db e t
    using clean_create [OF _ that(1,2) b that(4)] that(3) by (simp add: has_user_def)
  then show "upholds (clean_answer u) (bindE (liftE (create_booking (u_id u) b)) (\<lambda>x. returnE (f x)))"
    by (auto simp: upholds_def clean_answer_def lift_return_run split: prod.splits sum.splits)
qed

lemma clean_update_route:
  assumes "comment_ok (bub_service_name raw)"
  shows "upholds (clean_answer u) (bindE (validE app place (validate_booking_update raw)) (\<lambda>upd.
    bindE (liftE (update_booking bid upd u)) (\<lambda>x. returnE (f x))))"
  by (rule clean.valid, rule clean_handler, rule clean_update)
    (use assms in \<open>auto simp: validate_booking_update_def Let_def comment_ok_def pg_string_def if_given_def str_between_def
      split: if_splits option.splits\<close>)

lemma clean_review_route:
  assumes "comment_ok (ru_comment raw)"
  shows "upholds (clean_answer u) (bindE (validE app place (validate_review_update raw)) (\<lambda>upd.
    bindE (liftE (update_review rid upd u)) (\<lambda>x. returnE (f x))))"
  by (rule clean.valid, rule clean_handler, rule clean_update_review)
    (use assms in \<open>auto simp: validate_review_update_iff\<close>)

lemma clean_post_route:
  assumes "comment_ok (rc_comment raw)"
  shows "upholds (clean_answer u) (bindE (validE app place (validate_review_create raw)) (\<lambda>rin.
    bindE (liftE (create_review u rin)) (\<lambda>x. returnE (f x))))"
  by (rule clean.valid, rule clean_handler, rule clean_create_review)
    (use assms in \<open>auto simp: validate_review_create_def Let_def split: if_splits\<close>)

text \<open>Parameters of queries.\<close>

definition offset_fits :: "int option \<Rightarrow> bool" where
  "offset_fits skip \<longleftrightarrow> (case skip of None \<Rightarrow> True | Some k \<Rightarrow> k < 2 ^ 63)"

lemma page_offset: "validate_page skip limit = Inr (a, b) \<Longrightarrow> offset_fits skip \<Longrightarrow> pg_bigint a"
  by (auto simp: validate_page_def offset_fits_def pg_bigint_def Let_def nat_less_iff split: if_splits option.splits)

lemma also_valid_Inr: "also_valid errs v = Inr x \<longleftrightarrow> errs = [] \<and> v = Inr x"
  by (auto simp: also_valid_def split: sum.split)

lemma clean_page_route:
  assumes "offset_fits skip" and "\<And>a b. also_valid errs (validate_page skip limit) = Inr (a, b) \<Longrightarrow> pg_bigint a \<Longrightarrow> fits a b"
  shows "upholds (clean_answer u) (bindE (validE app place (also_valid errs (validate_page skip limit))) (\<lambda>(a, b).
    bindE (liftE (select_rows (fits a b) (q a b))) (\<lambda>x. returnE (f x))))"
  by (rule clean.valid, rule clean.pair, rule clean_handler, rule clean_select)
    (use assms in \<open>auto simp: also_valid_Inr dest: page_offset\<close>)

lemma also_valid_Nil: "also_valid [] v = v"
  by (simp add: also_valid_def)

lemmas clean_first_page = clean_page_route [where errs = "[]", unfolded also_valid_Nil]

lemma pg_text_strip: "pg_text s \<Longrightarrow> pg_text (py_strip s)"
  unfolding pg_text_def py_strip_def py_lstrip_def by (auto dest!: set_dropWhileD)

lemma pg_text_lower:
  assumes "pg_text s"
  shows "pg_text (py_lower s)"
proof -
  have "c = CHR 0x00" if "py_lower_char c = CHR 0x00" for c
  proof (rule ccontr)
    assume "c \<noteq> CHR 0x00"
    with that consider "65 \<le> (of_char c :: nat) \<and> (of_char c :: nat) \<le> 90"
      | "192 \<le> (of_char c :: nat) \<and> (of_char c :: nat) \<le> 222"
      by atomize_elim (auto simp: py_lower_char_def Let_def split: if_splits)
    then have "of_char (py_lower_char c) \<noteq> (0 :: nat)"
      by cases (auto simp: py_lower_char_def Let_def of_char_of)
    with that show False by simp
  qed
  with assms show ?thesis by (auto simp: pg_text_def py_lower_def) metis
qed

text \<open>Texts without a NUL and offsets within a \<open>bigint\<close>: what the database can be asked.\<close>

fun fits :: "call \<Rightarrow> bool" where
  "fits (Auth (Login raw)) = pg_text (ul_email raw)"
| "fits (Bookings (CreateBooking raw)) = pg_text (bcb_service_name raw)"
| "fits (Bookings (UpdateBooking i raw)) = comment_ok (bub_service_name raw)"
| "fits (Bookings (ListBookings st skip limit)) = offset_fits skip"
| "fits (Reviews (CreateReview raw)) = comment_ok (rc_comment raw)"
| "fits (Reviews (UpdateReview i raw)) = comment_ok (ru_comment raw)"
| "fits (Reviews (ListReviews p k skip limit)) = offset_fits skip"
| "fits (Providers (ListProviders search skip limit)) = (offset_fits skip \<and> comment_ok search)"
| "fits (Notifications (ListNotifications skip limit only)) = offset_fits skip"
| "fits c = True"

lemma clean_params: "comment_ok t \<Longrightarrow> comment_ok (map_option py_strip t)"
  by (auto simp: comment_ok_def pg_text_strip split: option.splits)

lemmas clean_body_routes = clean_create_route clean_update_route clean_post_route clean_review_route
  clean_first_page clean_page_route

lemmas clean_handlers = clean_get_booking clean_cancel clean_delete clean_get_review
  clean_delete_review clean_mark_all clean_mark_one clean_get_provider clean_availability clean_summary

text \<open>A route that resolves its caller first.\<close>

lemma caller_clean:
  assumes k: "\<And>u. upholds (clean_answer u) (k u)" and ok: "integrity db" "fresh_ids 2 env db"
    and run: "bindE (caller app tok) k (open_session env db) = (Inl f, s)"
  shows "(\<exists>errs. f = Invalid errs) \<or> (\<exists>e. f = Raised e \<and> client_error e)"
proof (cases "fst (get_current_user (app_jwt app) (app_settings app) tok (open_session env db))")
  case (Inl e)
  with run current_user_refusal [OF Inl] show ?thesis by (auto simp: caller_run)
next
  case (Inr u)
  with run have "k u (open_session env db) = (Inl f, s)" by (simp add: caller_run)
  from upholdsD [OF k this] current_user_named [OF Inr] ok show ?thesis
    by (cases f) (auto simp: clean_answer_def)
qed

lemma protected_clean:
  assumes "\<not> public_call c" and fits: "fits c"
  shows "\<exists>k. api_router app salt tok c = bindE (caller app tok) k \<and> (\<forall>u. upholds (clean_answer u) (k u))"
proof (cases c)
  case (Auth a)
  with assms(1) show ?thesis
    by (cases a) (auto simp: public_call_def intro!: exI [of _ "\<lambda>u. returnE (200, UserOut (user_response_of u))"] route_intros)
next
  case (Bookings b)
  with fits show ?thesis
    by (cases b) (simp_all, (rule exI, rule conjI, rule refl, rule allI,
      ((rule clean_body_routes; simp add: clean_params) | auto intro!: route_intros clean_handlers))+)
next
  case (Reviews r)
  with fits show ?thesis
    by (cases r) (simp_all, (rule exI, rule conjI, rule refl, rule allI,
      ((rule clean_body_routes; simp add: clean_params) | auto intro!: route_intros clean_handlers))+)
next
  case (Providers p)
  with fits show ?thesis
    by (cases p) (simp_all, (rule exI, rule conjI, rule refl, rule allI,
      ((rule clean_body_routes; simp add: clean_params) | auto intro!: route_intros clean_handlers))+)
next
  case (Notifications n)
  with fits show ?thesis
    by (cases n) (simp_all, (rule exI, rule conjI, rule refl, rule allI,
      ((rule clean_body_routes; simp add: clean_params) | auto intro!: route_intros clean_handlers))+)
qed

text \<open>Logging in: emails in normal form are unique, so the lookup finds one account or none.\<close>

lemma clean_login:
  assumes "emails_ok db" and "integrity db" and "pg_text (py_lower (py_strip (ul_email cred)))" and "login bc j cfg cred (open_session env db) = (Inl e, t)"
  shows "client_error e"
  using assms get_user_by_email_run [of "open_session env db" "ul_email cred"]
  by (auto simp: login_def authenticate_user_def unauthorized_def bindE_def readE_def returnE_def
      split: option.splits if_splits)

section \<open>Success\<close>

definition ok_answer :: "environment \<Rightarrow> database \<Rightarrow> failure + int \<times> 'tok reply \<Rightarrow> database \<Rightarrow> bool" where
  "ok_answer env db r db' \<longleftrightarrow> (\<forall>n x. r = Inr (n, x) \<longrightarrow> n \<in> {200, 201, 204})"

interpretation success: route_contract ok_answer
  by unfold_locales (simp add: ok_answer_def)

lemma ok_return [route_intros]: "n \<in> {200, 201, 204} \<Longrightarrow> upholds ok_answer (returnE (n, x))"
  by (simp add: upholds_def ok_answer_def)

lemma ok_handler [route_intros]:
  "n \<in> {200, 201, 204} \<Longrightarrow> upholds ok_answer (bindE (liftE h) (\<lambda>x. returnE (n, g x)))"
  by (rule success.handler) (auto simp: ok_answer_def)

lemma ok_login [route_intros]:
  "n \<in> {200, 201, 204} \<Longrightarrow> upholds ok_answer (bindE (validE app place v) (\<lambda>x. bindE (liftE (h x)) (\<lambda>y. returnE (n, g y))))"
  by (rule success.valid) (rule ok_handler)

lemma ok_routes: "upholds ok_answer (api_router app salt tok c)"
proof (cases c)
  case (Auth a)
  then show ?thesis by (cases a) (auto intro!: route_intros)
next
  case (Bookings b)
  then show ?thesis by (cases b) (auto intro!: route_intros)
next
  case (Reviews r)
  then show ?thesis by (cases r) (auto intro!: route_intros)
next
  case (Providers p)
  then show ?thesis by (cases p) (auto intro!: route_intros)
next
  case (Notifications n)
  then show ?thesis by (cases n) (auto intro!: route_intros)
qed

text \<open>
  No internal errors of a call. On a database that satisfies the constraints of the models, with emails in
  normal form and identifiers that are new, every call but a registration is answered with 200, 201 or
  204, or with one of the client errors 400, 401, 403, 404, 409 and 422, whatever it contains: never
  with the 500 of an unhandled exception.
\<close>

lemma no_internal_errors:
  assumes call: "\<forall>raw. c \<noteq> Auth (Register raw)" and fits: "fits c"
    and ok: "integrity db" "emails_ok db" "fresh_ids 2 env db"
  shows "answer_status (fst (serve app salt env tok c db)) \<in> {200, 201, 204, 400, 401, 403, 404, 409, 422}"
proof -
  obtain r s where run: "api_router app salt tok c (open_session env db) = (r, s)" by (rule prod.exhaust)
  have failed: "(\<exists>errs. f = Invalid errs) \<or> (\<exists>e. f = Raised e \<and> client_error e)" if "r = Inl f" for f
  proof (cases "public_call c")
    case True
    with call obtain raw where c: "c = Auth (Login raw)" by (auto simp: public_call_def)
    have plain: "pg_text (py_lower (py_strip (ul_email cred)))" if "validate_user_login raw = Inr cred" for cred
      using that fits
      by (auto simp: c validate_user_login_def Let_def pg_text_lower pg_text_strip split: if_splits)
    from run that have "(\<exists>errs. f = Invalid errs) \<or> (\<exists>e cred t. f = Raised e \<and> validate_user_login raw = Inr cred
        \<and> login (app_bcrypt app) (app_jwt app) (app_settings app) cred (open_session env db) = (Inl e, t))"
      by (cases "validate_user_login raw")
        (auto simp: c validE_def bindE_def liftE_def returnE_def split: prod.splits sum.splits)
    with clean_login [OF ok(2,1) plain] show ?thesis by blast
  next
    case False
    from protected_clean [OF this fits, of app salt tok] obtain k where
      "api_router app salt tok c = bindE (caller app tok) k" "\<And>u. upholds (clean_answer u) (k u)" by blast
    with caller_clean [of k, OF _ ok(1,3)] run that show ?thesis by metis
  qed
  show ?thesis
  proof (cases r)
    case (Inl f)
    from failed [OF this] run Inl show ?thesis
      by (auto simp: serve_def answer_status_def client_error_def validation_exception_handler_def
          http_exception_handler_def)
  next
    case (Inr y)
    from upholdsD [OF ok_routes run] Inr run show ?thesis
      by (cases y) (auto simp: serve_def answer_status_def ok_answer_def)
  qed
qed

end
