(* ===== verification/Races.thy ===== *)
theory Races
  imports Robustness
begin

text \<open>
  Requests that interleave. Under READ COMMITTED a request that has done its checks may find, when it
  writes, what another request has committed in between: its checks ran on one database, its writes
  run on a later one. Nothing of \<open>create_booking\<close> locks what it has read, and no constraint of the
  table forbids overlapping slots; \<open>create_review\<close> is covered by \<open>uq_reviews_booking_id\<close>.
\<close>

section \<open>Bookings\<close>

text \<open>
  C9: simultaneous requests for one slot. Whenever a request is granted and another valid one for an
  overlapping slot of the same provider did its checks before that commit, the other one is granted
  too: both rows are stored, active and overlapping. One after the other, the second would be refused
  with 409.
\<close>

theorem booking_race:
  assumes ok: "integrity db" and first: "with_session env1 (create_booking c1 b1) db = (Inr r1, db1)"
    and checked: "fst (create_booking_checks c2 b2 (open_session env2 db)) = Inr ()"
    and same: "bc_provider_id b1 = bc_provider_id b2"
    and overlap: "bc_start_time b1 < bc_end_time b2" "bc_start_time b2 < bc_end_time b1"
    and valid: "bc_start_time b2 < bc_end_time b2" "pg_string 255 (bc_service_name b2)"
    and caller: "has_user db c2" and fresh: "fresh_ids 2 env2 db1"
  shows "(\<exists>r2 s. create_booking_persist c2 b2 (open_session env2 db1) = (Inr r2, s)
      \<and> {r1, r2} \<subseteq> set (bookings (store s)) \<and> b_id r1 \<noteq> b_id r2
      \<and> b_provider_id r1 = b_provider_id r2 \<and> b_status r1 = PENDING \<and> b_status r2 = PENDING
      \<and> b_start_time r1 < b_end_time r2 \<and> b_start_time r2 < b_end_time r1)
    \<and> with_session env2 (create_booking c2 b2) db1 =
        (Inl (http 409 ''Provider has an overlapping booking for the requested time slot''), db1)"
proof -
  from create_booking_effect [OF first]
  have r1: "r1 = new_booking (env_rand env1 0) (env_tx_now env1) c1 b1"
    and rows: "bookings db1 = bookings db @ [r1]" and step: "booking_step CUSTOMER db db1"
    by auto
  from booking_step_frame [OF step] have users: "users db1 = users db" by simp
  have ok1: "integrity db1" using first ok by (rule create.integrity_kept)
  obtain x s where "create_booking_checks c2 b2 (open_session env2 db) = (Inr x, s)"
    using checked by (metis prod.collapse)
  then obtain p where c2: "c2 \<noteq> bc_provider_id b2" and p: "get_user db (bc_provider_id b2) = Some p" "u_role p = PROVIDER"
    by (auto simp: create_booking_checks_Inr)
  from p users have p1: "get_user db1 (bc_provider_id b2) = Some p" by (simp add: get_user_def)
  from caller users have caller1: "has_user db1 c2" by (simp add: has_user_def)
  let ?r2 = "new_booking (env_rand env2 0) (env_tx_now env2) c2 b2"
  have "b_id r1 \<noteq> b_id ?r2"
    using fresh_idsD(1) [OF fresh, of 0] rows by (auto simp: has_booking_def)
  with create_booking_granted [OF ok1 fresh caller1 valid p1 c2]
  have raced: "\<exists>r2 s. create_booking_persist c2 b2 (open_session env2 db1) = (Inr r2, s)
      \<and> {r1, r2} \<subseteq> set (bookings (store s)) \<and> b_id r1 \<noteq> b_id r2
      \<and> b_provider_id r1 = b_provider_id r2 \<and> b_status r1 = PENDING \<and> b_status r2 = PENDING
      \<and> b_start_time r1 < b_end_time r2 \<and> b_start_time r2 < b_end_time r1"
    using rows r1 same overlap by (simp add: Let_def)
  have "\<not> is_provider_available db1 (bc_provider_id b2) (bc_start_time b2) (bc_end_time b2) None"
    using rows r1 same overlap by (auto simp: is_provider_available_iff conflicts_def)
  with c2 p1 p(2) have "with_session env2 (create_booking c2 b2) db1 =
      (Inl (http 409 ''Provider has an overlapping booking for the requested time slot''), db1)"
    by (simp add: with_session_def create_booking_def create_booking_checks_def db_get_user_def session_run
        check_provider_conflict_def thenE_def bindE_def raise_if_apply readE_def)
  with raced show ?thesis ..
qed

section \<open>Reviews\<close>

text \<open>
  C10: simultaneous reviews of one booking. A review request that did its checks before another one for
  the same booking committed is refused by the constraint when it writes, with the same 409 as in
  sequence, and changes nothing: a booking never gets two reviews.
\<close>

theorem review_race_safe:
  assumes first: "with_session env1 (create_review u1 rin1) db = (Inr r1, db1)"
    and b2: "b_id b = rc_booking_id rin1" and plain: "comment_ok (rc_comment rin2)"
  shows "with_session env2 (persist_review u2 b rin2) db1 =
    (Inl (http 409 ''A review already exists for this booking''), db1)"
proof -
  from create_review_effect [OF first] get_booking_id
  have "r1 \<in> set (reviews db1)" "r_booking_id r1 = b_id b" by (auto simp: b2)
  then have "b_id b \<in> r_booking_id ` set (reviews db1)" by (metis imageI)
  then have "r_booking_id (new_review i now u2 b rin2) \<in> r_booking_id ` set (reviews db1)" for i now
    by (simp add: new_review_def)
  then have "insert_review (new_review i now u2 b rin2) db1 = Inl IntegrityError" for i now
    using plain by (simp add: insert_review_def)
  then show ?thesis
    by (simp add: with_session_def persist_review_run Let_def review_conflict_def)
qed

section \<open>Both at work\<close>

lemma booking_race_witness:
  "\<exists>r1 db1 r2 s. with_session sample_env (create_booking (UUID 1) (sample_request 10 12)) no_bookings = (Inr r1, db1)
     \<and> create_booking_persist (UUID 4) (sample_request 11 13)
         (open_session (sample_env\<lparr>env_rand := \<lambda>n. UUID (200 + of_nat n)\<rparr>) db1) = (Inr r2, s)
     \<and> {r1, r2} \<subseteq> set (bookings (store s)) \<and> b_start_time r1 < b_end_time r2 \<and> b_start_time r2 < b_end_time r1"
proof -
  let ?env = "sample_env\<lparr>env_rand := \<lambda>n. UUID (200 + of_nat n)\<rparr>"
  let ?b1 = "sample_request 10 12" and ?b2 = "sample_request 11 13"
  let ?r1 = "new_booking (env_rand sample_env 0) (env_tx_now sample_env) (UUID 1) ?b1"
  let ?db1 = "no_bookings\<lparr>bookings := [?r1],
      notifications := [booking_note (env_rand sample_env 1) (env_tx_now sample_env) ?r1]\<rparr>"
  have rows: "bookings no_bookings = []" "notifications no_bookings = []" "reviews no_bookings = []"
    "has_user no_bookings (UUID 1)" "has_user no_bookings (UUID 4)"
    "get_user no_bookings (UUID 2) = Some bob" "u_role bob = PROVIDER"
    by (simp_all add: has_user_def get_user_def lookup_by_def sample_defs)
  have req: "bc_provider_id (sample_request a z) = UUID 2" "bc_start_time (sample_request a z) = hour a"
    "bc_end_time (sample_request a z) = hour z" "pg_string 255 (bc_service_name (sample_request a z))" for a z
    by (simp_all add: sample_request_def pg_defs)
  have hours: "hour a < hour z \<longleftrightarrow> a < z" for a z by (simp add: hour_def microseconds_def)
  have checks: "create_booking_checks c (sample_request a z) (open_session env no_bookings) = (Inr (), open_session env no_bookings)"
    if "c \<noteq> UUID 2" for c a z env
    using that rows by (simp add: create_booking_checks_Inr req is_provider_available_iff)
  have first: "with_session sample_env (create_booking (UUID 1) ?b1) no_bookings = (Inr ?r1, ?db1)"
    using create_booking_granted [of no_bookings sample_env "UUID 1" ?b1 bob] rows
    by (simp add: with_session_def create_booking_def thenE_run checks req hours Let_def)
  have "fresh_ids 2 ?env ?db1"
    by (auto simp: fresh_ids_def inj_on_def numeral_2_eq_2 less_Suc_eq booking_note_def)
      (auto simp: sample_defs)
  from booking_race [OF _ first _ _ _ _ _ _ _ this, of "UUID 4" ?b2] rows
  obtain r2 s where "create_booking_persist (UUID 4) ?b2 (open_session ?env ?db1) = (Inr r2, s)"
    "{?r1, r2} \<subseteq> set (bookings (store s))" "b_start_time ?r1 < b_end_time r2" "b_start_time r2 < b_end_time ?r1"
    by (auto simp: checks req hours)
  with first show ?thesis by blast
qed

lemma review_race_safe_witness:
  "\<exists>r1 db1. with_session sample_env (create_review ada sample_rating) (sample_db COMPLETED) = (Inr r1, db1)
     \<and> with_session sample_env (persist_review ada (sample_booking COMPLETED) sample_rating) db1
         = (Inl (http 409 ''A review already exists for this booking''), db1)"
proof -
  let ?r = "new_review (env_rand sample_env 0) (env_tx_now sample_env) ada (sample_booking COMPLETED) sample_rating"
  have rating: "rc_booking_id sample_rating = UUID 10" "rc_rating sample_rating = 5"
    "comment_ok (rc_comment sample_rating)"
    by (simp_all add: sample_rating_def comment_ok_def pg_defs)
  have party: "b_customer_id (sample_booking COMPLETED) = u_id ada" "u_role ada = CUSTOMER" "u_id ada = UUID 1"
    "has_booking (sample_db COMPLETED) (UUID 10)" "has_user (sample_db COMPLETED) (UUID 1)"
    "has_user (sample_db COMPLETED) (b_provider_id (sample_booking COMPLETED))"
    by (simp_all add: has_booking_def has_user_def) (simp_all add: sample_defs)
  then have "insert_review ?r (sample_db COMPLETED) = Inr ((sample_db COMPLETED)\<lparr>reviews := [?r]\<rparr>)"
    by (simp add: insert_review_def review_checks_def rating)
  then have first: "with_session sample_env (create_review ada sample_rating) (sample_db COMPLETED)
      = (Inr ?r, (sample_db COMPLETED)\<lparr>reviews := [?r]\<rparr>)"
    using party
    by (simp add: with_session_def create_review_def db_get_booking_def session_run rating persist_review_run Let_def)
  from review_race_safe [OF first, of "sample_booking COMPLETED" sample_rating sample_env ada] first
  show ?thesis by (simp add: rating)
qed

end
