(* ===== verification/Redis.thy ===== *)
theory Redis
  imports Session
begin

text \<open>
  Redis as \<open>app/core/redis.py\<close> and its callers use it. The server is not part of the program:
  it is a parameter, a record of the four commands the code sends over an unknown state
  \<open>'r\<close>, and \<open>redis_ok\<close> states what their documentation promises. Two interfaces carry
  the clients: \<open>fifo_queue\<close> for the list and \<open>expiring_store\<close> for the keys. Every command can
  fail; the clocks of the server and of the process are part of the client's state.
\<close>

section \<open>A first-in first-out queue\<close>

locale fifo_queue =
  fixes push :: "'m \<Rightarrow> 's \<Rightarrow> 's" and pop :: "'s \<Rightarrow> 'm option \<times> 's" and items :: "'s \<Rightarrow> 'm list"
  assumes items_push: "items (push x s) = items s @ [x]"
    and pop_empty: "items s = [] \<Longrightarrow> pop s = (None, s)"
    and pop_head: "items s = x # xs \<Longrightarrow> fst (pop s) = Some x \<and> items (snd (pop s)) = xs"
begin

fun pops :: "nat \<Rightarrow> 's \<Rightarrow> 'm list \<times> 's" where
  "pops 0 s = ([], s)"
| "pops (Suc n) s = (case pop s of
       (None, t) \<Rightarrow> ([], t)
     | (Some x, t) \<Rightarrow> (case pops n t of (xs, u) \<Rightarrow> (x # xs, u)))"

lemma pops_prefix: "fst (pops n s) = take n (items s) \<and> items (snd (pops n s)) = drop n (items s)"
proof (induction n arbitrary: s)
  case (Suc n)
  show ?case
  proof (cases "items s")
    case Nil
    then show ?thesis by (simp add: pop_empty)
  next
    case (Cons x xs)
    obtain p t where pt: "pop s = (p, t)" by (cases "pop s")
    from pop_head [OF Cons] pt have "p = Some x" "items t = xs" by simp_all
    with Suc.IH [of t] pt Cons show ?thesis by (simp add: case_prod_beta)
  qed
qed simp

lemma items_push_all: "items (fold push xs s) = items s @ xs"
  by (induction xs arbitrary: s) (simp_all add: items_push)

text \<open>What is pushed comes out once, in the same order.\<close>

lemma pushed_in_order: "items s = [] \<Longrightarrow> fst (pops (length xs) (fold push xs s)) = xs"
  by (simp add: pops_prefix items_push_all)

end

section \<open>A store with expiry\<close>

locale expiring_store =
  fixes put :: "'k \<Rightarrow> 'v \<Rightarrow> int \<Rightarrow> timestamp \<Rightarrow> 's \<Rightarrow> 's"
    and look :: "'k \<Rightarrow> timestamp \<Rightarrow> 's \<Rightarrow> 'v option"
  assumes look_put: "look k now (put k v ttl t s) = (if now < t + ttl * microseconds then Some v else None)"
    and look_put_other: "k' \<noteq> k \<Longrightarrow> look k' now (put k v ttl t s) = look k' now s"
begin

text \<open>The last write of a key wins, and it alone decides the expiry.\<close>

lemma put_put: "look k now (put k' v' ttl' t' (put k v ttl t s)) =
    (if k' = k then if now < t' + ttl' * microseconds then Some v' else None
     else if now < t + ttl * microseconds then Some v else None)"
  by (simp add: look_put look_put_other)

end

section \<open>The server\<close>

text \<open>
  \<open>SET k v EX s\<close>, \<open>GET k\<close>, \<open>RPUSH q x\<close> and the pop of \<open>BLPOP q\<close>, each with the
  server's time where expiry depends on it; \<open>api_items\<close> is what \<open>LRANGE q 0 -1\<close> shows.
\<close>

record 'r redis_api =
  api_set :: "string \<Rightarrow> string \<Rightarrow> int \<Rightarrow> timestamp \<Rightarrow> 'r \<Rightarrow> 'r"
  api_get :: "string \<Rightarrow> timestamp \<Rightarrow> 'r \<Rightarrow> string option"
  api_rpush :: "string \<Rightarrow> string \<Rightarrow> 'r \<Rightarrow> 'r"
  api_lpop :: "string \<Rightarrow> 'r \<Rightarrow> string option \<times> 'r"
  api_items :: "'r \<Rightarrow> string \<Rightarrow> string list"

text \<open>Lists and keys with different names do not interfere.\<close>

definition redis_ok :: "'r redis_api \<Rightarrow> bool" where
  "redis_ok a \<longleftrightarrow>
     (\<forall>q. fifo_queue (api_rpush a q) (api_lpop a q) (\<lambda>r. api_items a r q))
     \<and> expiring_store (api_set a) (api_get a)
     \<and> (\<forall>k v ttl t r. api_items a (api_set a k v ttl t r) = api_items a r)
     \<and> (\<forall>q x k now r. api_get a k now (api_rpush a q x r) = api_get a k now r)
     \<and> (\<forall>q k now r. api_get a k now (snd (api_lpop a q r)) = api_get a k now r)
     \<and> (\<forall>q x q' r. q' \<noteq> q \<longrightarrow> api_items a (api_rpush a q x r) q' = api_items a r q')"

lemma redis_queue: "redis_ok a \<Longrightarrow> fifo_queue (api_rpush a q) (api_lpop a q) (\<lambda>r. api_items a r q)"
  by (simp add: redis_ok_def)

lemma redis_store: "redis_ok a \<Longrightarrow> expiring_store (api_set a) (api_get a)"
  by (simp add: redis_ok_def)

lemma redis_frame [simp]:
  assumes "redis_ok a"
  shows "api_items a (api_set a k v ttl t r) = api_items a r"
    and "api_get a k now (api_rpush a q x r) = api_get a k now r"
    and "api_get a k now (snd (api_lpop a q r)) = api_get a k now r"
    and "q' \<noteq> q \<Longrightarrow> api_items a (api_rpush a q x r) q' = api_items a r q'"
  using assms by (simp_all add: redis_ok_def)

lemmas redis_laws = fifo_queue.items_push [OF redis_queue] fifo_queue.pop_empty [OF redis_queue]
  expiring_store.look_put [OF redis_store]

lemma redis_pop:
  assumes "redis_ok a" and "api_items a r q = x # xs"
  shows "fst (api_lpop a q r) = Some x" "api_items a (snd (api_lpop a q r)) q = xs"
  using fifo_queue.pop_head [OF redis_queue [OF assms(1)], where q1 = q] assms(2) by auto

text \<open>A server in memory meets the contract.\<close>

record memory =
  r_keys :: "string \<Rightarrow> (string \<times> timestamp) option"
  r_lists :: "string \<Rightarrow> string list"

definition redis_empty :: memory where
  "redis_empty = \<lparr>r_keys = (\<lambda>_. None), r_lists = (\<lambda>_. [])\<rparr>"

definition key_set :: "string \<Rightarrow> string \<Rightarrow> int \<Rightarrow> timestamp \<Rightarrow> memory \<Rightarrow> memory" where
  "key_set k v ex now r = r\<lparr>r_keys := (r_keys r)(k := Some (v, now + ex * microseconds))\<rparr>"

definition key_get :: "string \<Rightarrow> timestamp \<Rightarrow> memory \<Rightarrow> string option" where
  "key_get k now r =
     (case r_keys r k of None \<Rightarrow> None | Some (v, until) \<Rightarrow> if now < until then Some v else None)"

definition list_rpush :: "string \<Rightarrow> string \<Rightarrow> memory \<Rightarrow> memory" where
  "list_rpush q x r = r\<lparr>r_lists := (r_lists r)(q := r_lists r q @ [x])\<rparr>"

definition list_lpop :: "string \<Rightarrow> memory \<Rightarrow> string option \<times> memory" where
  "list_lpop q r = (case r_lists r q of
       [] \<Rightarrow> (None, r)
     | x # xs \<Rightarrow> (Some x, r\<lparr>r_lists := (r_lists r)(q := xs)\<rparr>))"

interpretation job_list: fifo_queue "list_rpush q" "list_lpop q" "\<lambda>r. r_lists r q" for q
  by unfold_locales (auto simp: list_rpush_def list_lpop_def)

interpretation keys: expiring_store key_set key_get
  by unfold_locales (simp_all add: key_set_def key_get_def)

definition plain_redis :: "memory redis_api" where
  "plain_redis = \<lparr>api_set = key_set, api_get = key_get, api_rpush = list_rpush, api_lpop = list_lpop,
     api_items = r_lists\<rparr>"

lemma plain_redis_ok [simp]: "redis_ok plain_redis"
  using job_list.fifo_queue_axioms keys.expiring_store_axioms
  by (auto simp: redis_ok_def plain_redis_def key_set_def list_rpush_def list_lpop_def key_get_def
      split: list.split)

lemma plain_redis_items [simp]: "api_items plain_redis = r_lists"
  by (simp add: plain_redis_def)

section \<open>Commands\<close>

text \<open>
  The state of a process that talks to Redis: \<open>fails n\<close> says whether its \<open>n\<close>-th command
  fails, \<open>server_time n\<close> when the server executes it, \<open>py_clock n\<close> what the \<open>n\<close>-th
  \<open>datetime.now(UTC)\<close> reads, \<open>new_id n\<close> the \<open>n\<close>-th \<open>uuid4()\<close>.
\<close>

record 'r broker =
  api :: "'r redis_api"
  br_redis :: 'r
  fails :: "nat \<Rightarrow> bool"
  server_time :: "nat \<Rightarrow> timestamp"
  commands :: nat
  py_clock :: "nat \<Rightarrow> timestamp"
  ticks :: nat
  new_id :: "nat \<Rightarrow> uuid"
  ids_drawn :: nat

type_synonym ('r, 'a) broker_svc = "('r broker, exn, 'a) svc"

definition redis_command :: "('r redis_api \<Rightarrow> timestamp \<Rightarrow> 'r \<Rightarrow> 'a \<times> 'r) \<Rightarrow> ('r, 'a) broker_svc" where
  "redis_command f s =
     (let t = s\<lparr>commands := Suc (commands s)\<rparr>
      in if fails s (commands s) then (Inl (RedisError ''Redis is unavailable''), t)
         else case f (api s) (server_time s (commands s)) (br_redis s) of
             (x, r) \<Rightarrow> (Inr x, t\<lparr>br_redis := r\<rparr>))"

definition redis_set :: "string \<Rightarrow> string \<Rightarrow> int \<Rightarrow> ('r, unit) broker_svc" where
  "redis_set k v ex = redis_command (\<lambda>a now r. ((), api_set a k v ex now r))"

definition redis_get :: "string \<Rightarrow> ('r, string option) broker_svc" where
  "redis_get k = redis_command (\<lambda>a now r. (api_get a k now r, r))"

definition redis_rpush :: "string \<Rightarrow> string \<Rightarrow> ('r, unit) broker_svc" where
  "redis_rpush q x = redis_command (\<lambda>a now r. ((), api_rpush a q x r))"

text \<open>\<open>blpop\<close> with a timeout: the head of the list, or \<open>None\<close> when nothing came in time.\<close>

definition redis_blpop :: "string \<Rightarrow> ('r, string option) broker_svc" where
  "redis_blpop q = redis_command (\<lambda>a now r. api_lpop a q r)"

definition datetime_now :: "('r, timestamp) broker_svc" where
  "datetime_now s = (Inr (py_clock s (ticks s)), s\<lparr>ticks := Suc (ticks s)\<rparr>)"

definition broker_uuid4 :: "('r, uuid) broker_svc" where
  "broker_uuid4 s = (Inr (new_id s (ids_drawn s)), s\<lparr>ids_drawn := Suc (ids_drawn s)\<rparr>)"

text \<open>\<open>check_redis_connection\<close>: a ping; any failure is False.\<close>

definition check_redis_connection :: "('r, bool) broker_svc" where
  "check_redis_connection = catchE (redis_command (\<lambda>a now r. (True, r))) (\<lambda>e. returnE False)"

lemma check_redis_connection_run:
  "check_redis_connection s = (Inr (\<not> fails s (commands s)), s\<lparr>commands := Suc (commands s)\<rparr>)"
  by (simp add: check_redis_connection_def catchE_def redis_command_def Let_def)

lemma redis_command_up:
  "\<not> fails s (commands s) \<Longrightarrow> redis_command f s =
     (Inr (fst (f (api s) (server_time s (commands s)) (br_redis s))),
      s\<lparr>commands := Suc (commands s), br_redis := snd (f (api s) (server_time s (commands s)) (br_redis s))\<rparr>)"
  by (simp add: redis_command_def Let_def split: prod.split)

end
