(* ===== verification/Review_Summary.thy ===== *)
theory Review_Summary
  imports Ratings Redis Json
begin

text \<open>
  \<open>app/services/review_summary_service.py\<close>: the asynchronous summary jobs. A job is a JSON
  record under its key in Redis, with a day to live, and a message on the queue; the worker
  computes the summary and rewrites the record. The database is only read here. Datetimes are
  written by \<open>isoformat\<close> in the service's own fields; two texts come from libraries and are
  parameters: the datetime that pydantic writes and \<open>str(exc)\<close> of an exception.
\<close>

section \<open>Names\<close>

definition QUEUE_NAME :: string where
  "QUEUE_NAME = ''queue:review_summary''"

definition JOB_KEY_PREFIX :: string where
  "JOB_KEY_PREFIX = ''job:review_summary:''"

definition JOB_TTL_SECONDS :: int where
  "JOB_TTL_SECONDS = 86400"

definition job_key :: "uuid \<Rightarrow> string" where
  "job_key job_id = JOB_KEY_PREFIX @ uuid_str job_id"

definition iso_now :: "timestamp \<Rightarrow> string" where
  "iso_now now = isoformat (astimezone 0 now)"

record rendering =
  dt_json :: "timestamp \<Rightarrow> string"
  exn_str :: "exn \<Rightarrow> string"

section \<open>JSON records\<close>

type_synonym dict = "(string \<times> json) list"

text \<open>A dictionary read back from text; another JSON value cannot be assigned into.\<close>

definition as_dict :: "json \<Rightarrow> exn + dict" where
  "as_dict j = (case j of JObj d \<Rightarrow> Inr d | _ \<Rightarrow> Inl (TypeError ''object does not support item assignment''))"

definition json_loads :: "string \<Rightarrow> exn + json" where
  "json_loads s = (case loads s of None \<Rightarrow> Inl (ValueError ''JSONDecodeError'') | Some j \<Rightarrow> Inr j)"

definition queued_payload :: "uuid \<Rightarrow> uuid \<Rightarrow> timestamp \<Rightarrow> dict" where
  "queued_payload job_id provider_id now =
     [(''job_id'', JStr (uuid_str job_id)), (''status'', JStr ''queued''),
      (''provider_id'', JStr (uuid_str provider_id)), (''result'', JNull), (''error'', JNull),
      (''created_at'', JStr (iso_now now)), (''updated_at'', JStr (iso_now now))]"

definition task_message :: "uuid \<Rightarrow> uuid \<Rightarrow> dict" where
  "task_message job_id provider_id =
     [(''job_id'', JStr (uuid_str job_id)), (''provider_id'', JStr (uuid_str provider_id))]"

section \<open>The response model\<close>

text \<open>
  \<open>ReviewSummaryJobResponse.model_validate\<close>: the required fields, the literal of
  \<open>status\<close>, the types, and the nested \<open>ReviewSummaryResult\<close> with its bounds; an error is pydantic's
  \<open>ValueError\<close>. Datetimes and the accepted result are kept as the JSON they came in. The conversions
  that pydantic would also make (a number in a string, a whole float as an int) are left out: the
  service writes numbers as numbers.
\<close>

record job_response =
  jr_job_id :: uuid
  jr_status :: string
  jr_provider_id :: uuid
  jr_result :: json
  jr_error :: "string option"
  jr_created_at :: string
  jr_updated_at :: "string option"

definition str_field :: "dict \<Rightarrow> string \<Rightarrow> string option" where
  "str_field d k = (case map_of d k of Some (JStr s) \<Rightarrow> Some s | _ \<Rightarrow> None)"

definition uuid_field :: "dict \<Rightarrow> string \<Rightarrow> uuid option" where
  "uuid_field d k = (case str_field d k of None \<Rightarrow> None | Some s \<Rightarrow> uuid_parse s)"

text \<open>An optional string: absent or null is \<open>None\<close>; the outer option is the validation.\<close>

definition opt_str_field :: "dict \<Rightarrow> string \<Rightarrow> string option option" where
  "opt_str_field d k = (case map_of d k of
       None \<Rightarrow> Some None | Some JNull \<Rightarrow> Some None | Some (JStr s) \<Rightarrow> Some (Some s) | _ \<Rightarrow> None)"

definition job_statuses :: "string list" where
  "job_statuses = [''queued'', ''processing'', ''completed'', ''failed'']"

definition int_field :: "dict \<Rightarrow> string \<Rightarrow> int option" where
  "int_field d k = (case map_of d k of Some (JInt i) \<Rightarrow> Some i | _ \<Rightarrow> None)"

text \<open>A float, in hundredths.\<close>

definition float_field :: "dict \<Rightarrow> string \<Rightarrow> int option" where
  "float_field d k = (case map_of d k of
       Some (JHundredths h) \<Rightarrow> Some (int h) | Some (JInt i) \<Rightarrow> Some (100 * i) | _ \<Rightarrow> None)"

definition counts_field :: "dict \<Rightarrow> string \<Rightarrow> bool" where
  "counts_field d k \<longleftrightarrow> (case map_of d k of
       Some (JObj ps) \<Rightarrow> list_all (\<lambda>(n, v). case v of JInt i \<Rightarrow> True | _ \<Rightarrow> False) ps | _ \<Rightarrow> False)"

definition valid_result :: "dict \<Rightarrow> bool" where
  "valid_result d \<longleftrightarrow> uuid_field d ''provider_id'' \<noteq> None \<and> str_field d ''provider_name'' \<noteq> None
     \<and> (case int_field d ''review_count'' of None \<Rightarrow> False | Some n \<Rightarrow> 0 \<le> n)
     \<and> (case float_field d ''average_rating'' of None \<Rightarrow> False | Some h \<Rightarrow> 0 \<le> h \<and> h \<le> 500)
     \<and> counts_field d ''rating_distribution'' \<and> str_field d ''summary'' \<noteq> None
     \<and> str_field d ''generated_at'' \<noteq> None"

definition result_field :: "dict \<Rightarrow> json option" where
  "result_field d = (case map_of d ''result'' of
       None \<Rightarrow> Some JNull | Some JNull \<Rightarrow> Some JNull | Some (JObj r) \<Rightarrow> if valid_result r then Some (JObj r) else None
     | _ \<Rightarrow> None)"

definition validate_job :: "dict \<Rightarrow> exn + job_response" where
  "validate_job d =
     (case (uuid_field d ''job_id'', str_field d ''status'', uuid_field d ''provider_id'',
            result_field d, opt_str_field d ''error'', str_field d ''created_at'',
            opt_str_field d ''updated_at'') of
        (Some i, Some st, Some p, Some r, Some e, Some c, Some u) \<Rightarrow>
          if st \<in> set job_statuses then
            Inr \<lparr>jr_job_id = i, jr_status = st, jr_provider_id = p, jr_result = r, jr_error = e,
                 jr_created_at = c, jr_updated_at = u\<rparr>
          else Inl (ValueError ''validation error for ReviewSummaryJobResponse'')
      | _ \<Rightarrow> Inl (ValueError ''validation error for ReviewSummaryJobResponse''))"

section \<open>Enqueue and look up\<close>

definition queue_unavailable :: exn where
  "queue_unavailable = http 503 ''Task queue is temporarily unavailable''"

definition enqueue_summary_job :: "database \<Rightarrow> uuid \<Rightarrow> ('r, job_response) broker_svc" where
  "enqueue_summary_job db provider_id =
     (case get_user db provider_id of
        None \<Rightarrow> raiseE (http 404 ''Provider not found'')
      | Some provider \<Rightarrow>
          thenE (raise_if (u_role provider \<noteq> PROVIDER)
                   (http 400 ''Selected user is not registered as a service provider''))
          (bindE broker_uuid4 (\<lambda>job_id. bindE datetime_now (\<lambda>now.
            let job_payload = queued_payload job_id provider_id now in
            thenE
              (catchE
                (thenE (redis_set (job_key job_id) (dumps (JObj job_payload)) JOB_TTL_SECONDS)
                       (redis_rpush QUEUE_NAME (dumps (JObj (task_message job_id provider_id)))))
                (\<lambda>exc. raiseE queue_unavailable))
              (checkE (validate_job job_payload))))))"

definition get_summary_job :: "uuid \<Rightarrow> ('r, job_response) broker_svc" where
  "get_summary_job job_id =
     bindE (catchE (redis_get (job_key job_id)) (\<lambda>exc. raiseE queue_unavailable)) (\<lambda>raw_job.
     case raw_job of
       None \<Rightarrow> raiseE (http 404 ''Summary job not found'')
     | Some text \<Rightarrow>
         if text = [] then raiseE (http 404 ''Summary job not found'')
         else bindE (checkE (json_loads text)) (\<lambda>j.
              case j of JObj d \<Rightarrow> checkE (validate_job d)
              | _ \<Rightarrow> raiseE (ValueError ''validation error for ReviewSummaryJobResponse'')))"

section \<open>The summary\<close>

text \<open>\<open>f'{x:.2f}'\<close> of a number of hundredths.\<close>

definition fixed2 :: "nat \<Rightarrow> string" where
  "fixed2 h = str_nat (h div 100) @ CHR ''.'' #
     [char_of (48 + h mod 100 div 10), char_of (48 + h mod 10)]"

definition summary_text :: "string \<Rightarrow> nat \<Rightarrow> nat \<Rightarrow> string" where
  "summary_text name total_count avg_rating =
     (if total_count = 0 then
        name @ '' has no customer reviews yet. No ratings or qualitative feedback have been submitted.''
      else
        name @ '' has '' @ str_nat total_count @ '' reviews with an average rating of '' @ fixed2 avg_rating @ ''/5.0. '' @
        (if 450 \<le> avg_rating then ''Sentiment is overwhelmingly positive.''
         else if 350 \<le> avg_rating then ''Sentiment is generally favorable.''
         else if 250 \<le> avg_rating then ''Feedback is mixed.''
         else ''Significant dissatisfaction noted.''))"

definition result_json :: "rendering \<Rightarrow> user \<Rightarrow> review_summary \<Rightarrow> timestamp \<Rightarrow> json" where
  "result_json rd provider st finished_at =
     JObj [(''provider_id'', JStr (uuid_str (u_id provider))), (''provider_name'', JStr (u_name provider)),
       (''review_count'', JInt (int (rs_review_count st))),
       (''average_rating'', JHundredths (rs_average_rating st)),
       (''rating_distribution'', JObj (map (\<lambda>(k, c). (str_int k, JInt (int c))) (rs_rating_distribution st))),
       (''summary'', JStr (summary_text (u_name provider) (rs_review_count st) (rs_average_rating st))),
       (''generated_at'', JStr (dt_json rd finished_at))]"

text \<open>\<open>ReviewSummaryResult(...)\<close> itself checks the bound of the average.\<close>

definition build_result :: "rendering \<Rightarrow> user \<Rightarrow> review_summary \<Rightarrow> timestamp \<Rightarrow> exn + json" where
  "build_result rd provider st finished_at =
     (if rs_average_rating st \<le> 500 then Inr (result_json rd provider st finished_at)
      else Inl (ValueError ''validation error for ReviewSummaryResult''))"

section \<open>Processing\<close>

definition store_job :: "uuid \<Rightarrow> dict \<Rightarrow> ('r, unit) broker_svc" where
  "store_job job_id d = redis_set (job_key job_id) (dumps (JObj d)) JOB_TTL_SECONDS"

definition fail_job :: "uuid \<Rightarrow> dict \<Rightarrow> string \<Rightarrow> ('r, dict) broker_svc" where
  "fail_job job_id d msg =
     bindE datetime_now (\<lambda>now.
       let d1 = dict_set ''updated_at'' (JStr (iso_now now))
                  (dict_set ''error'' (JStr msg) (dict_set ''status'' (JStr ''failed'') d))
       in thenE (store_job job_id d1) (returnE d1))"

definition current_job :: "uuid \<Rightarrow> uuid \<Rightarrow> timestamp \<Rightarrow> string option \<Rightarrow> exn + dict" where
  "current_job job_id provider_id now raw =
     (case raw of
        None \<Rightarrow> Inr [(''job_id'', JStr (uuid_str job_id)), (''provider_id'', JStr (uuid_str provider_id)),
                   (''created_at'', JStr (iso_now now))]
      | Some text \<Rightarrow>
          if text = [] then
            Inr [(''job_id'', JStr (uuid_str job_id)), (''provider_id'', JStr (uuid_str provider_id)),
                 (''created_at'', JStr (iso_now now))]
          else case json_loads text of Inl e \<Rightarrow> Inl e | Inr j \<Rightarrow> as_dict j)"

definition processing_job :: "timestamp \<Rightarrow> dict \<Rightarrow> dict" where
  "processing_job now d =
     dict_set ''updated_at'' (JStr (iso_now now)) (dict_set ''status'' (JStr ''processing'') d)"

definition complete_job :: "json \<Rightarrow> timestamp \<Rightarrow> dict \<Rightarrow> dict" where
  "complete_job result_obj finished_at d =
     dict_set ''updated_at'' (JStr (iso_now finished_at))
       (dict_set ''error'' JNull
         (dict_set ''result'' result_obj
           (dict_set ''status'' (JStr ''completed'') d)))"

text \<open>
  The whole handler; the session it is given answers every query from one database, or fails at
  the first. An exception after the first write marks the record as failed, starting from
  the dictionary as far as it was assigned: where the failing write was itself a failure record,
  the same three fields are assigned again, so starting from \<open>d\<close> gives the same dictionary.
\<close>

definition process_summary_job ::
  "rendering \<Rightarrow> exn + database \<Rightarrow> uuid \<Rightarrow> uuid \<Rightarrow> ('r, dict) broker_svc" where
  "process_summary_job rd session job_id provider_id =
     bindE datetime_now (\<lambda>now.
     bindE (redis_get (job_key job_id)) (\<lambda>raw.
     bindE (checkE (current_job job_id provider_id now raw)) (\<lambda>d0.
       let d = processing_job now d0 in
       thenE (store_job job_id d)
       (case session of
          Inl exc \<Rightarrow> fail_job job_id d (exn_str rd exc)
        | Inr db \<Rightarrow>
        case get_user db provider_id of
          None \<Rightarrow>
            catchE (fail_job job_id d ''Provider not found'') (\<lambda>exc. fail_job job_id d (exn_str rd exc))
        | Some provider \<Rightarrow>
            if u_role provider \<noteq> PROVIDER then
              catchE (fail_job job_id d ''User is not a provider'') (\<lambda>exc. fail_job job_id d (exn_str rd exc))
            else
              bindE datetime_now (\<lambda>finished_at.
              case build_result rd provider (summarize db provider_id) finished_at of
                Inl exc \<Rightarrow> fail_job job_id d (exn_str rd exc)
              | Inr result_obj \<Rightarrow>
                  let d1 = complete_job result_obj finished_at d in
                  catchE (thenE (store_job job_id d1) (returnE d1))
                    (\<lambda>exc. fail_job job_id d1 (exn_str rd exc)))))))"

section \<open>Well-formed records\<close>

lemma dict_set_map_of: "map_of (dict_set k v d) = (map_of d)(k \<mapsto> v)"
  by (induction k v d rule: dict_set.induct) auto

lemma str_field_set: "str_field (dict_set k v d) k' =
    (if k' = k then case v of JStr x \<Rightarrow> Some x | _ \<Rightarrow> None else str_field d k')"
  by (simp add: str_field_def dict_set_map_of)

lemma dict_set_keys: "fst ` set (dict_set k v d) = insert k (fst ` set d)"
  by (induction k v d rule: dict_set.induct) auto

lemma dict_set_distinct: "distinct (map fst d) \<Longrightarrow> distinct (map fst (dict_set k v d))"
  by (induction k v d rule: dict_set.induct) (auto simp: dict_set_keys)

lemma dict_set_members: "members_ok d \<Longrightarrow> json_ok v \<Longrightarrow> members_ok (dict_set k v d)"
  by (induction k v d rule: dict_set.induct) auto

lemma dict_set_ok [simp]: "json_ok (JObj d) \<Longrightarrow> json_ok v \<Longrightarrow> json_ok (JObj (dict_set k v d))"
  by (simp add: dict_set_distinct dict_set_members)

lemma queued_payload_ok [simp]: "json_ok (JObj (queued_payload i p now))"
  by (simp add: queued_payload_def)

lemma task_message_ok [simp]: "json_ok (JObj (task_message i p))"
  by (simp add: task_message_def)

lemma str_int_inject: "str_int a = str_int b \<longleftrightarrow> a = b"
proof
  assume "str_int a = str_int b"
  then have "dumps (JInt a) = dumps (JInt b)" by (simp add: dumps.simps)
  then have "loads (dumps (JInt a)) = loads (dumps (JInt b))" by (simp only:)
  then show "a = b" using loads_dumps [of "JInt a"] loads_dumps [of "JInt b"] by (simp only: json_ok.simps) simp
qed simp

lemma result_json_ok:
  assumes "distinct (map fst (rs_rating_distribution st))"
  shows "json_ok (result_json dt p st fin)"
proof -
  have "distinct (map fst (map (\<lambda>(k, c). (str_int k, JInt (int c))) d))" if "distinct (map fst d)" for d :: "(int \<times> nat) list"
    using that by (induction d) (auto simp: str_int_inject image_iff)
  moreover have "members_ok (map (\<lambda>(k, c). (str_int k, JInt (int c))) d)" for d :: "(int \<times> nat) list"
    by (induction d) auto
  ultimately show ?thesis using assms by (simp add: result_json_def)
qed

lemma result_json_valid:
  "rs_average_rating st \<le> 500 \<Longrightarrow> \<exists>r. result_json rd p st fin = JObj r \<and> valid_result r"
  by (auto simp: result_json_def valid_result_def uuid_field_def str_field_def int_field_def float_field_def
      counts_field_def uuid_parse_str list_all_iff)

lemma build_result_Inr:
  "build_result rd p st fin = Inr x \<longleftrightarrow> x = result_json rd p st fin \<and> rs_average_rating st \<le> 500"
  by (auto simp: build_result_def)

text \<open>Ratings within their check constraint are always summarised within the bound.\<close>

lemma average_bounded: "integrity db \<Longrightarrow> rs_average_rating (summarize db pid) \<le> 500"
  using average_rating_bounds [of "provider_ratings db pid" 1 5]
  by (cases "provider_ratings db pid = []")
    (auto simp: summarize_def Let_def average_hundredths_def provider_ratings_def integrity_def reviews_ok_def
      review_checks_def)

lemma loads_dict: "json_ok (JObj d) \<Longrightarrow> json_loads (dumps (JObj d)) = Inr (JObj d)"
  using loads_dumps [of "JObj d"] by (simp add: json_loads_def)

lemma job_key_inject [simp]: "job_key a = job_key b \<longleftrightarrow> a = b"
  by (simp add: job_key_def)

lemma dumps_dict_ne: "dumps (JObj d) \<noteq> []"
  using dumps_start [of "JObj d"] by auto

end
