(* ===== verification/Worker.thy ===== *)
theory Worker
  imports Review_Summary
begin

text \<open>
  \<open>app/workers/review_worker.py\<close>: the loop that takes messages off the queue and runs the
  summary jobs. The outside world is a list of events, one per turn of the loop: a poll (with what
  the job's database session would answer), a termination signal noticed at the head of the loop,
  or an interrupt while the worker waits. A list
  that ends leaves the loop waiting for its next turn.
\<close>

datatype event = Poll "exn + database" | Signal | Interrupt

text \<open>\<open>uuid.UUID(task_data[k])\<close>\<close>

definition task_uuid :: "dict \<Rightarrow> string \<Rightarrow> exn + uuid" where
  "task_uuid d k = (case map_of d k of
       None \<Rightarrow> Inl (KeyError k)
     | Some (JStr s) \<Rightarrow> (case uuid_parse s of
           None \<Rightarrow> Inl (ValueError ''badly formed hexadecimal UUID string'') | Some i \<Rightarrow> Inr i)
     | Some _ \<Rightarrow> Inl (TypeError k))"

definition parse_task :: "string \<Rightarrow> exn + uuid \<times> uuid" where
  "parse_task raw_payload =
     (case json_loads raw_payload of
        Inl e \<Rightarrow> Inl e
      | Inr j \<Rightarrow>
          (case j of
             JObj d \<Rightarrow>
               (case task_uuid d ''job_id'' of
                  Inl e \<Rightarrow> Inl e
                | Inr job_id \<Rightarrow>
                    (case task_uuid d ''provider_id'' of
                       Inl e \<Rightarrow> Inl e
                     | Inr provider_id \<Rightarrow> Inr (job_id, provider_id)))
           | _ \<Rightarrow> Inl (TypeError ''indices must be integers'')))"

text \<open>One turn that is not interrupted: whether it counted a job.\<close>

definition worker_turn :: "rendering \<Rightarrow> exn + database \<Rightarrow> ('r, bool) broker_svc" where
  "worker_turn rd db =
     bindE (redis_blpop QUEUE_NAME) (\<lambda>item. case item of
       None \<Rightarrow> returnE False
     | Some raw_payload \<Rightarrow>
         bindE (checkE (parse_task raw_payload)) (\<lambda>(job_id, provider_id).
           thenE (process_summary_job rd db job_id provider_id) (returnE True)))"

datatype outcome = Returned nat | Waiting nat

definition limit_reached :: "nat option \<Rightarrow> nat \<Rightarrow> bool" where
  "limit_reached max_jobs n = (case max_jobs of None \<Rightarrow> False | Some m \<Rightarrow> m \<le> n)"

fun worker_loop ::
  "rendering \<Rightarrow> nat option \<Rightarrow> event list \<Rightarrow> nat \<Rightarrow> 'r broker \<Rightarrow> outcome \<times> 'r broker" where
  "worker_loop rd max_jobs [] n s = ((if limit_reached max_jobs n then Returned n else Waiting n), s)"
| "worker_loop rd max_jobs (e # es) n s =
     (if limit_reached max_jobs n then (Returned n, s)
      else case e of
        Signal \<Rightarrow> (Returned n, s)
      | Interrupt \<Rightarrow> (Returned n, s)
      | Poll db \<Rightarrow>
          (case worker_turn rd db s of
             (Inl exc, t) \<Rightarrow> worker_loop rd max_jobs es n t
           | (Inr counted, t) \<Rightarrow> worker_loop rd max_jobs es (if counted then Suc n else n) t))"

text \<open>The whole function; \<open>db_up\<close> is the answer of \<open>check_db_connection\<close>.\<close>

definition run_worker ::
  "rendering \<Rightarrow> bool \<Rightarrow> nat option \<Rightarrow> event list \<Rightarrow> 'r broker \<Rightarrow> outcome \<times> 'r broker" where
  "run_worker rd db_up max_jobs es s =
     (case check_redis_connection s of
        (Inl e, t) \<Rightarrow> (Returned 0, t)
      | (Inr redis_up, t) \<Rightarrow>
          if \<not> redis_up then (Returned 0, t)
          else if \<not> db_up then (Returned 0, t)
          else worker_loop rd max_jobs es 0 t)"

section \<open>The queue during a run\<close>

text \<open>Everything but the pop leaves the lists alone.\<close>

definition lists_of :: "'r broker \<Rightarrow> string \<Rightarrow> string list" where
  "lists_of s = api_items (api s) (br_redis s)"

text \<open>\<open>view s\<close>: the server's laws and its lists, which most commands leave alone.\<close>

definition view :: "'r broker \<Rightarrow> bool \<times> (string \<Rightarrow> string list)" where
  "view s = (redis_ok (api s), lists_of s)"

lemma view_set: "view s = (True, L) \<Longrightarrow> view (snd (redis_set k v ex s)) = (True, L)"
  by (auto simp: view_def lists_of_def redis_set_def redis_command_def Let_def)

lemma keeps_view_basic [keeps_intros]:
  "keeps (\<lambda>s. view s = (True, L)) (redis_set k v ex)" "keeps (\<lambda>s. view s = (True, L)) (redis_get k)"
  "keeps (\<lambda>s. view s = (True, L)) datetime_now" "keeps (\<lambda>s. view s = (True, L)) broker_uuid4"
  by (auto simp: keeps_def view_set)
    (auto simp: redis_get_def redis_command_def datetime_now_def broker_uuid4_def Let_def view_def lists_of_def)

lemma keeps_view_jobs [keeps_intros]:
  "keeps (\<lambda>s. view s = (True, L)) (store_job i d)" "keeps (\<lambda>s. view s = (True, L)) (checkE x)"
  "keeps (\<lambda>s. view s = (True, L)) (fail_job i d msg)"
proof -
  show "keeps (\<lambda>s. view s = (True, L)) (store_job i d)" for d
    unfolding store_job_def by (intro keeps_intros)
  then show "keeps (\<lambda>s. view s = (True, L)) (fail_job i d msg)"
    unfolding fail_job_def Let_def by (intro keeps_intros)
  show "keeps (\<lambda>s. view s = (True, L)) (checkE x)"
    by (simp add: keeps_def checkE_apply split: sum.split)
qed

lemma process_lists:
  assumes "redis_ok (api s)" and "process_summary_job dt db i p s = (r, t)"
  shows "redis_ok (api t)" "lists_of t = lists_of s"
proof -
  have "keeps (\<lambda>u. view u = (True, lists_of s)) (process_summary_job dt db i p)"
    unfolding process_summary_job_def Let_def by (intro keeps_intros)
  from keepsD_run [OF this _ assms(2)] assms(1) show "redis_ok (api t)" "lists_of t = lists_of s"
    by (simp_all add: view_def)
qed

lemma blpop_cases:
  assumes ok: "redis_ok (api s)" and run: "redis_blpop q s = (r, u)"
  shows "redis_ok (api u)
    \<and> ((\<exists>e. r = Inl e) \<and> lists_of u = lists_of s
       \<or> r = Inr None \<and> lists_of s q = [] \<and> lists_of u = lists_of s
       \<or> (\<exists>x. r = Inr (Some x) \<and> lists_of s q \<noteq> [] \<and> lists_of u q = tl (lists_of s q)))"
proof (cases "fails s (commands s)")
  case True
  with ok run show ?thesis by (auto simp: redis_blpop_def redis_command_def Let_def lists_of_def)
next
  case False
  with run have u: "r = Inr (fst (api_lpop (api s) q (br_redis s)))"
    "u = s\<lparr>commands := Suc (commands s), br_redis := snd (api_lpop (api s) q (br_redis s))\<rparr>"
    by (auto simp: redis_blpop_def redis_command_up)
  show ?thesis
  proof (cases "api_items (api s) (br_redis s) q")
    case Nil
    with ok have "api_lpop (api s) q (br_redis s) = (None, br_redis s)"
      by (rule fifo_queue.pop_empty [OF redis_queue])
    with u Nil ok show ?thesis by (simp add: lists_of_def)
  next
    case (Cons x xs)
    with u redis_pop [OF ok Cons] ok show ?thesis by (simp add: lists_of_def)
  qed
qed

text \<open>A turn takes the head of the queue or leaves the queue; it never puts anything back.\<close>

lemma worker_turn_queue:
  assumes ok: "redis_ok (api s)" and turn: "worker_turn dt db s = (r, t)"
  shows "redis_ok (api t)
    \<and> (lists_of t QUEUE_NAME = lists_of s QUEUE_NAME \<and> r \<noteq> Inr True
       \<or> lists_of s QUEUE_NAME \<noteq> [] \<and> lists_of t QUEUE_NAME = tl (lists_of s QUEUE_NAME))"
proof -
  obtain x u where pop: "redis_blpop QUEUE_NAME s = (x, u)" by (cases "redis_blpop QUEUE_NAME s")
  note popped = blpop_cases [OF ok pop]
  show ?thesis
  proof (cases "\<exists>raw. x = Inr (Some raw)")
    case False
    with popped have x: "(\<exists>e. x = Inl e) \<or> x = Inr None" "lists_of u = lists_of s" "redis_ok (api u)" by auto
    with turn pop have "t = u" "r \<noteq> Inr True" by (auto simp: worker_turn_def bindE_def)
    with x show ?thesis by simp
  next
    case True
    then obtain raw where raw: "x = Inr (Some raw)" by blast
    have "redis_ok (api t) \<and> lists_of t = lists_of u"
    proof (cases "parse_task raw")
      case (Inl e)
      with turn pop raw popped show ?thesis by (auto simp: worker_turn_def bindE_def checkE_apply)
    next
      case (Inr ids)
      then obtain i p where ids: "parse_task raw = Inr (i, p)" by (cases ids) simp
      obtain y v where process: "process_summary_job dt db i p u = (y, v)"
        by (cases "process_summary_job dt db i p u")
      with turn pop raw ids have "t = v"
        by (auto simp: worker_turn_def bindE_def thenE_def checkE_apply split: sum.splits)
      with process_lists [OF _ process] popped show ?thesis by simp
    qed
    with raw popped show ?thesis by auto
  qed
qed

text \<open>
  C22: the worker consumes the queue from its head and counts no job twice. Whatever polls, failures,
  malformed messages, signals and interrupts happen, what is left of the queue is a suffix of it, the
  number of jobs counted is at most the number of messages consumed, and it never exceeds
  \<open>max_jobs\<close>.
\<close>

theorem worker_consumes_queue:
  assumes redis: "redis_ok (api s)"
    and run: "worker_loop rd max_jobs es n s = (res, t)" and start: "\<not> limit_reached max_jobs n \<or> max_jobs = Some n"
  shows "suffix (lists_of t QUEUE_NAME) (lists_of s QUEUE_NAME)
    \<and> (case res of Returned k \<Rightarrow> k | Waiting k \<Rightarrow> k) + length (lists_of t QUEUE_NAME)
        \<le> n + length (lists_of s QUEUE_NAME)
    \<and> (case res of Returned k \<Rightarrow> k | Waiting k \<Rightarrow> k) \<le> (case max_jobs of None \<Rightarrow> n + length es | Some m \<Rightarrow> m)"
  using redis run start
proof (induction es arbitrary: n s)
  case Nil
  then show ?case by (auto simp: limit_reached_def split: option.splits if_splits)
next
  case (Cons e es)
  show ?case
  proof (cases "limit_reached max_jobs n")
    case True
    with Cons.prems show ?thesis by (auto simp: limit_reached_def split: option.splits)
  next
    case False
    show ?thesis
    proof (cases e)
      case (Poll db)
      obtain r u where turn: "worker_turn rd db s = (r, u)" by (cases "worker_turn rd db s")
      let ?n = "if r = Inr True then Suc n else n"
      have loop: "worker_loop rd max_jobs es ?n u = (res, t)"
        using Cons.prems(2) False Poll turn by (auto split: sum.splits if_splits)
      have again: "\<not> limit_reached max_jobs ?n \<or> max_jobs = Some ?n"
        using False by (auto simp: limit_reached_def split: option.splits)
      note after = worker_turn_queue [OF Cons.prems(1) turn]
      from Cons.IH [OF after [THEN conjunct1] loop again] after suffix_tl [of "lists_of s QUEUE_NAME"]
      show ?thesis
        by (cases "lists_of s QUEUE_NAME") (auto split: option.splits if_splits intro: suffix_order.trans)
    qed (use Cons.prems False in \<open>auto simp: limit_reached_def split: option.splits\<close>)
  qed
qed

definition sample_rendering :: rendering where
  "sample_rendering = \<lparr>dt_json = iso_now, exn_str = (\<lambda>e. [])\<rparr>"

definition sample_broker :: "memory broker" where
  "sample_broker = \<lparr>api = plain_redis, br_redis = redis_empty, fails = (\<lambda>n. False), server_time = (\<lambda>n. hour 1),
     commands = 0, py_clock = (\<lambda>n. hour 1), ticks = 0, new_id = (\<lambda>n. UUID (of_nat n)), ids_drawn = 0\<rparr>"

lemma worker_consumes_queue_witness:
  "suffix (lists_of (snd (worker_loop sample_rendering (Some 3) [Poll (Inr no_bookings), Signal] 0 sample_broker)) QUEUE_NAME)
     (lists_of sample_broker QUEUE_NAME)"
proof -
  obtain res t where run: "worker_loop sample_rendering (Some 3) [Poll (Inr no_bookings), Signal] 0 sample_broker = (res, t)"
    by (rule prod.exhaust)
  have "\<not> limit_reached (Some 3) 0 \<or> Some 3 = Some (0::nat)" by (simp add: limit_reached_def)
  from worker_consumes_queue [OF _ run this] run show ?thesis by (simp add: sample_broker_def)
qed

section \<open>A job from request to result\<close>

definition up :: "'r broker \<Rightarrow> bool" where
  "up s \<longleftrightarrow> redis_ok (api s) \<and> (\<forall>n. \<not> fails s n)"

lemma up_ok [simp]: "up s \<Longrightarrow> redis_ok (api s)"
  by (simp add: up_def)

lemma up_simps [simp]:
  "up (s\<lparr>commands := n\<rparr>) = up s" "up (s\<lparr>br_redis := r\<rparr>) = up s" "up (s\<lparr>ticks := k\<rparr>) = up s"
  "up (s\<lparr>ids_drawn := k\<rparr>) = up s"
  by (simp_all add: up_def)

text \<open>The commands, run while Redis answers.\<close>

lemma redis_set_up:
  "up s \<Longrightarrow> redis_set k v ex s = (Inr (), s\<lparr>commands := Suc (commands s),
     br_redis := api_set (api s) k v ex (server_time s (commands s)) (br_redis s)\<rparr>)"
  by (simp add: redis_set_def redis_command_up up_def)

lemma redis_rpush_up:
  "up s \<Longrightarrow> redis_rpush q x s = (Inr (), s\<lparr>commands := Suc (commands s),
     br_redis := api_rpush (api s) q x (br_redis s)\<rparr>)"
  by (simp add: redis_rpush_def redis_command_up up_def)

lemma redis_get_up:
  "up s \<Longrightarrow> redis_get k s = (Inr (api_get (api s) k (server_time s (commands s)) (br_redis s)),
     s\<lparr>commands := Suc (commands s)\<rparr>)"
  by (simp add: redis_get_def redis_command_up up_def)

lemma redis_blpop_up:
  "up s \<Longrightarrow> redis_blpop q s = (Inr (fst (api_lpop (api s) q (br_redis s))),
     s\<lparr>commands := Suc (commands s), br_redis := snd (api_lpop (api s) q (br_redis s))\<rparr>)"
  by (simp add: redis_blpop_def redis_command_up up_def)

lemmas broker_run = redis_set_up redis_rpush_up redis_get_up redis_blpop_up
  datetime_now_def broker_uuid4_def store_job_def checkE_apply

lemma enqueue_run:
  assumes "up s" and "get_user db pid = Some p" and "u_role p = PROVIDER"
  defines "i \<equiv> new_id s (ids_drawn s)" and "now \<equiv> py_clock s (ticks s)"
  shows "enqueue_summary_job db pid s =
    (Inr \<lparr>jr_job_id = i, jr_status = ''queued'', jr_provider_id = pid, jr_result = JNull, jr_error = None,
        jr_created_at = iso_now now, jr_updated_at = Some (iso_now now)\<rparr>,
     s\<lparr>ids_drawn := Suc (ids_drawn s), ticks := Suc (ticks s), commands := commands s + 2,
       br_redis := api_rpush (api s) QUEUE_NAME (dumps (JObj (task_message i pid)))
         (api_set (api s) (job_key i) (dumps (JObj (queued_payload i pid now))) JOB_TTL_SECONDS
           (server_time s (commands s)) (br_redis s))\<rparr>)"
proof -
  have "validate_job (queued_payload i pid now) = Inr \<lparr>jr_job_id = i, jr_status = ''queued'', jr_provider_id = pid,
      jr_result = JNull, jr_error = None, jr_created_at = iso_now now, jr_updated_at = Some (iso_now now)\<rparr>"
    by (simp add: validate_job_def queued_payload_def uuid_field_def str_field_def opt_str_field_def
        result_field_def job_statuses_def uuid_parse_str)
  then show ?thesis
    using assms
    by (simp add: enqueue_summary_job_def raise_if_apply bindE_def thenE_def catchE_def broker_run Let_def
        numeral_2_eq_2)
qed

lemma process_run:
  fixes rd :: rendering
  assumes up: "up s" and user: "get_user db pid = Some p" "u_role p = PROVIDER" and sound: "integrity db"
    and raw: "api_get (api s) (job_key i) (server_time s (commands s)) (br_redis s) = Some (dumps (JObj d0))"
    and ok: "json_ok (JObj d0)"
  defines "d \<equiv> processing_job (py_clock s (ticks s)) d0"
  defines "fin \<equiv> py_clock s (Suc (ticks s))"
  defines "d1 \<equiv> complete_job (result_json rd p (summarize db pid) fin) fin d"
  shows "process_summary_job rd (Inr db) i pid s =
    (Inr d1, s\<lparr>ticks := Suc (Suc (ticks s)), commands := commands s + 3,
       br_redis := api_set (api s) (job_key i) (dumps (JObj d1)) JOB_TTL_SECONDS (server_time s (commands s + 2))
         (api_set (api s) (job_key i) (dumps (JObj d)) JOB_TTL_SECONDS (server_time s (commands s + 1)) (br_redis s))\<rparr>)"
proof -
  have "current_job i pid (py_clock s (ticks s)) (Some (dumps (JObj d0))) = Inr d0"
    by (simp add: current_job_def dumps_dict_ne loads_dict [OF ok] as_dict_def)
  then show ?thesis
    using assms average_bounded [OF sound]
    by (simp add: process_summary_job_def build_result_def bindE_def thenE_def catchE_def broker_run Let_def numeral_3_eq_3
        add.commute [of _ 2] numeral_2_eq_2)
qed


lemma set_count_keys:
  "fst ` set (set_count k c d) = insert k (fst ` set d)"
  "distinct (map fst d) \<Longrightarrow> distinct (map fst (set_count k c d))"
proof -
  show keys: "fst ` set (set_count k c d) = insert k (fst ` set d)" for k c d
    by (induction k c d rule: set_count.induct) auto
  show "distinct (map fst d) \<Longrightarrow> distinct (map fst (set_count k c d))"
    by (induction k c d rule: set_count.induct) (simp_all add: keys, blast)
qed

lemma distribution_distinct: "distinct (map fst (rs_rating_distribution (summarize db pid)))"
proof -
  have "distinct (map fst (foldl (\<lambda>d (k, c). set_count k c d) d0 xs))"
    if "distinct (map fst d0)" for d0 and xs :: "(int \<times> nat) list"
    using that by (induction xs arbitrary: d0) (auto simp: set_count_keys)
  from this [of "map (\<lambda>i::int. (i, 0::nat)) [1..5]"] show ?thesis
    by (simp add: summarize_def Let_def rating_distribution_def comp_def)
qed

lemma parse_task_message: "parse_task (dumps (JObj (task_message i pid))) = Inr (i, pid)"
  unfolding parse_task_def loads_dict [OF task_message_ok]
  by (simp add: task_message_def task_uuid_def uuid_parse_str)

text \<open>The text that \<open>enqueue_summary_job\<close> pushes for a job and its provider.\<close>

definition task_text :: "uuid \<times> uuid \<Rightarrow> string" where
  "task_text job = (case job of (i, p) \<Rightarrow> dumps (JObj (task_message i p)))"

lemma up_poll:
  assumes "up s" and "lists_of s QUEUE_NAME = dumps (JObj (task_message i pid)) # q"
  defines "u \<equiv> s\<lparr>commands := Suc (commands s), br_redis := snd (api_lpop (api s) QUEUE_NAME (br_redis s))\<rparr>"
  assumes "process_summary_job dt db i pid u = (Inr d, t)"
  shows "worker_turn dt db s = (Inr True, t)"
  using assms redis_pop [of "api s" "br_redis s"]
  by (simp add: worker_turn_def bindE_def thenE_def redis_blpop_up lists_of_def checkE_apply parse_task_message)

lemma validate_completed:
  assumes "res = JObj r" and "valid_result r"
  shows "validate_job (dict_set ''updated_at'' (JStr w) (dict_set ''error'' JNull (dict_set ''result'' res
      (dict_set ''status'' (JStr ''completed'')
        (dict_set ''updated_at'' (JStr v) (dict_set ''status'' (JStr ''processing'') (queued_payload i pid c)))))))
    = Inr \<lparr>jr_job_id = i, jr_status = ''completed'', jr_provider_id = pid, jr_result = res, jr_error = None,
        jr_created_at = iso_now c, jr_updated_at = Some w\<rparr>"
  using assms
  by (simp add: validate_job_def queued_payload_def uuid_field_def str_field_def opt_str_field_def
      result_field_def job_statuses_def uuid_parse_str)


text \<open>
  C23: a summary job runs from request to result. With Redis answering, an empty queue and a sound database in
  which the provider exists, enqueueing answers with a queued job; one turn of the worker then
  processes exactly that job, empties the queue and stops at its limit; and asking for the job gives
  it as completed, without error, with the statistics of the reviews in the database the worker
  saw, as long as the record has not expired.
\<close>

theorem summary_job_lifecycle:
  assumes redis: "up s" "lists_of s QUEUE_NAME = []"
    and fresh: "\<And>m n. server_time s n < server_time s m + JOB_TTL_SECONDS * microseconds"
    and before: "get_user db pid = Some p" "u_role p = PROVIDER"
    and after: "get_user db' pid = Some p'" "u_role p' = PROVIDER" "integrity db'"
  shows "\<exists>resp s1 t fin u. enqueue_summary_job db pid s = (Inr resp, s1) \<and> jr_status resp = ''queued''
    \<and> worker_loop rd (Some 1) [Poll (Inr db')] 0 s1 = (Returned 1, t)
    \<and> lists_of t QUEUE_NAME = []
    \<and> get_summary_job (jr_job_id resp) t =
        (Inr (resp\<lparr>jr_status := ''completed'', jr_result := result_json rd p' (summarize db' pid) fin,
              jr_updated_at := Some (iso_now fin)\<rparr>), u)"
proof -
  define i now where "i = new_id s (ids_drawn s)" and "now = py_clock s (ticks s)"
  define d0 where "d0 = queued_payload i pid now"
  define resp where "resp = \<lparr>jr_job_id = i, jr_status = ''queued'', jr_provider_id = pid, jr_result = JNull,
    jr_error = None, jr_created_at = iso_now now, jr_updated_at = Some (iso_now now)\<rparr>"
  obtain s1 where enq: "enqueue_summary_job db pid s = (Inr resp, s1)"
    and s1: "up s1" "server_time s1 = server_time s" "lists_of s1 QUEUE_NAME = dumps (JObj (task_message i pid)) # []"
      "\<And>n. api_get (api s1) (job_key i) (server_time s n) (br_redis s1) = Some (dumps (JObj d0))"
    using enqueue_run [OF redis(1) before] redis fresh
    by (simp add: resp_def i_def now_def d0_def redis_laws lists_of_def)
  define s2 where "s2 = s1\<lparr>commands := Suc (commands s1), br_redis := snd (api_lpop (api s1) QUEUE_NAME (br_redis s1))\<rparr>"
  have s2: "up s2" "server_time s2 = server_time s" "lists_of s2 QUEUE_NAME = []"
    "api_get (api s2) (job_key i) (server_time s2 (commands s2)) (br_redis s2) = Some (dumps (JObj d0))"
    using s1 redis_pop [of "api s1" "br_redis s1"] by (simp_all add: s2_def lists_of_def)
  define fin where "fin = py_clock s2 (Suc (ticks s2))"
  define d1 where "d1 = complete_job (result_json rd p' (summarize db' pid) fin) fin (processing_job (py_clock s2 (ticks s2)) d0)"
  obtain t where process: "process_summary_job rd (Inr db') i pid s2 = (Inr d1, t)"
    and t: "up t" "server_time t = server_time s" "lists_of t QUEUE_NAME = []"
      "\<And>n. api_get (api t) (job_key i) (server_time s n) (br_redis t) = Some (dumps (JObj d1))"
  proof -
    have "json_ok (JObj d0)" unfolding d0_def by (rule queued_payload_ok)
    note run = process_run [OF s2(1) after s2(4) this, of rd, folded fin_def, folded d1_def]
    show thesis by (rule that [OF run]) (use s2 fresh in \<open>simp_all add: redis_laws lists_of_def\<close>)
  qed
  have turn: "worker_turn rd (Inr db') s1 = (Inr True, t)"
    using up_poll [OF s1(1) s1(3)] process by (simp add: s2_def)
  have loop: "worker_loop rd (Some 1) [Poll (Inr db')] 0 s1 = (Returned 1, t)"
    by (simp add: turn limit_reached_def)
  have "json_ok (JObj d1)"
    unfolding d1_def complete_job_def processing_job_def d0_def
    by (intro dict_set_ok result_json_ok distribution_distinct queued_payload_ok) simp_all
  then have "json_loads (dumps (JObj d1)) = Inr (JObj d1)" by (rule loads_dict)
  moreover have "validate_job d1 = Inr (resp\<lparr>jr_status := ''completed'',
      jr_result := result_json rd p' (summarize db' pid) fin, jr_updated_at := Some (iso_now fin)\<rparr>)"
    unfolding d1_def complete_job_def processing_job_def d0_def resp_def
    using result_json_valid [OF average_bounded [OF after(3)], of rd p' pid fin] by (auto simp: validate_completed)
  ultimately obtain u where got: "get_summary_job i t = (Inr (resp\<lparr>jr_status := ''completed'',
      jr_result := result_json rd p' (summarize db' pid) fin, jr_updated_at := Some (iso_now fin)\<rparr>), u)"
    using t by (simp add: get_summary_job_def bindE_def catchE_def redis_get_up checkE_apply dumps_dict_ne)
  have ids: "jr_job_id resp = i" "jr_status resp = ''queued''" by (simp_all add: resp_def)
  show ?thesis
    by (intro exI conjI) (rule enq, rule ids(2), rule loop, rule t(3), unfold ids(1), rule got)
qed


lemma summary_job_lifecycle_witness:
  "\<exists>resp s1 t fin u. enqueue_summary_job no_bookings (UUID 2) sample_broker = (Inr resp, s1)
    \<and> jr_status resp = ''queued''
    \<and> worker_loop sample_rendering (Some 1) [Poll (Inr no_bookings)] 0 s1 = (Returned 1, t)
    \<and> lists_of t QUEUE_NAME = []
    \<and> get_summary_job (jr_job_id resp) t =
        (Inr (resp\<lparr>jr_status := ''completed'',
              jr_result := result_json sample_rendering bob (summarize no_bookings (UUID 2)) fin,
              jr_updated_at := Some (iso_now fin)\<rparr>), u)"
  by (rule summary_job_lifecycle [where p = bob and p' = bob, OF _ _ _ _ _ _ _ no_bookings_integrity])
    (simp_all add: up_def sample_broker_def redis_empty_def lists_of_def JOB_TTL_SECONDS_def microseconds_def
      get_user_def lookup_by_def sample_defs)

section \<open>Failures of the queue\<close>




text \<open>
  A stored job record is read back as it was written: while it lives, asking for the job validates
  exactly the dictionary that was stored, whatever strings it holds; once it has expired the job is
  unknown.
\<close>

lemma job_record_roundtrip:
  assumes "up s" and "json_ok (JObj d)"
  shows "fst (thenE (store_job i d) (get_summary_job i) s) =
    (if server_time s (Suc (commands s)) < server_time s (commands s) + 86400 * 1000000 then validate_job d
     else Inl (http 404 ''Summary job not found''))"
proof -
  have loads: "json_loads (dumps (JObj d)) = Inr (JObj d)" using assms(2) by (rule loads_dict)
  show ?thesis
    using assms(1)
    by (simp add: thenE_def bindE_def get_summary_job_def catchE_def broker_run redis_laws loads
        dumps_dict_ne JOB_TTL_SECONDS_def microseconds_def)
qed

end
