(* ===== verification/Summary_Api.thy ===== *)
theory Summary_Api
  imports Robustness Worker
begin

text \<open>
  The two routes of \<open>/reviews/summarize\<close> (\<open>app/api/v1/reviews.py\<close>) that hand over to Redis: one
  request has a session, which it only reads, and a connection to the broker.
\<close>

datatype summary_reply = JobOut job_response

datatype summary_call = TriggerSummary uuid | GetSummaryJob uuid

text \<open>A request's answer and what it left in the broker; the database is untouched.\<close>

fun summary_routes :: "'tok app \<Rightarrow> environment \<Rightarrow> 'tok option \<Rightarrow> database \<Rightarrow> summary_call
    \<Rightarrow> ('r broker, failure, int \<times> summary_reply) svc" where
  "summary_routes app env tok db (TriggerSummary provider_id) b =
     (case fst (get_current_user (app_jwt app) (app_settings app) tok (open_session env db)) of
        Inl e \<Rightarrow> (Inl (Raised e), b)
      | Inr current_user \<Rightarrow>
          (case enqueue_summary_job db provider_id b of
             (Inl e, b') \<Rightarrow> (Inl (Raised e), b') | (Inr j, b') \<Rightarrow> (Inr (202, JobOut j), b')))"
| "summary_routes app env tok db (GetSummaryJob job_id) b =
     (case fst (get_current_user (app_jwt app) (app_settings app) tok (open_session env db)) of
        Inl e \<Rightarrow> (Inl (Raised e), b)
      | Inr current_user \<Rightarrow>
          (case get_summary_job job_id b of
             (Inl e, b') \<Rightarrow> (Inl (Raised e), b') | (Inr j, b') \<Rightarrow> (Inr (200, JobOut j), b')))"


lemma summary_unauthenticated:
  assumes "\<forall>u \<in> set (users db). \<not> token_names app env tok u"
  shows "\<exists>msg. summary_routes app env tok db c b = (Inl (Raised (HTTPException 401 msg bearer)), b)"
proof (cases "fst (get_current_user (app_jwt app) (app_settings app) tok (open_session env db))")
  case (Inl e)
  with current_user_refusal [OF Inl] show ?thesis by (cases c) auto
next
  case (Inr u)
  from current_user_named [OF this] assms show ?thesis by blast
qed

text \<open>
  C26: the routes of the summary jobs. For any signed-in account, with Redis answering: triggering for
  an unknown provider is 404, for another role 400, and nothing is written; otherwise it is 202 with
  a queued job for that provider, which puts exactly that job's message at the end of the queue, and
  asking for the job gives it back with 200 until its record expires.
\<close>

theorem summary_requests:
  assumes redis: "up b"
    and who: "fst (get_current_user (app_jwt app) (app_settings app) tok (open_session env db)) = Inr u"
  shows "case get_user db pid of
      None \<Rightarrow> summary_routes app env tok db (TriggerSummary pid) b =
        (Inl (Raised (http 404 ''Provider not found'')), b)
    | Some p \<Rightarrow>
        if u_role p \<noteq> PROVIDER then summary_routes app env tok db (TriggerSummary pid) b =
          (Inl (Raised (http 400 ''Selected user is not registered as a service provider'')), b)
        else \<exists>j b1. summary_routes app env tok db (TriggerSummary pid) b = (Inr (202, JobOut j), b1)
          \<and> jr_status j = ''queued'' \<and> jr_provider_id j = pid
          \<and> lists_of b1 QUEUE_NAME = lists_of b QUEUE_NAME @ [dumps (JObj (task_message (jr_job_id j) pid))]
          \<and> fst (summary_routes app env tok db (GetSummaryJob (jr_job_id j)) b1) =
              (if server_time b (commands b + 2) < server_time b (commands b) + JOB_TTL_SECONDS * microseconds
               then Inr (200, JobOut j) else Inl (Raised (http 404 ''Summary job not found'')))"
proof (cases "get_user db pid")
  case None
  then show ?thesis by (simp add: who enqueue_summary_job_def)
next
  case (Some p)
  show ?thesis
  proof (cases "u_role p = PROVIDER")
    case False
    with Some show ?thesis by (simp add: who enqueue_summary_job_def thenE_def bindE_def raise_if_apply)
  next
    case True
    let ?i = "new_id b (ids_drawn b)" and ?now = "py_clock b (ticks b)"
    let ?d = "queued_payload ?i pid ?now"
    let ?j = "\<lparr>jr_job_id = ?i, jr_status = ''queued'', jr_provider_id = pid, jr_result = JNull, jr_error = None,
        jr_created_at = iso_now ?now, jr_updated_at = Some (iso_now ?now)\<rparr>"
    let ?b1 = "b\<lparr>ids_drawn := Suc (ids_drawn b), ticks := Suc (ticks b), commands := commands b + 2,
       br_redis := api_rpush (api b) QUEUE_NAME (dumps (JObj (task_message ?i pid)))
         (api_set (api b) (job_key ?i) (dumps (JObj ?d)) JOB_TTL_SECONDS (server_time b (commands b)) (br_redis b))\<rparr>"
    have enq: "enqueue_summary_job db pid b = (Inr ?j, ?b1)" by (rule enqueue_run [OF redis Some True])
    have valid: "validate_job ?d = Inr ?j"
      by (simp add: validate_job_def queued_payload_def uuid_field_def str_field_def opt_str_field_def
          result_field_def job_statuses_def uuid_parse_str)
    have get: "fst (get_summary_job ?i ?b1) =
        (if server_time b (commands b + 2) < server_time b (commands b) + JOB_TTL_SECONDS * microseconds
         then Inr ?j else Inl (http 404 ''Summary job not found''))"
      using redis loads_dict [OF queued_payload_ok, of ?i pid ?now]
      by (simp add: get_summary_job_def bindE_def catchE_def broker_run redis_laws dumps_dict_ne valid)
    have "fst (summary_routes app env tok db (GetSummaryJob ?i) ?b1) =
        (if server_time b (commands b + 2) < server_time b (commands b) + JOB_TTL_SECONDS * microseconds
         then Inr (200, JobOut ?j) else Inl (Raised (http 404 ''Summary job not found'')))"
      using get by (cases "get_summary_job ?i ?b1") (auto simp: who split: if_splits)
    moreover have "lists_of ?b1 QUEUE_NAME = lists_of b QUEUE_NAME @ [dumps (JObj (task_message ?i pid))]"
      using redis by (simp add: lists_of_def redis_laws)
    ultimately show ?thesis
      using Some True
      by (simp add: who enq del: summary_routes.simps(2))
  qed
qed

lemma summary_requests_witness:
  "\<exists>j b1. summary_routes sample_app sample_env (Some ada_token) (sample_db PENDING) (TriggerSummary (UUID 2)) sample_broker
      = (Inr (202, JobOut j), b1) \<and> jr_status j = ''queued''
    \<and> fst (summary_routes sample_app sample_env (Some ada_token) (sample_db PENDING) (GetSummaryJob (jr_job_id j)) b1)
      = Inr (200, JobOut j)"
proof -
  have who: "fst (get_current_user (app_jwt sample_app) (app_settings sample_app) (Some ada_token)
      (open_session sample_env (sample_db PENDING))) = Inr ada"
    by (simp add: sample_app_def ada_signed_in)
  have "up sample_broker" by (simp add: up_def sample_broker_def)
  from summary_requests [OF this who, of "UUID 2"] obtain j b1 where
    "summary_routes sample_app sample_env (Some ada_token) (sample_db PENDING) (TriggerSummary (UUID 2)) sample_broker
      = (Inr (202, JobOut j), b1)" "jr_status j = ''queued''"
    "fst (summary_routes sample_app sample_env (Some ada_token) (sample_db PENDING) (GetSummaryJob (jr_job_id j)) b1)
      = Inr (200, JobOut j)"
    by (auto simp: bob_def sample_broker_def JOB_TTL_SECONDS_def microseconds_def simp del: summary_routes.simps)
  then show ?thesis by blast
qed

end
