(* ===== verification/Startup.thy ===== *)
theory Startup
  imports Errors Redis
begin

text \<open>
  What the application does apart from requests: the CORS origins of \<open>app/core/config.py\<close>, the
  connection pool of \<open>app/core/redis.py\<close>, the database check of \<open>app/db/session.py\<close> and the health
  routes of \<open>app/api/v1/health.py\<close>.
\<close>

section \<open>CORS origins\<close>

text \<open>
  \<open>assemble_cors_origins\<close>, before pydantic checks that the result is a list of strings. The value
  is a Python object of JSON's shapes; \<open>json.loads\<close> of a bad text is a \<open>ValueError\<close>.
\<close>

definition assemble_cors_origins :: "json \<Rightarrow> exn + json" where
  "assemble_cors_origins v = (case v of
       JStr s \<Rightarrow>
         (let stripped = py_strip s in
          if prefix ''['' stripped
          then (case loads stripped of None \<Rightarrow> Inl (ValueError ''JSONDecodeError'') | Some j \<Rightarrow> Inr j)
          else Inr (JArr (map JStr (filter (\<lambda>i. i \<noteq> []) (map py_strip (py_split CHR '','' stripped))))))
     | JArr xs \<Rightarrow> Inr (JArr xs)
     | _ \<Rightarrow> Inr v)"

section \<open>The Redis pool\<close>

text \<open>
  The module's global: the pool that is open, and how many have been made. Closing may fail, which
  is only logged.
\<close>

record redis_module =
  redis_pool :: "nat option"
  pools_made :: nat

definition get_redis_pool :: "redis_module \<Rightarrow> nat \<times> redis_module" where
  "get_redis_pool m = (case redis_pool m of
       Some p \<Rightarrow> (p, m)
     | None \<Rightarrow> (pools_made m, m\<lparr>redis_pool := Some (pools_made m), pools_made := Suc (pools_made m)\<rparr>))"

definition close_redis_connection :: "exn option \<Rightarrow> redis_module \<Rightarrow> redis_module" where
  "close_redis_connection failure m = (if redis_pool m = None then m else m\<lparr>redis_pool := None\<rparr>)"

lemma redis_pool_shared:
  "get_redis_pool m = (p, m') \<Longrightarrow> get_redis_pool m' = (p, m')"
  "fst (get_redis_pool (close_redis_connection e m)) = pools_made m"
  by (auto simp: get_redis_pool_def close_redis_connection_def split: option.splits)

section \<open>Health\<close>

text \<open>
  \<open>check_db_connection\<close>: the three steps of its \<open>try\<close> (reading the URL, a socket, \<open>SELECT 1\<close>), each of
  which may raise; what the URL gives decides where the socket goes.
\<close>

record db_url =
  url_hostname :: "string option"
  url_port :: "nat option"

definition check_db_connection ::
  "exn + db_url \<Rightarrow> (string \<Rightarrow> nat \<Rightarrow> exn + unit) \<Rightarrow> exn + unit \<Rightarrow> bool" where
  "check_db_connection parsed create_connection select_1 = (case parsed of
       Inl e \<Rightarrow> False
     | Inr url \<Rightarrow>
         (let host = (case url_hostname url of None \<Rightarrow> ''localhost'' | Some h \<Rightarrow> if h = [] then ''localhost'' else h);
              port = (case url_port url of None \<Rightarrow> 5432 | Some n \<Rightarrow> if n = 0 then 5432 else n)
          in case create_connection host port of
               Inl e \<Rightarrow> False
             | Inr _ \<Rightarrow> (case select_1 of Inl e \<Rightarrow> False | Inr _ \<Rightarrow> True)))"

definition health_check :: json where
  "health_check = JObj [(''status'', JStr ''ok'')]"

definition readiness_response :: "bool \<Rightarrow> response" where
  "readiness_response is_ready =
     (if is_ready then \<lparr>rsp_status = 200, rsp_content = JObj [(''status'', JStr ''ready'')], rsp_headers = []\<rparr>
      else \<lparr>rsp_status = 503, rsp_content = JObj [(''status'', JStr ''not_ready'')], rsp_headers = []\<rparr>)"

text \<open>Both checks are made, the database first; an exception that escaped them would count as not ready.\<close>

definition readiness_check :: "bool \<Rightarrow> ('r, response) broker_svc" where
  "readiness_check db_ready =
     bindE (catchE (bindE check_redis_connection (\<lambda>redis_ready. returnE (db_ready \<and> redis_ready))) (\<lambda>e. returnE False))
       (\<lambda>is_ready. returnE (readiness_response is_ready))"

lemma readiness_run:
  "readiness_check db_ready b =
     (Inr (readiness_response (db_ready \<and> \<not> fails b (commands b))), b\<lparr>commands := Suc (commands b)\<rparr>)"
  by (simp add: readiness_check_def bindE_def catchE_def check_redis_connection_run returnE_def)

section \<open>Properties\<close>

lemma py_split_plain: "sep \<notin> set s \<Longrightarrow> py_split sep s = [s]"
  by (induction s) auto

lemma py_split_append: "sep \<notin> set s \<Longrightarrow> py_split sep (s @ sep # t) = s # py_split sep t"
  by (induction s) auto

lemma py_join_Cons: "py_join [sep] (x # y # ys) = x @ sep # py_join [sep] (y # ys)"
  by (simp add: py_join_def)

lemma py_join_one: "py_join sep [x] = x"
  by (simp add: py_join_def)

lemma py_split_join:
  assumes "xs \<noteq> []" and "\<forall>x \<in> set xs. sep \<notin> set x"
  shows "py_split sep (py_join [sep] xs) = xs"
  using assms
proof (induction xs rule: induct_list012)
  case (3 x y zs)
  then show ?case by (simp add: py_join_Cons py_split_append)
qed (simp_all add: py_join_one py_split_plain)

lemma py_strip_fixed:
  assumes "\<not> py_isspace (hd s)" and "\<not> py_isspace (last s)"
  shows "py_strip s = s"
proof (cases s rule: rev_cases)
  case (snoc t c)
  from assms(1) have "py_lstrip s = s" by (cases s) (simp_all add: py_lstrip_def)
  with assms(2) snoc show ?thesis by (simp add: py_strip_def py_lstrip_def)
qed (simp add: py_strip_def py_lstrip_def)

lemma py_strip_ends:
  assumes "py_strip s = s" and "s \<noteq> []"
  shows "\<not> py_isspace (hd s)" "\<not> py_isspace (last s)"
proof -
  let ?l = "py_lstrip s"
  have "length (py_strip s) \<le> length ?l"
    unfolding py_strip_def py_lstrip_def by (metis length_dropWhile_le length_rev)
  with assms(1) have "length s \<le> length ?l" by simp
  moreover have "suffix ?l s" by (simp add: py_lstrip_def suffix_dropWhile)
  ultimately have l: "?l = s" by (metis suffix_length_le order_antisym same_length_different suffix_def append_Nil
      append_eq_append_conv)
  then show "\<not> py_isspace (hd s)" using assms(2) hd_dropWhile [of py_isspace s] by (simp add: py_lstrip_def)
  from assms(1) l have "py_lstrip (rev s) = rev s" by (metis py_strip_def rev_rev_ident)
  then show "\<not> py_isspace (last s)"
    using assms(2) hd_dropWhile [of py_isspace "rev s"] by (simp add: py_lstrip_def hd_rev)
qed

lemma py_join_ends:
  assumes "xs \<noteq> []" and "\<forall>x \<in> set xs. x \<noteq> []"
  shows "py_join sep xs \<noteq> []" "hd (py_join sep xs) = hd (hd xs)" "last (py_join sep xs) = last (last xs)"
proof -
  have "concat (map (\<lambda>q. sep @ q) ys) \<noteq> [] \<and> last (concat (map (\<lambda>q. sep @ q) ys)) = last (last ys)"
    if "ys \<noteq> []" "\<forall>y \<in> set ys. y \<noteq> []" for ys
    using that by (induction ys rule: rev_induct) auto
  with assms show "py_join sep xs \<noteq> []" "hd (py_join sep xs) = hd (hd xs)" "last (py_join sep xs) = last (last xs)"
    by (cases xs; auto simp: py_join_def)+
qed

lemma last_dumps_elems: "dumps_elems xs \<noteq> [] \<and> last (dumps_elems xs) = CHR '']''"
  by (induction xs) auto

lemma dumps_array_ends:
  "hd (dumps (JArr xs)) = CHR ''['' \<and> last (dumps (JArr xs)) = CHR '']'' \<and> dumps (JArr xs) \<noteq> []"
  using last_dumps_elems [of "tl xs"] by (cases xs) (simp_all add: dumps.simps)

text \<open>
  The two ways to write the CORS origins. Origins that are not empty, hold no comma, no surrounding
  space, and do not start with a bracket give the same list whether they are joined by commas, written
  as a JSON array or given as a list.
\<close>

theorem cors_formats_agree:
  assumes "\<forall>x \<in> set os. x \<noteq> [] \<and> py_strip x = x \<and> CHR '','' \<notin> set x \<and> hd x \<noteq> CHR ''[''"
  shows "assemble_cors_origins (JStr (py_join '','' os)) = Inr (JArr (map JStr os))
    \<and> assemble_cors_origins (JStr (dumps (JArr (map JStr os)))) = Inr (JArr (map JStr os))
    \<and> assemble_cors_origins (JArr (map JStr os)) = Inr (JArr (map JStr os))"
proof -
  have joined: "assemble_cors_origins (JStr (py_join '','' os)) = Inr (JArr (map JStr os))"
  proof (cases "os = []")
    case True
    then show ?thesis
      by (simp add: py_join_def assemble_cors_origins_def py_strip_def py_lstrip_def)
  next
    case False
    with assms have "py_join '','' os \<noteq> []" and first: "hd (py_join '','' os) = hd (hd os)"
      and "last (py_join '','' os) = last (last os)"
      by (simp_all add: py_join_ends)
    with False assms py_strip_ends [of "hd os"] py_strip_ends [of "last os"]
    have "py_strip (py_join '','' os) = py_join '','' os" by (intro py_strip_fixed) simp_all
    moreover have "\<not> prefix ''['' (py_join '','' os)"
      using first False assms by (auto simp: prefix_def)
    moreover have "py_split CHR '','' (py_join '','' os) = os" using False assms by (intro py_split_join) auto
    moreover have "map py_strip os = os" "filter (\<lambda>i. i \<noteq> []) os = os"
      using assms by (auto intro: map_idI)
    ultimately show ?thesis by (simp add: assemble_cors_origins_def Let_def)
  qed
  let ?t = "dumps (JArr (map JStr os))"
  have ends: "hd ?t = CHR ''[''" "last ?t = CHR '']''" "?t \<noteq> []"
    using dumps_array_ends by blast+
  have "py_strip ?t = ?t"
    by (rule py_strip_fixed) (simp_all only: ends, simp_all add: py_isspace_def)
  moreover have "prefix ''['' ?t" using ends(1,3) by (cases ?t) auto
  moreover have "loads ?t = Some (JArr (map JStr os))"
    by (rule loads_dumps) (simp add: json_all_ok_iff)
  ultimately have "assemble_cors_origins (JStr ?t) = Inr (JArr (map JStr os))"
    by (simp add: assemble_cors_origins_def Let_def del: dumps.simps)
  with joined show ?thesis by (simp add: assemble_cors_origins_def)
qed

lemma cors_formats_agree_witness:
  "assemble_cors_origins (JStr ''http://a,http://b:80'') = Inr (JArr [JStr ''http://a'', JStr ''http://b:80''])"
proof -
  have "\<forall>x \<in> set [''http://a'', ''http://b:80'']. x \<noteq> [] \<and> py_strip x = x \<and> CHR '','' \<notin> set x \<and> hd x \<noteq> CHR ''[''"
    by (simp add: py_strip_def py_lstrip_def py_isspace_def)
  from cors_formats_agree [OF this] show ?thesis by (simp add: py_join_def)
qed

end
