(* ===== verification/Routing.thy ===== *)
theory Routing
  imports Summary_Api Startup
begin

text \<open>
  Which function answers which request: the routes that \<open>app/api/v1\<close> and \<open>app/main.py\<close> declare, in
  the order they are registered, and how Starlette, as documented, picks one: the first route whose
  template matches the path and whose method is the request's; 405 when only a path matched; else a
  redirect when the path with its trailing slash added or removed would match; else 404.
\<close>

section \<open>Declared routes\<close>

datatype http_method = GET | HEAD | POST | PUT | PATCH | DELETE | OPTIONS

record endpoint =
  ep_method :: http_method
  ep_path :: string
  ep_name :: string  \<comment> \<open>the route function\<close>

definition declare_route :: "http_method \<Rightarrow> string \<Rightarrow> string \<Rightarrow> endpoint" where
  "declare_route m p f = \<lparr>ep_method = m, ep_path = p, ep_name = f\<rparr>"

definition health_endpoints :: "endpoint list" where
  "health_endpoints = [declare_route GET ''/health'' ''health_check'', declare_route GET ''/ready'' ''readiness_check'']"

definition auth_endpoints :: "endpoint list" where
  "auth_endpoints = [declare_route POST ''/register'' ''register'', declare_route POST ''/login'' ''login'',
     declare_route GET ''/me'' ''get_me'']"

definition booking_endpoints :: "endpoint list" where
  "booking_endpoints = [declare_route POST '''' ''create_booking'', declare_route GET '''' ''list_bookings'',
     declare_route GET ''/{booking_id}'' ''get_booking'', declare_route PATCH ''/{booking_id}'' ''update_booking'',
     declare_route POST ''/{booking_id}/cancel'' ''cancel_booking'', declare_route DELETE ''/{booking_id}'' ''delete_booking'']"

definition review_endpoints :: "endpoint list" where
  "review_endpoints = [declare_route POST '''' ''create_review'', declare_route GET '''' ''list_reviews'',
     declare_route POST ''/summarize'' ''trigger_review_summary'',
     declare_route GET ''/summarize/{job_id}'' ''get_review_summary_job'',
     declare_route GET ''/{review_id}'' ''get_review'', declare_route PATCH ''/{review_id}'' ''update_review'',
     declare_route DELETE ''/{review_id}'' ''delete_review'']"

definition provider_endpoints :: "endpoint list" where
  "provider_endpoints = [declare_route GET '''' ''list_providers'',
     declare_route GET ''/{provider_id}/availability'' ''check_provider_availability'',
     declare_route GET ''/{provider_id}/reviews/summary'' ''get_provider_review_summary'',
     declare_route GET ''/{provider_id}'' ''get_provider'']"

definition notification_endpoints :: "endpoint list" where
  "notification_endpoints = [declare_route GET '''' ''list_notifications'',
     declare_route PATCH ''/read-all'' ''mark_all_notifications_read'',
     declare_route PATCH ''/{notification_id}/read'' ''mark_notification_read'']"

text \<open>\<open>include_router\<close> puts its prefix before the paths.\<close>

definition include_router :: "string \<Rightarrow> endpoint list \<Rightarrow> endpoint list" where
  "include_router pre eps = map (\<lambda>e. e\<lparr>ep_path := pre @ ep_path e\<rparr>) eps"

definition api_endpoints :: "endpoint list" where
  "api_endpoints = include_router '''' health_endpoints @ include_router ''/auth'' auth_endpoints
     @ include_router ''/bookings'' booking_endpoints @ include_router ''/reviews'' review_endpoints
     @ include_router ''/providers'' provider_endpoints @ include_router ''/notifications'' notification_endpoints"

text \<open>\<open>app/main.py\<close>, with the prefix of the default settings.\<close>

definition app_endpoints :: "endpoint list" where
  "app_endpoints = health_endpoints @ include_router (API_V1_STR (default_settings [])) api_endpoints"

section \<open>Matching\<close>

definition is_param :: "string \<Rightarrow> bool" where
  "is_param t \<longleftrightarrow> prefix ''{'' t \<and> suffix ''}'' t"

text \<open>A parameter stands for one segment that is not empty; the result lists the parameters' values.\<close>

fun match_segments :: "string list \<Rightarrow> string list \<Rightarrow> (string \<times> string) list option" where
  "match_segments [] [] = Some []"
| "match_segments (t # ts) (s # ss) =
     (if is_param t
      then (if s = [] then None else map_option (\<lambda>m. (butlast (tl t), s) # m) (match_segments ts ss))
      else if t = s then match_segments ts ss else None)"
| "match_segments _ _ = None"

definition match_path :: "endpoint \<Rightarrow> string \<Rightarrow> (string \<times> string) list option" where
  "match_path e p = match_segments (py_split CHR ''/'' (ep_path e)) (py_split CHR ''/'' p)"

datatype routed =
    Found string "(string \<times> string) list"
  | MethodNotAllowed http_method  \<comment> \<open>the method that would be\<close>
  | RedirectSlash string
  | NoRoute

fun first_match :: "endpoint list \<Rightarrow> http_method \<Rightarrow> string \<Rightarrow> (string \<times> (string \<times> string) list) option" where
  "first_match [] m p = None"
| "first_match (e # es) m p = (case match_path e p of
       Some ps \<Rightarrow> if ep_method e = m then Some (ep_name e, ps) else first_match es m p
     | None \<Rightarrow> first_match es m p)"

definition first_partial :: "endpoint list \<Rightarrow> string \<Rightarrow> endpoint option" where
  "first_partial es p = find (\<lambda>e. match_path e p \<noteq> None) es"

definition toggle_slash :: "string \<Rightarrow> string" where
  "toggle_slash p = (if suffix ''/'' p then rev (dropWhile (\<lambda>c. c = CHR ''/'') (rev p)) else p @ ''/'')"

definition route_request :: "endpoint list \<Rightarrow> http_method \<Rightarrow> string \<Rightarrow> routed" where
  "route_request es m p = (case first_match es m p of
       Some (f, ps) \<Rightarrow> Found f ps
     | None \<Rightarrow>
         (case first_partial es p of
            Some e \<Rightarrow> MethodNotAllowed (ep_method e)
          | None \<Rightarrow> if p \<noteq> ''/'' \<and> first_partial es (toggle_slash p) \<noteq> None
                    then RedirectSlash (toggle_slash p) else NoRoute))"

section \<open>No two routes compete\<close>

text \<open>Templates that some path could match both.\<close>

fun overlap :: "string list \<Rightarrow> string list \<Rightarrow> bool" where
  "overlap [] [] = True"
| "overlap (t # ts) (u # us) = ((is_param t \<or> is_param u \<or> t = u) \<and> overlap ts us)"
| "overlap _ _ = False"

lemma match_overlap: "match_segments ts ss \<noteq> None \<Longrightarrow> match_segments us ss \<noteq> None \<Longrightarrow> overlap ts us"
  by (induction ts us arbitrary: ss rule: overlap.induct)
    (case_tac ss; force split: if_splits)+

definition compete :: "endpoint \<Rightarrow> endpoint \<Rightarrow> bool" where
  "compete d e \<longleftrightarrow> ep_method d = ep_method e
     \<and> overlap (py_split CHR ''/'' (ep_path d)) (py_split CHR ''/'' (ep_path e))"

definition unambiguous :: "endpoint list \<Rightarrow> bool" where
  "unambiguous es \<longleftrightarrow> list_all (\<lambda>d. list_all (\<lambda>e. compete d e \<longrightarrow> d = e) es) es"

lemma app_unambiguous: "unambiguous app_endpoints"
  by code_simp

lemma first_match_Some:
  "first_match es m p = Some (f, ps) \<Longrightarrow> \<exists>e \<in> set es. ep_method e = m \<and> ep_name e = f \<and> match_path e p = Some ps"
  by (induction es) (auto split: option.splits if_splits)

lemma first_match_None: "first_match es m p = None \<Longrightarrow> e \<in> set es \<Longrightarrow> ep_method e = m \<Longrightarrow> match_path e p = None"
  by (induction es) (auto split: option.splits if_splits)

lemma first_match_only:
  assumes "unambiguous es" and e: "e \<in> set es" "ep_method e = m" "match_path e p = Some ps"
  shows "first_match es m p = Some (ep_name e, ps)"
proof (cases "first_match es m p")
  case None
  from first_match_None [OF this e(1,2)] e(3) show ?thesis by simp
next
  case (Some r)
  obtain f qs where r: "r = (f, qs)" by (rule prod.exhaust)
  from first_match_Some [OF Some [unfolded r]] obtain d where
    d: "d \<in> set es" "ep_method d = m" "ep_name d = f" "match_path d p = Some qs" by blast
  with e have "compete d e" unfolding compete_def match_path_def by (auto intro: match_overlap)
  with assms(1) d(1) e(1) have "d = e" by (auto simp: unambiguous_def list_all_iff)
  with d e Some r show ?thesis by simp
qed

section \<open>Paths of the routes\<close>

definition segments :: "string \<Rightarrow> string list" where
  "segments = py_split CHR ''/''"

definition params_of :: "endpoint \<Rightarrow> string list" where
  "params_of e = map (\<lambda>t. butlast (tl t)) (filter is_param (segments (ep_path e)))"

fun fill :: "string list \<Rightarrow> string list \<Rightarrow> string list" where
  "fill [] vs = []"
| "fill (t # ts) vs =
     (if is_param t then (case vs of [] \<Rightarrow> fill ts [] | v # vs' \<Rightarrow> v # fill ts vs') else t # fill ts vs)"

text \<open>The template with its parameters replaced.\<close>

definition url_path :: "endpoint \<Rightarrow> string list \<Rightarrow> string" where
  "url_path e vs = py_join ''/'' (fill (segments (ep_path e)) vs)"

lemma py_split_pieces: "x \<in> set (py_split sep s) \<Longrightarrow> sep \<notin> set x"
  by (induction s arbitrary: x) (fastforce split: if_splits list.splits)+

lemma py_join_split: "py_join [sep] (py_split sep s) = s"
proof (induction s)
  case (Cons c cs)
  obtain q qs where q: "py_split sep cs = q # qs" by (cases "py_split sep cs") auto
  with Cons show ?case by (cases qs) (auto simp: py_join_def)
qed (simp add: py_join_def)

lemma match_iff_fill:
  "match_segments ts ss = Some ps \<longleftrightarrow>
     map fst ps = map (\<lambda>t. butlast (tl t)) (filter is_param ts) \<and> ss = fill ts (map snd ps) \<and> [] \<notin> snd ` set ps"
proof (induction ts ss arbitrary: ps rule: match_segments.induct)
  case (2 t ts s ss)
  show ?case
  proof (cases "is_param t")
    case True
    with 2(1) show ?thesis by (cases ps) auto
  next
    case False
    with 2(2) show ?thesis by auto
  qed
qed (auto split: if_splits list.splits)

lemma fill_pieces:
  "(\<And>t. t \<in> set ts \<Longrightarrow> c \<notin> set t) \<Longrightarrow> (\<And>v. v \<in> set vs \<Longrightarrow> c \<notin> set v) \<Longrightarrow> x \<in> set (fill ts vs) \<Longrightarrow> c \<notin> set x"
  by (induction ts vs rule: fill.induct) (auto split: if_splits list.splits)

lemma fill_subset: "length (filter is_param ts) = length vs \<Longrightarrow> set vs \<subseteq> set (fill ts vs)"
  by (induction ts vs rule: fill.induct) (auto split: list.splits)

lemma fill_ne: "ts \<noteq> [] \<Longrightarrow> length (filter is_param ts) = length vs \<Longrightarrow> fill ts vs \<noteq> []"
  by (cases ts; cases vs) auto

lemma match_path_iff:
  "match_path e p = Some ps \<longleftrightarrow> map fst ps = params_of e
     \<and> (\<forall>v \<in> set (map snd ps). v \<noteq> [] \<and> CHR ''/'' \<notin> set v) \<and> p = url_path e (map snd ps)"
proof -
  let ?ts = "segments (ep_path e)" and ?vs = "map snd ps"
  have pieces: "t \<in> set ?ts \<Longrightarrow> CHR ''/'' \<notin> set t" for t
    by (simp add: segments_def py_split_pieces)
  have "segments p = fill ?ts ?vs \<longleftrightarrow> (\<forall>v \<in> set ?vs. CHR ''/'' \<notin> set v) \<and> p = url_path e ?vs"
    if len: "length (filter is_param ?ts) = length ?vs"
  proof
    assume seg: "segments p = fill ?ts ?vs"
    then have "p = url_path e ?vs" using py_join_split [of "CHR ''/''" p] by (simp add: url_path_def segments_def)
    moreover have "CHR ''/'' \<notin> set v" if "v \<in> set ?vs" for v
    proof -
      have "v \<in> set (fill ?ts ?vs)" using fill_subset [OF len] that by blast
      then show ?thesis unfolding seg [symmetric] by (simp add: segments_def py_split_pieces)
    qed
    ultimately show "(\<forall>v \<in> set ?vs. CHR ''/'' \<notin> set v) \<and> p = url_path e ?vs" by blast
  next
    assume vs: "(\<forall>v \<in> set ?vs. CHR ''/'' \<notin> set v) \<and> p = url_path e ?vs"
    have "fill ?ts ?vs \<noteq> []" using len by (intro fill_ne) (simp_all add: segments_def)
    moreover have "\<forall>x \<in> set (fill ?ts ?vs). CHR ''/'' \<notin> set x" using fill_pieces [OF pieces] vs by blast
    ultimately have "py_split CHR ''/'' (py_join [CHR ''/''] (fill ?ts ?vs)) = fill ?ts ?vs" by (rule py_split_join)
    with vs show "segments p = fill ?ts ?vs" by (simp add: url_path_def segments_def)
  qed
  moreover have "map fst ps = params_of e \<Longrightarrow> length (filter is_param ?ts) = length ?vs"
    unfolding params_of_def by (metis length_map)
  moreover have "match_path e p = Some ps \<longleftrightarrow> map fst ps = params_of e \<and> segments p = fill ?ts ?vs \<and> [] \<notin> set ?vs"
    unfolding match_path_def segments_def [symmetric] match_iff_fill params_of_def by simp
  ultimately show ?thesis by blast
qed

section \<open>Property\<close>

lemma route_found:
  assumes "e \<in> set app_endpoints" and "length vs = length (params_of e)"
    and "\<forall>v \<in> set vs. v \<noteq> [] \<and> CHR ''/'' \<notin> set v"
  shows "route_request app_endpoints (ep_method e) (url_path e vs) = Found (ep_name e) (zip (params_of e) vs)"
proof -
  have "match_path e (url_path e vs) = Some (zip (params_of e) vs)"
    using assms(2,3) by (simp add: match_path_iff)
  with first_match_only [OF app_unambiguous assms(1) refl this] show ?thesis by (simp add: route_request_def)
qed

text \<open>
  C15: routing is exact. In whatever order the routes are registered, a request is handled by the
  function \<open>f\<close> with the path parameters \<open>ps\<close> exactly when one of the declared routes has that method and
  that function and its template, filled with the values, is the path (values that are not empty and
  hold no slash). So no route hides another: \<open>/notifications/read-all\<close>, \<open>/reviews/summarize/{job_id}\<close> and
  \<open>/providers/{provider_id}/reviews/summary\<close> are reached as declared.
\<close>

theorem routing_exact:
  assumes "set es = set app_endpoints"
  shows "route_request es m p = Found f ps \<longleftrightarrow>
    (\<exists>e \<in> set app_endpoints. ep_method e = m \<and> ep_name e = f \<and> map fst ps = params_of e
       \<and> (\<forall>v \<in> set (map snd ps). v \<noteq> [] \<and> CHR ''/'' \<notin> set v) \<and> p = url_path e (map snd ps))"
proof -
  have "unambiguous es"
    using app_unambiguous unfolding unambiguous_def list_all_iff assms .
  then have "first_match es m p = Some (f, ps) \<longleftrightarrow>
      (\<exists>e \<in> set app_endpoints. ep_method e = m \<and> ep_name e = f \<and> match_path e p = Some ps)"
    using first_match_Some [of es m p f ps] first_match_only [of es] assms by blast
  moreover have "route_request es m p = Found f ps \<longleftrightarrow> first_match es m p = Some (f, ps)"
    by (auto simp: route_request_def split: option.splits)
  ultimately show ?thesis unfolding match_path_iff by simp
qed

definition cancel_endpoint :: endpoint where
  "cancel_endpoint = declare_route POST ''/api/v1/bookings/{booking_id}/cancel'' ''cancel_booking''"

lemma routing_exact_witness:
  "route_request (rev app_endpoints) POST (url_path cancel_endpoint [uuid_str (UUID 10)])
     = Found ''cancel_booking'' [(''booking_id'', uuid_str (UUID 10))]"
proof -
  have "cancel_endpoint \<in> set app_endpoints" "params_of cancel_endpoint = [''booking_id'']" by code_simp+
  moreover have "CHR ''/'' \<notin> set (uuid_str (UUID 10))"
    using uuid_str_chars [of "CHR ''/''"] by (auto simp: is_hex_def)
  ultimately show ?thesis
    by (intro iffD2 [OF routing_exact] bexI [of _ cancel_endpoint]) (simp_all add: cancel_endpoint_def declare_route_def)
qed

text \<open>The README announces \<open>POST /notifications/read-all\<close>; the route is a \<open>PATCH\<close>.\<close>

lemma read_all_is_patch:
  "route_request app_endpoints POST ''/api/v1/notifications/read-all'' = MethodNotAllowed PATCH"
  "route_request app_endpoints PATCH ''/api/v1/notifications/read-all'' = Found ''mark_all_notifications_read'' []"
  "route_request app_endpoints GET ''/api/v1/reviews/summarize'' = Found ''get_review'' [(''review_id'', ''summarize'')]"
  "route_request app_endpoints GET ''/api/v1/bookings/'' = RedirectSlash ''/api/v1/bookings''"
  by code_simp+

end
