(* ===== verification/Responses.thy ===== *)
theory Responses
  imports Robustness
begin

text \<open>
  What an answer carries: rows that are in the database once the request is over, within the bounds
  that the response models of \<open>app/schemas\<close> declare, so that FastAPI's validation of an answer never
  fails.
\<close>

section \<open>Faithful answers\<close>

fun stored_in :: "database \<Rightarrow> 'tok reply \<Rightarrow> bool" where
  "stored_in db (BookingOut b) = (b \<in> set (bookings db))"
| "stored_in db (BookingsOut bs) = (set bs \<subseteq> set (bookings db))"
| "stored_in db (ReviewOut r) = (r \<in> set (reviews db))"
| "stored_in db (ReviewsOut rs) = (set rs \<subseteq> set (reviews db))"
| "stored_in db (NotificationOut n) = (n \<in> notification_response_of ` set (notifications db))"
| "stored_in db (NotificationsOut ns) = (set ns \<subseteq> notification_response_of ` set (notifications db))"
| "stored_in db (UserOut x) = (x \<in> user_response_of ` set (users db))"
| "stored_in db (UsersOut xs) = (set xs \<subseteq> user_response_of ` {u \<in> set (users db). u_role u = PROVIDER})"
| "stored_in db (SummaryOut x) = (x = summarize db (rs_provider_id x))"
| "stored_in db (AvailabilityOut a) = (av_start_time a < av_end_time a
     \<and> av_available a = is_provider_available db (av_provider_id a) (av_start_time a) (av_end_time a) None)"
| "stored_in db (TokenOut t ty) = (ty = ''bearer'')"
| "stored_in db (MarkedOut msg k) = (msg \<noteq> [])"
| "stored_in db NoContent = True"

text \<open>The declared bounds: \<open>ge\<close>, \<open>le\<close>, the keys of the distribution, the columns' sizes and ranges.\<close>

definition booking_shape :: "booking \<Rightarrow> bool" where
  "booking_shape b \<longleftrightarrow> b_start_time b < b_end_time b \<and> b_customer_id b \<noteq> b_provider_id b
     \<and> length (b_service_name b) \<le> 255"

definition review_shape :: "review \<Rightarrow> bool" where
  "review_shape r \<longleftrightarrow> r_rating r \<in> {1..5}"

definition user_shape :: "user_response \<Rightarrow> bool" where
  "user_shape u \<longleftrightarrow> length (ur_public_name u) \<le> 255 \<and> length (ur_public_email u) \<le> 255"

fun conforms :: "'tok reply \<Rightarrow> bool" where
  "conforms (BookingOut b) = booking_shape b"
| "conforms (BookingsOut bs) = list_all booking_shape bs"
| "conforms (ReviewOut r) = review_shape r"
| "conforms (ReviewsOut rs) = list_all review_shape rs"
| "conforms (NotificationOut n) = (length (nr_title n) \<le> 255)"
| "conforms (NotificationsOut ns) = list_all (\<lambda>n. length (nr_title n) \<le> 255) ns"
| "conforms (UserOut x) = user_shape x"
| "conforms (UsersOut xs) = list_all user_shape xs"
| "conforms (SummaryOut x) = (rs_average_rating x \<le> 500
     \<and> map fst (rs_rating_distribution x) = [1..5]
     \<and> sum_list (map snd (rs_rating_distribution x)) = rs_review_count x)"
| "conforms (AvailabilityOut a) = (av_start_time a < av_end_time a)"
| "conforms (TokenOut t ty) = (ty = ''bearer'')"
| "conforms (MarkedOut msg k) = (msg \<noteq> [])"
| "conforms NoContent = True"

lemma summary_conforms:
  assumes "integrity db"
  shows "conforms (SummaryOut (summarize db pid))"
proof -
  let ?rs = "provider_ratings db pid"
  from assms have range: "\<forall>r \<in> set ?rs. 1 \<le> r \<and> r \<le> 5"
    by (auto simp: provider_ratings_def integrity_def reviews_ok_def review_checks_def)
  have "average_hundredths ?rs \<le> 5 * 100"
  proof (cases "?rs = []")
    case False
    then show ?thesis using average_rating_bounds [of ?rs 1 5] range by simp
  qed (simp add: average_hundredths_def)
  moreover have "map fst (rating_distribution ?rs) = [1..5]"
    by (simp only: rating_distribution_counts [OF range, THEN conjunct1] map_fst_pairs)
  ultimately show ?thesis
    using rating_distribution_counts [OF range, THEN conjunct2] by (simp add: summarize_def Let_def)
qed

lemma stored_conforms:
  assumes ok: "integrity db" and "stored_in db x"
  shows "conforms x"
proof -
  have b: "b \<in> set (bookings db) \<Longrightarrow> booking_shape b" for b
    using ok by (auto simp: integrity_def bookings_ok_def booking_checks_def booking_sized_def booking_shape_def pg_string_def)
  have r: "r \<in> set (reviews db) \<Longrightarrow> review_shape r" for r
    using ok by (auto simp: integrity_def reviews_ok_def review_checks_def review_shape_def)
  have u: "u \<in> set (users db) \<Longrightarrow> user_shape (user_response_of u)" for u
    using ok by (auto simp: integrity_def users_ok_def user_sized_def user_shape_def user_response_of_def pg_string_def)
  have n: "n \<in> set (notifications db) \<Longrightarrow> length (nr_title (notification_response_of n)) \<le> 255" for n
    using ok by (auto simp: integrity_def notifications_ok_def notification_sized_def notification_response_of_def)
  show ?thesis
  proof (cases x)
    case (SummaryOut s)
    with assms(2) summary_conforms [OF ok, of "rs_provider_id s"] show ?thesis by simp
  qed (use assms(2) b r u n in \<open>auto simp: list_all_iff subset_iff\<close>)
qed

section \<open>The routes\<close>

definition stored_answer :: "user \<Rightarrow> environment \<Rightarrow> database \<Rightarrow> failure + int \<times> 'tok reply \<Rightarrow> database \<Rightarrow> bool" where
  "stored_answer u env db r db' \<longleftrightarrow> (u \<in> set (users db) \<longrightarrow> (\<forall>n x. r = Inr (n, x) \<longrightarrow> stored_in db' x))"

interpretation stored: route_contract "stored_answer u" for u
  by unfold_locales (simp add: stored_answer_def)

lemma stored_return [route_intros]:
  "(\<And>db. u \<in> set (users db) \<Longrightarrow> stored_in db x) \<Longrightarrow> upholds (stored_answer u) (returnE (n, x))"
  by (simp add: upholds_def stored_answer_def)

lemma stored_read:
  "(\<And>db. stored_in db (g (f db)))
    \<Longrightarrow> upholds (stored_answer u) (bindE (liftE (select_rows c f)) (\<lambda>x. returnE (n, g x)))"
  by (simp add: upholds_def stored_answer_def lift_return_run select_rows_run)

lemma stored_handler:
  assumes "\<And>env db x db'. with_session env h db = (Inr x, db') \<Longrightarrow> stored_in db' (g x)"
  shows "upholds (stored_answer u) (bindE (liftE h) (\<lambda>x. returnE (n, g x)))"
proof -
  have "stored_in (store t) (g x)" if "h (open_session env db) = (Inr x, t)" for env db x t
    using assms [OF iffD2 [OF with_session_run]] that by blast
  then show ?thesis by (intro stored.handler) (simp_all add: stored_answer_def)
qed

lemma save_booking_stored:
  assumes "save_booking b s = (Inr r, t)" and "pending s = []"
  shows "r \<in> set (bookings (store t))"
  using assms by (auto simp: save_booking_run get_booking_def split: sum.splits
      dest!: update_row_get dest: lookup_by_Some)

lemma create_booking_stored: "with_session env (create_booking cid b) db = (Inr r, db') \<Longrightarrow> r \<in> set (bookings db')"
  using create_booking_effect by fastforce

lemma get_booking_stored: "with_session env (get_booking_by_id bid u) db = (Inr r, db') \<Longrightarrow> r \<in> set (bookings db')"
  by (auto simp: with_session_run get_booking_def dest!: get_booking_by_id_Inr dest: lookup_by_Some)

lemma update_booking_stored:
  assumes "with_session env (update_booking bid upd u) db = (Inr r, db')"
  shows "r \<in> set (bookings db')"
  using assms by (rule update_booking_saves) (use save_booking_stored in simp)

lemma cancel_booking_stored:
  assumes "with_session env (cancel_booking bid u) db = (Inr r, db')"
  shows "r \<in> set (bookings db')"
  using assms by (rule cancel_booking_saves) (use save_booking_stored in simp)

lemma create_review_stored: "with_session env (create_review u rin) db = (Inr r, db') \<Longrightarrow> r \<in> set (reviews db')"
  using create_review_effect by fastforce

lemma get_review_stored: "with_session env (get_review_by_id rid u) db = (Inr r, db') \<Longrightarrow> r \<in> set (reviews db')"
  by (auto simp: with_session_run get_review_by_id_def db_get_review_def session_run get_review_def
      split: option.splits if_splits dest: lookup_by_Some)

lemma update_review_stored:
  assumes "with_session env (update_review rid upd u) db = (Inr r, db')"
  shows "r \<in> set (reviews db')"
proof -
  from assms obtain t q where "save_review (edit_review upd q) (open_session env db) = (Inr r, t)" "db' = store t"
    by (auto simp: with_session_run update_review_def db_get_review_def session_run split: option.splits if_splits)
  then show ?thesis
    by (auto simp: save_review_run get_review_def split: sum.splits
        dest!: review_table.get_upd_same dest: lookup_by_Some)
qed

lemma summary_stored:
  "with_session env (get_provider_review_summary pid) db = (Inr x, db') \<Longrightarrow> x = summarize db' (rs_provider_id x)"
  by (auto simp: with_session_run get_provider_review_summary_def db_get_user_def session_run summarize_def Let_def
      split: option.splits if_splits)

lemma availability_stored:
  "with_session env (check_provider_availability pid a z) db = (Inr x, db') \<Longrightarrow>
     stored_in db' (AvailabilityOut x :: 'tok reply)"
  by (auto simp: with_session_run check_provider_availability_def get_provider_by_id_def availability_response_def
      db_get_user_def session_run thenE_def bindE_def readE_def raiseE_def returnE_def raise_if_apply
      split: option.splits if_splits)

lemma stored_handlers [route_intros]:
  "upholds (stored_answer u) (bindE (liftE (create_booking cid b)) (\<lambda>x. returnE (n, BookingOut x)))"
  "upholds (stored_answer u) (bindE (liftE (get_booking_by_id bid u)) (\<lambda>x. returnE (n, BookingOut x)))"
  "upholds (stored_answer u) (bindE (liftE (update_booking bid upd u)) (\<lambda>x. returnE (n, BookingOut x)))"
  "upholds (stored_answer u) (bindE (liftE (cancel_booking bid u)) (\<lambda>x. returnE (n, BookingOut x)))"
  "upholds (stored_answer u) (bindE (liftE (create_review u rin)) (\<lambda>x. returnE (n, ReviewOut x)))"
  "upholds (stored_answer u) (bindE (liftE (get_review_by_id rid u)) (\<lambda>x. returnE (n, ReviewOut x)))"
  "upholds (stored_answer u) (bindE (liftE (update_review rid rupd u)) (\<lambda>x. returnE (n, ReviewOut x)))"
  "upholds (stored_answer u) (bindE (liftE (get_provider_review_summary pid)) (\<lambda>a. returnE (n, SummaryOut a)))"
  "upholds (stored_answer u) (bindE (liftE (check_provider_availability pid a z)) (\<lambda>x. returnE (n, AvailabilityOut x)))"
  by (rule stored_handler, (erule availability_stored | unfold stored_in.simps,
      erule create_booking_stored get_booking_stored update_booking_stored cancel_booking_stored
        create_review_stored get_review_stored update_review_stored summary_stored))+

lemma stored_profile [route_intros]:
  "upholds (stored_answer u) (bindE (liftE (get_provider_by_id pid)) (\<lambda>v. returnE (n, UserOut (user_response_of v))))"
  by (rule stored_handler) (auto dest!: get_provider_result)

lemma stored_marked [route_intros]:
  "upholds (stored_answer u) (bindE (liftE (mark_notification_as_read nid uid))
     (\<lambda>x. returnE (n, NotificationOut (notification_response_of x))))"
  by (rule stored_handler) (auto dest!: mark_read_result)

lemma stored_rowless [route_intros]:
  "upholds (stored_answer u) (bindE (liftE h1) (\<lambda>x. returnE (n, NoContent)))"
  "upholds (stored_answer u) (bindE (liftE h2) (\<lambda>k. returnE (n, MarkedOut (c # msg) k)))"
  by (rule stored_handler, simp)+

lemma list_bookings_stored: "set (list_bookings db u st k l) \<subseteq> set (bookings db)"
  unfolding list_bookings_def Let_def
  by (rule order.trans [OF set_paginate]) (auto split: user_role.splits option.splits)

lemma list_reviews_stored: "set (list_reviews db u p r k l) \<subseteq> set (reviews db)"
  unfolding list_reviews_def Let_def order_by_desc_def
  by (rule order.trans [OF set_paginate]) (auto split: user_role.splits option.splits)

lemma stored_lists [route_intros]:
  "upholds (stored_answer u) (bindE (liftE (select_rows c (\<lambda>db. list_bookings db u st k l))) (\<lambda>x. returnE (n, BookingsOut x)))"
  "upholds (stored_answer u) (bindE (liftE (select_rows c (\<lambda>db. list_reviews db u p r k l))) (\<lambda>x. returnE (n, ReviewsOut x)))"
  "upholds (stored_answer u) (bindE (liftE (select_rows c (\<lambda>db. list_notifications db uid k l only)))
     (\<lambda>x. returnE (n, NotificationsOut (map notification_response_of x))))"
  "upholds (stored_answer u) (bindE (liftE (select_rows c (\<lambda>db. list_providers co db q k l)))
     (\<lambda>x. returnE (n, UsersOut (map user_response_of x))))"
  by (rule stored_read, use list_bookings_stored list_reviews_stored in simp,
      (auto dest!: list_notifications_set list_providers_set)?)+

lemma stored_me [route_intros]: "upholds (stored_answer u) (returnE (n, UserOut (user_response_of u)))"
  by (auto intro!: stored_return)

definition faithful_route :: "(int \<times> 'tok reply) route \<Rightarrow> bool" where
  "faithful_route m \<longleftrightarrow> (\<forall>env db n x s. good db \<longrightarrow> m (open_session env db) = (Inr (n, x), s) \<longrightarrow> stored_in (store s) x)"

lemma caller_stored:
  assumes "\<And>u. upholds (stored_answer u) (k u)"
  shows "faithful_route (bindE (caller app tok) k)"
  unfolding faithful_route_def
proof (intro allI impI)
  fix env db n x s
  assume run: "bindE (caller app tok) k (open_session env db) = (Inr (n, x), s)"
  then obtain u where u: "fst (get_current_user (app_jwt app) (app_settings app) tok (open_session env db)) = Inr u"
    and k: "k u (open_session env db) = (Inr (n, x), s)"
    by (auto simp: caller_run split: sum.splits)
  from upholdsD [OF assms k] current_user_named [OF u] show "stored_in (store s) x" by (auto simp: stored_answer_def)
qed

lemma login_stored: "faithful_route (auth_router app salt tok (Login raw))"
  by (auto simp: faithful_route_def validE_def bindE_def liftE_def returnE_def raiseE_def split: prod.splits sum.splits)

lemma register_stored: "faithful_route (auth_router app salt tok (Register raw))"
  unfolding faithful_route_def
proof (intro allI impI)
  fix env db n x s
  assume good: "good db" and "auth_router app salt tok (Register raw) (open_session env db) = (Inr (n, x), s)"
  then obtain rin u where v: "validate_user_register raw = Inr rin" and x: "x = UserOut (user_response_of u)"
    and h: "register_user (app_bcrypt app) salt rin (open_session env db) = (Inr u, s)"
    by (auto simp: validE_def bindE_def liftE_def returnE_def raiseE_def split: prod.splits sum.splits)
  from h have run: "with_session env (register_user (app_bcrypt app) salt rin) db = (Inr u, store s)"
    by (auto simp: with_session_run)
  from good have old: "emails_ok db" "integrity db" by (simp_all add: good_def)
  have "email_normal (ur_email rin)" using v by (auto simp: validate_user_register_iff intro: email_normal_norm)
  from run [unfolded register_user_run [OF old this]] have "u \<in> set (users d)" if "store s = d" for d
    unfolding that by (auto simp: Let_def insert_user_def split: if_splits sum.splits)
  then have "u \<in> set (users (store s))" by simp
  with x show "stored_in (store s) x" by simp
qed

lemma routes_faithful: "faithful_route (api_router app salt tok c)"
proof (cases c)
  case (Auth a)
  then show ?thesis by (cases a) (auto intro!: caller_stored stored_me simp: login_stored register_stored simp del: auth_router.simps(1,2))
next
  case (Bookings b)
  then show ?thesis by (cases b) (auto intro!: caller_stored route_intros)
next
  case (Reviews r)
  then show ?thesis by (cases r) (auto intro!: caller_stored route_intros)
next
  case (Providers p)
  then show ?thesis by (cases p) (auto intro!: caller_stored route_intros)
next
  case (Notifications n)
  then show ?thesis by (cases n) (auto intro!: caller_stored route_intros)
qed

lemma answers_stored:
  assumes good: "good db" and run: "serve app salt env tok c db = (Inr (n, x), db')"
  shows "stored_in db' x \<and> conforms x"
proof -
  from run obtain s where route: "api_router app salt tok c (open_session env db) = (Inr (n, x), s)" and db': "db' = store s"
    by (auto simp: serve_def split: prod.splits)
  from routes_faithful [of app salt tok c] good route db' have stored: "stored_in db' x"
    by (auto simp: faithful_route_def)
  moreover from serve_lawful [OF run good] have "integrity db'" by (simp add: good_def)
  ultimately show ?thesis using stored_conforms by blast
qed

end
