(* ===== verification/Http.thy ===== *)
theory Http
  imports Routing Responses
begin

text \<open>
  The application as its clients see it: a request line, a token and what the query string and the body
  hold go in, an answer comes out. The route is found first; then FastAPI resolves the caller, then
  reads the path's identifiers, the query and the body, and calls the route function. Identifiers are
  read by pydantic's parser, a parameter here. A \<open>payload\<close> is a query string or a body whose fields
  have their types; one that was made for another route counts as absent.
\<close>

section \<open>Requests\<close>

datatype payload =
    NoPayload
  | ForRegister user_register
  | ForLogin user_login
  | ForBooking booking_create_body
  | ForBookingUpdate booking_update_body
  | ForBookings "booking_status option" "int option" "int option"
  | ForReview review_create
  | ForReviewUpdate review_update
  | ForReviews "uuid option" "int option" "int option" "int option"
  | ForSummary uuid
  | ForProviders "string option" "int option" "int option"
  | ForSlot py_datetime py_datetime
  | ForNotifications "int option" "int option" bool

record 'tok http_request =
  rq_method :: http_method
  rq_path :: string
  rq_token :: "'tok option"
  rq_payload :: payload

text \<open>What a route function is called with.\<close>

datatype target = Api call | Summary summary_call | Live | Readiness

text \<open>
  The call of a route function with identifiers from the path and a payload; \<open>None\<close> when something it
  requires is missing. Query parameters have defaults.
\<close>

definition route_functions :: "(string \<times> (uuid list \<times> payload \<Rightarrow> target option)) list" where
  "route_functions =
    [(''health_check'', \<lambda>x. Some Live), (''readiness_check'', \<lambda>x. Some Readiness),
     (''register'', \<lambda>x. case x of ([], ForRegister b) \<Rightarrow> Some (Api (Auth (Register b))) | _ \<Rightarrow> None),
     (''login'', \<lambda>x. case x of ([], ForLogin b) \<Rightarrow> Some (Api (Auth (Login b))) | _ \<Rightarrow> None),
     (''get_me'', \<lambda>x. Some (Api (Auth GetMe))),
     (''create_booking'', \<lambda>x. case x of ([], ForBooking b) \<Rightarrow> Some (Api (Bookings (CreateBooking b))) | _ \<Rightarrow> None),
     (''list_bookings'', \<lambda>x. case x of ([], ForBookings st k l) \<Rightarrow> Some (Api (Bookings (ListBookings st k l)))
        | _ \<Rightarrow> Some (Api (Bookings (ListBookings None None None)))),
     (''get_booking'', \<lambda>x. case x of ([i], _) \<Rightarrow> Some (Api (Bookings (GetBooking i))) | _ \<Rightarrow> None),
     (''update_booking'', \<lambda>x. case x of ([i], ForBookingUpdate b) \<Rightarrow> Some (Api (Bookings (UpdateBooking i b))) | _ \<Rightarrow> None),
     (''cancel_booking'', \<lambda>x. case x of ([i], _) \<Rightarrow> Some (Api (Bookings (CancelBooking i))) | _ \<Rightarrow> None),
     (''delete_booking'', \<lambda>x. case x of ([i], _) \<Rightarrow> Some (Api (Bookings (DeleteBooking i))) | _ \<Rightarrow> None),
     (''create_review'', \<lambda>x. case x of ([], ForReview b) \<Rightarrow> Some (Api (Reviews (CreateReview b))) | _ \<Rightarrow> None),
     (''list_reviews'', \<lambda>x. case x of ([], ForReviews p r k l) \<Rightarrow> Some (Api (Reviews (ListReviews p r k l)))
        | _ \<Rightarrow> Some (Api (Reviews (ListReviews None None None None)))),
     (''trigger_review_summary'', \<lambda>x. case x of ([], ForSummary p) \<Rightarrow> Some (Summary (TriggerSummary p)) | _ \<Rightarrow> None),
     (''get_review_summary_job'', \<lambda>x. case x of ([i], _) \<Rightarrow> Some (Summary (GetSummaryJob i)) | _ \<Rightarrow> None),
     (''get_review'', \<lambda>x. case x of ([i], _) \<Rightarrow> Some (Api (Reviews (GetReview i))) | _ \<Rightarrow> None),
     (''update_review'', \<lambda>x. case x of ([i], ForReviewUpdate b) \<Rightarrow> Some (Api (Reviews (UpdateReview i b))) | _ \<Rightarrow> None),
     (''delete_review'', \<lambda>x. case x of ([i], _) \<Rightarrow> Some (Api (Reviews (DeleteReview i))) | _ \<Rightarrow> None),
     (''list_providers'', \<lambda>x. case x of ([], ForProviders s k l) \<Rightarrow> Some (Api (Providers (ListProviders s k l)))
        | _ \<Rightarrow> Some (Api (Providers (ListProviders None None None)))),
     (''check_provider_availability'', \<lambda>x. case x of ([i], ForSlot a z) \<Rightarrow> Some (Api (Providers (CheckAvailability i a z)))
        | _ \<Rightarrow> None),
     (''get_provider_review_summary'', \<lambda>x. case x of ([i], _) \<Rightarrow> Some (Api (Providers (ProviderSummary i))) | _ \<Rightarrow> None),
     (''get_provider'', \<lambda>x. case x of ([i], _) \<Rightarrow> Some (Api (Providers (GetProvider i))) | _ \<Rightarrow> None),
     (''list_notifications'', \<lambda>x. case x of ([], ForNotifications k l only) \<Rightarrow>
          Some (Api (Notifications (ListNotifications k l only)))
        | _ \<Rightarrow> Some (Api (Notifications (ListNotifications None None False)))),
     (''mark_all_notifications_read'', \<lambda>x. Some (Api (Notifications MarkAllRead))),
     (''mark_notification_read'', \<lambda>x. case x of ([i], _) \<Rightarrow> Some (Api (Notifications (MarkRead i))) | _ \<Rightarrow> None)]"

definition target_of :: "string \<Rightarrow> uuid list \<Rightarrow> payload \<Rightarrow> target option" where
  "target_of f ids pl = (case map_of route_functions f of None \<Rightarrow> None | Some h \<Rightarrow> h (ids, pl))"

text \<open>The routes without \<open>Depends(get_current_user)\<close>.\<close>

definition open_functions :: "string list" where
  "open_functions = [''health_check'', ''readiness_check'', ''register'', ''login'']"

section \<open>Errors of the input\<close>

definition path_errors :: "'tok app \<Rightarrow> (string \<Rightarrow> uuid option) \<Rightarrow> (string \<times> string) list \<Rightarrow> validation_error list" where
  "path_errors app parse ps =
     map (\<lambda>(n, v). located app ''path'' (Constraint n)) (filter (\<lambda>(n, v). parse v = None) ps)"

definition errors_of :: "'tok app \<Rightarrow> string \<Rightarrow> 'a validated \<Rightarrow> validation_error list" where
  "errors_of app place v = (case v of Inl errs \<Rightarrow> map (located app place) errs | Inr x \<Rightarrow> [])"

text \<open>What FastAPI finds wrong with the query or the body of a call.\<close>

fun input_errors :: "'tok app \<Rightarrow> target \<Rightarrow> validation_error list" where
  "input_errors app (Api (Auth (Register b))) = errors_of app ''body'' (validate_user_register b)"
| "input_errors app (Api (Auth (Login b))) = errors_of app ''body'' (validate_user_login b)"
| "input_errors app (Api (Bookings (CreateBooking b))) = errors_of app ''body'' (validate_booking_create b)"
| "input_errors app (Api (Bookings (UpdateBooking i b))) = errors_of app ''body'' (validate_booking_update b)"
| "input_errors app (Api (Bookings (ListBookings st k l))) = errors_of app ''query'' (validate_page k l)"
| "input_errors app (Api (Reviews (CreateReview b))) = errors_of app ''body'' (validate_review_create b)"
| "input_errors app (Api (Reviews (UpdateReview i b))) = errors_of app ''body'' (validate_review_update b)"
| "input_errors app (Api (Reviews (ListReviews p r k l))) =
     errors_of app ''query'' (also_valid (if_given (int_between ''rating'' 1 5) r) (validate_page k l))"
| "input_errors app (Api (Providers (ListProviders s k l))) =
     errors_of app ''query'' (also_valid (if_given (str_between ''search'' 0 100) s) (validate_page k l))"
| "input_errors app (Api (Notifications (ListNotifications k l only))) = errors_of app ''query'' (validate_page k l)"
| "input_errors app _ = []"

text \<open>A required input that is absent: the two times of the slot, or the body.\<close>

definition missing_errors :: "'tok app \<Rightarrow> string \<Rightarrow> validation_error list" where
  "missing_errors app f =
     (if f = ''check_provider_availability''
      then map (located app ''query'') [Constraint ''start_time'', Constraint ''end_time'']
      else [\<lparr>ve_loc = [LStr ''body''], ve_msg = app_constraint app ''body''\<rparr>])"

section \<open>Answers\<close>

datatype 'tok answer =
    Refused response
  | Redirect string
  | Documentation string
  | Answered int "'tok reply"
  | SummaryAnswered int summary_reply
  | Probe response

fun answer_code :: "'tok answer \<Rightarrow> int" where
  "answer_code (Refused r) = rsp_status r"
| "answer_code (Redirect q) = 307"
| "answer_code (Documentation p) = 200"
| "answer_code (Answered n x) = n"
| "answer_code (SummaryAnswered n x) = n"
| "answer_code (Probe r) = rsp_status r"

definition method_name :: "http_method \<Rightarrow> string" where
  "method_name m = (case m of GET \<Rightarrow> ''GET'' | HEAD \<Rightarrow> ''HEAD'' | POST \<Rightarrow> ''POST'' | PUT \<Rightarrow> ''PUT''
     | PATCH \<Rightarrow> ''PATCH'' | DELETE \<Rightarrow> ''DELETE'' | OPTIONS \<Rightarrow> ''OPTIONS'')"

type_synonym ('tok, 'r) world = "'tok answer \<times> database \<times> 'r broker"

text \<open>\<open>db_ready\<close>: what \<open>check_db_connection\<close> finds.\<close>

fun call_target :: "'tok app \<Rightarrow> string \<Rightarrow> environment \<Rightarrow> bool \<Rightarrow> 'tok option \<Rightarrow> target
    \<Rightarrow> database \<Rightarrow> 'r broker \<Rightarrow> ('tok, 'r) world" where
  "call_target app salt env db_ready tok (Api c) db b = (case serve app salt env tok c db of
       (Inl f, db') \<Rightarrow> (Refused (respond f), db', b) | (Inr (n, x), db') \<Rightarrow> (Answered n x, db', b))"
| "call_target app salt env db_ready tok (Summary c) db b = (case summary_routes app env tok db c b of
       (Inl f, b') \<Rightarrow> (Refused (respond f), db, b') | (Inr (n, x), b') \<Rightarrow> (SummaryAnswered n x, db, b'))"
| "call_target app salt env db_ready tok Live db b =
     (Probe \<lparr>rsp_status = 200, rsp_content = health_check, rsp_headers = []\<rparr>, db, b)"
| "call_target app salt env db_ready tok Readiness db b = (case readiness_check db_ready b of
       (Inl e, b') \<Rightarrow> (Refused unhandled_exception_handler, db, b') | (Inr r, b') \<Rightarrow> (Probe r, db, b'))"

text \<open>Dependencies come first: a protected route whose input is wrong still asks for the caller.\<close>

definition invalid_input :: "'tok app \<Rightarrow> environment \<Rightarrow> 'tok option \<Rightarrow> string \<Rightarrow> validation_error list
    \<Rightarrow> database \<Rightarrow> 'tok answer" where
  "invalid_input app env tok f errs db =
     (if f \<in> set open_functions then Refused (respond (Invalid errs))
      else case fst (get_current_user (app_jwt app) (app_settings app) tok (open_session env db)) of
             Inl e \<Rightarrow> Refused (respond (Raised e))
           | Inr u \<Rightarrow> Refused (respond (Invalid errs)))"

text \<open>
  FastAPI's own pages, which answer \<open>GET\<close> and \<open>HEAD\<close>; their routes are registered before the others.
  Starlette prints the methods allowed there in any order.
\<close>

definition documentation_paths :: "string list" where
  "documentation_paths =
     [API_V1_STR (default_settings []) @ ''/openapi.json'', ''/docs'', ''/docs/oauth2-redirect'', ''/redoc'']"

definition documentation :: "http_method \<Rightarrow> string \<Rightarrow> 'tok answer" where
  "documentation m p =
     (if m \<in> {GET, HEAD} then Documentation p
      else Refused (respond (Raised (HTTPException 405 ''Method Not Allowed'' [(''Allow'', ''GET, HEAD'')]))))"

definition handle :: "'tok app \<Rightarrow> (string \<Rightarrow> uuid option) \<Rightarrow> string \<Rightarrow> environment \<Rightarrow> bool \<Rightarrow> 'tok http_request
    \<Rightarrow> database \<Rightarrow> 'r broker \<Rightarrow> ('tok, 'r) world" where
  "handle app parse salt env db_ready rq db b =
     (if rq_path rq \<in> set documentation_paths then (documentation (rq_method rq) (rq_path rq), db, b)
      else case route_request app_endpoints (rq_method rq) (rq_path rq) of
        NoRoute \<Rightarrow>
          (if toggle_slash (rq_path rq) \<in> set documentation_paths then Redirect (toggle_slash (rq_path rq))
           else Refused (respond (Raised (http 404 ''Not Found''))), db, b)
      | MethodNotAllowed m \<Rightarrow>
          (Refused (respond (Raised (HTTPException 405 ''Method Not Allowed'' [(''Allow'', method_name m)]))), db, b)
      | RedirectSlash q \<Rightarrow> (Redirect q, db, b)
      | Found f ps \<Rightarrow>
          (let bad = path_errors app parse ps; ids = map (\<lambda>(n, v). case parse v of None \<Rightarrow> UUID 0 | Some i \<Rightarrow> i) ps in
           if bad \<noteq> []
           then (invalid_input app env (rq_token rq) f
             (bad @ (case target_of f ids (rq_payload rq) of None \<Rightarrow> missing_errors app f | Some t \<Rightarrow> input_errors app t)) db,
             db, b)
           else case target_of f ids (rq_payload rq) of
                  None \<Rightarrow> (invalid_input app env (rq_token rq) f (missing_errors app f) db, db, b)
                | Some t \<Rightarrow> call_target app salt env db_ready (rq_token rq) t db b))"

section \<open>The documented requests\<close>

text \<open>The routes as the README lists them, with the function each is to reach.\<close>

fun endpoint_for :: "target \<Rightarrow> endpoint" where
  "endpoint_for Live = declare_route GET ''/health'' ''health_check''"
| "endpoint_for Readiness = declare_route GET ''/ready'' ''readiness_check''"
| "endpoint_for (Api (Auth (Register b))) = declare_route POST ''/api/v1/auth/register'' ''register''"
| "endpoint_for (Api (Auth (Login b))) = declare_route POST ''/api/v1/auth/login'' ''login''"
| "endpoint_for (Api (Auth GetMe)) = declare_route GET ''/api/v1/auth/me'' ''get_me''"
| "endpoint_for (Api (Bookings (CreateBooking b))) = declare_route POST ''/api/v1/bookings'' ''create_booking''"
| "endpoint_for (Api (Bookings (ListBookings st k l))) = declare_route GET ''/api/v1/bookings'' ''list_bookings''"
| "endpoint_for (Api (Bookings (GetBooking i))) = declare_route GET ''/api/v1/bookings/{booking_id}'' ''get_booking''"
| "endpoint_for (Api (Bookings (UpdateBooking i b))) = declare_route PATCH ''/api/v1/bookings/{booking_id}'' ''update_booking''"
| "endpoint_for (Api (Bookings (CancelBooking i))) =
     declare_route POST ''/api/v1/bookings/{booking_id}/cancel'' ''cancel_booking''"
| "endpoint_for (Api (Bookings (DeleteBooking i))) = declare_route DELETE ''/api/v1/bookings/{booking_id}'' ''delete_booking''"
| "endpoint_for (Api (Reviews (CreateReview b))) = declare_route POST ''/api/v1/reviews'' ''create_review''"
| "endpoint_for (Api (Reviews (ListReviews p r k l))) = declare_route GET ''/api/v1/reviews'' ''list_reviews''"
| "endpoint_for (Api (Reviews (GetReview i))) = declare_route GET ''/api/v1/reviews/{review_id}'' ''get_review''"
| "endpoint_for (Api (Reviews (UpdateReview i b))) = declare_route PATCH ''/api/v1/reviews/{review_id}'' ''update_review''"
| "endpoint_for (Api (Reviews (DeleteReview i))) = declare_route DELETE ''/api/v1/reviews/{review_id}'' ''delete_review''"
| "endpoint_for (Summary (TriggerSummary p)) = declare_route POST ''/api/v1/reviews/summarize'' ''trigger_review_summary''"
| "endpoint_for (Summary (GetSummaryJob i)) =
     declare_route GET ''/api/v1/reviews/summarize/{job_id}'' ''get_review_summary_job''"
| "endpoint_for (Api (Providers (ListProviders s k l))) = declare_route GET ''/api/v1/providers'' ''list_providers''"
| "endpoint_for (Api (Providers (CheckAvailability i a z))) =
     declare_route GET ''/api/v1/providers/{provider_id}/availability'' ''check_provider_availability''"
| "endpoint_for (Api (Providers (ProviderSummary i))) =
     declare_route GET ''/api/v1/providers/{provider_id}/reviews/summary'' ''get_provider_review_summary''"
| "endpoint_for (Api (Providers (GetProvider i))) = declare_route GET ''/api/v1/providers/{provider_id}'' ''get_provider''"
| "endpoint_for (Api (Notifications (ListNotifications k l only))) =
     declare_route GET ''/api/v1/notifications'' ''list_notifications''"
| "endpoint_for (Api (Notifications MarkAllRead)) =
     declare_route PATCH ''/api/v1/notifications/read-all'' ''mark_all_notifications_read''"
| "endpoint_for (Api (Notifications (MarkRead i))) =
     declare_route PATCH ''/api/v1/notifications/{notification_id}/read'' ''mark_notification_read''"

fun ids_for :: "target \<Rightarrow> uuid list" where
  "ids_for (Api (Bookings (GetBooking i))) = [i]"
| "ids_for (Api (Bookings (UpdateBooking i b))) = [i]"
| "ids_for (Api (Bookings (CancelBooking i))) = [i]"
| "ids_for (Api (Bookings (DeleteBooking i))) = [i]"
| "ids_for (Api (Reviews (GetReview i))) = [i]"
| "ids_for (Api (Reviews (UpdateReview i b))) = [i]"
| "ids_for (Api (Reviews (DeleteReview i))) = [i]"
| "ids_for (Summary (GetSummaryJob i)) = [i]"
| "ids_for (Api (Providers (CheckAvailability i a z))) = [i]"
| "ids_for (Api (Providers (ProviderSummary i))) = [i]"
| "ids_for (Api (Providers (GetProvider i))) = [i]"
| "ids_for (Api (Notifications (MarkRead i))) = [i]"
| "ids_for _ = []"

fun payload_for :: "target \<Rightarrow> payload" where
  "payload_for (Api (Auth (Register b))) = ForRegister b"
| "payload_for (Api (Auth (Login b))) = ForLogin b"
| "payload_for (Api (Bookings (CreateBooking b))) = ForBooking b"
| "payload_for (Api (Bookings (ListBookings st k l))) = ForBookings st k l"
| "payload_for (Api (Bookings (UpdateBooking i b))) = ForBookingUpdate b"
| "payload_for (Api (Reviews (CreateReview b))) = ForReview b"
| "payload_for (Api (Reviews (ListReviews p r k l))) = ForReviews p r k l"
| "payload_for (Api (Reviews (UpdateReview i b))) = ForReviewUpdate b"
| "payload_for (Summary (TriggerSummary p)) = ForSummary p"
| "payload_for (Api (Providers (ListProviders s k l))) = ForProviders s k l"
| "payload_for (Api (Providers (CheckAvailability i a z))) = ForSlot a z"
| "payload_for (Api (Notifications (ListNotifications k l only))) = ForNotifications k l only"
| "payload_for _ = NoPayload"

definition request_for :: "'tok option \<Rightarrow> target \<Rightarrow> 'tok http_request" where
  "request_for tok t = \<lparr>rq_method = ep_method (endpoint_for t),
     rq_path = url_path (endpoint_for t) (map uuid_str (ids_for t)), rq_token = tok, rq_payload = payload_for t\<rparr>"

lemma target_for: "target_of (ep_name (endpoint_for t)) (ids_for t) (payload_for t) = Some t"
  by (cases t rule: endpoint_for.cases) (simp_all add: target_of_def route_functions_def declare_route_def)

lemma endpoint_declared: "endpoint_for t \<in> set app_endpoints"
proof (cases t rule: endpoint_for.cases)
qed (simp_all only: endpoint_for.simps, code_simp+)

lemma endpoint_params: "length (params_of (endpoint_for t)) = length (ids_for t)"
proof (cases t rule: endpoint_for.cases)
qed (simp_all only: endpoint_for.simps ids_for.simps list.size, code_simp+)

section \<open>Properties\<close>

lemma uuid_str_segment: "uuid_str i \<noteq> [] \<and> CHR ''/'' \<notin> set (uuid_str i)"
  using uuid_str_chars [of "CHR ''/''" i] by (auto simp: is_hex_def uuid_str_def Let_def)

lemma request_routed:
  "route_request app_endpoints (rq_method (request_for tok t)) (rq_path (request_for tok t))
     = Found (ep_name (endpoint_for t)) (zip (params_of (endpoint_for t)) (map uuid_str (ids_for t)))"
  unfolding request_for_def http_request.select_convs
  by (rule route_found [OF endpoint_declared]) (auto simp: endpoint_params uuid_str_segment)

lemma documentation_apart: "route_request app_endpoints m p = Found f ps \<Longrightarrow> p \<notin> set documentation_paths"
proof
  assume found: "route_request app_endpoints m p = Found f ps" and p: "p \<in> set documentation_paths"
  from found have "first_match app_endpoints m p = Some (f, ps)"
    by (auto simp: route_request_def split: option.splits if_splits)
  then obtain e where e: "e \<in> set app_endpoints" "match_path e p \<noteq> None"
    by (auto dest: first_match_Some)
  have "list_all (\<lambda>q. list_all (\<lambda>e. match_path e q = None) app_endpoints) documentation_paths" by code_simp
  with p e show False by (auto simp: list_all_iff)
qed

lemma ids_read:
  assumes "\<And>i. parse (uuid_str i) = Some i" and "length ns = length is"
  shows "map (\<lambda>(n, v). case parse v of None \<Rightarrow> UUID 0 | Some i \<Rightarrow> i) (zip ns (map uuid_str is)) = is"
    and "path_errors app parse (zip ns (map uuid_str is)) = []"
  using assms(2) by (induction ns "is" rule: list_induct2) (auto simp: assms(1) path_errors_def)

lemma request_for_simps:
  "rq_payload (request_for tok t) = payload_for t" "rq_token (request_for tok t) = tok"
  by (simp_all add: request_for_def)

lemma handle_found:
  assumes "route_request app_endpoints (rq_method rq) (rq_path rq) = Found f ps" and "path_errors app parse ps = []"
    and "target_of f (map (\<lambda>(n, v). case parse v of None \<Rightarrow> UUID 0 | Some i \<Rightarrow> i) ps) (rq_payload rq) = Some t"
  shows "handle app parse salt env db_ready rq db b = call_target app salt env db_ready (rq_token rq) t db b"
  using assms documentation_apart [OF assms(1)] by (simp add: handle_def Let_def)

lemma handle_invalid:
  assumes "route_request app_endpoints (rq_method rq) (rq_path rq) = Found f ps"
    and "\<not> (path_errors app parse ps = []
      \<and> target_of f (map (\<lambda>(n, v). case parse v of None \<Rightarrow> UUID 0 | Some i \<Rightarrow> i) ps) (rq_payload rq) \<noteq> None)"
  shows "\<exists>errs. handle app parse salt env db_ready rq db b = (invalid_input app env (rq_token rq) f errs db, db, b)"
  using assms documentation_apart [OF assms(1)] by (auto simp: handle_def Let_def split: option.splits)



lemma target_protected:
  assumes "target_of f is pl = Some t" and "f \<notin> set open_functions"
  shows "(\<exists>c. t = Api c \<and> \<not> public_call c) \<or> (\<exists>c. t = Summary c)"
  using assms unfolding target_of_def route_functions_def open_functions_def
  by (auto simp: public_call_def split: if_splits list.splits payload.splits)

lemma protected_target_refused:
  assumes "(\<exists>c. t = Api c \<and> \<not> public_call c) \<or> (\<exists>c. t = Summary c)"
    and "\<forall>u \<in> set (users db). \<not> token_names app env tok u"
  shows "\<exists>msg. call_target app salt env db_ready tok t db b
    = (Refused (respond (Raised (HTTPException 401 msg bearer))), db, b)"
proof -
  from assms(1) consider (api) c where "t = Api c" "\<not> public_call c" | (summary) c where "t = Summary c" by blast
  then show ?thesis
  proof cases
    case api
    with unauthenticated_refused [OF _ assms(2), of c salt] show ?thesis by (auto simp: bearer_def)
  next
    case summary
    with summary_unauthenticated [OF assms(2), of c b] show ?thesis by auto
  qed
qed

lemma invalid_input_refused:
  assumes "f \<notin> set open_functions" and "\<forall>u \<in> set (users db). \<not> token_names app env tok u"
  shows "\<exists>msg. invalid_input app env tok f errs db = Refused (respond (Raised (HTTPException 401 msg bearer)))"
proof (cases "fst (get_current_user (app_jwt app) (app_settings app) tok (open_session env db))")
  case (Inl e)
  with assms(1) current_user_refusal [OF Inl] show ?thesis by (auto simp: invalid_input_def)
next
  case (Inr u)
  from current_user_named [OF this] assms(2) show ?thesis by blast
qed


definition anonymous_cancel :: "(claims \<times> string \<times> string) http_request" where
  "anonymous_cancel = request_for None (Api (Bookings (CancelBooking (UUID 10))))"


end
