(* ===== verification/Worker_Limit.thy ===== *)
theory Worker_Limit
  imports Worker
begin

text \<open>
  A worker with a limit comes to its end: while Redis answers and the records in it are the service's
  own, every message of the queue is processed to a stored answer, completed or failed, whatever the
  job's database session does, so as many polls as the limit suffice.
\<close>

section \<open>Services that return\<close>

text \<open>From any state with the invariant, a value with the property and the invariant again.\<close>

definition sure :: "('s \<Rightarrow> bool) \<Rightarrow> ('s, 'e, 'a) svc \<Rightarrow> ('a \<Rightarrow> bool) \<Rightarrow> bool" where
  "sure I m P \<longleftrightarrow> (\<forall>s. I s \<longrightarrow> (\<exists>x t. m s = (Inr x, t) \<and> I t \<and> P x))"

named_theorems sure_intros \<open>services that return\<close>

lemma sureD: "sure I m P \<Longrightarrow> I s \<Longrightarrow> \<exists>x t. m s = (Inr x, t) \<and> I t \<and> P x"
  by (simp add: sure_def)

lemma sure_return [sure_intros]: "P x \<Longrightarrow> sure I (returnE x) P"
  by (simp add: sure_def returnE_def)

lemma sure_bind:
  assumes "sure I m P" and "\<And>x. P x \<Longrightarrow> sure I (f x) Q"
  shows "sure I (bindE m f) Q"
  unfolding sure_def
proof (intro allI impI)
  fix s assume "I s"
  from sureD [OF assms(1) this] obtain x t where "m s = (Inr x, t)" "I t" "P x" by blast
  with sureD [OF assms(2)] show "\<exists>y u. bindE m f s = (Inr y, u) \<and> I u \<and> Q y" by (simp add: bindE_def)
qed

lemma sure_then: "sure I m (\<lambda>_. True) \<Longrightarrow> sure I k Q \<Longrightarrow> sure I (thenE m k) Q"
  unfolding thenE_def by (rule sure_bind)

lemma sure_catch: "sure I m P \<Longrightarrow> sure I (catchE m h) P"
  unfolding sure_def catchE_def by fastforce

section \<open>The summary job always stores an answer\<close>

definition own_text :: "string \<Rightarrow> bool" where
  "own_text v \<longleftrightarrow> v = [] \<or> (\<exists>d. json_ok (JObj d) \<and> v = dumps (JObj d))"

definition own_records :: "'r broker \<Rightarrow> bool" where
  "own_records s \<longleftrightarrow> (\<forall>i now v. api_get (api s) (job_key i) now (br_redis s) = Some v \<longrightarrow> own_text v)"

definition at_work :: "(string \<Rightarrow> string list) \<Rightarrow> 'r broker \<Rightarrow> bool" where
  "at_work L s \<longleftrightarrow> up s \<and> own_records s \<and> lists_of s = L"

lemma own_records_simps [simp]:
  "own_records (s\<lparr>commands := n\<rparr>) = own_records s" "own_records (s\<lparr>ticks := n\<rparr>) = own_records s"
  by (simp_all add: own_records_def)

lemma own_records_set:
  assumes "redis_ok (api s)" and "own_records s" and "json_ok (JObj d)"
  shows "own_records (s\<lparr>br_redis := api_set (api s) (job_key i) (dumps (JObj d)) ttl now (br_redis s)\<rparr>)"
proof -
  have "own_text (dumps (JObj d))" using assms(3) by (auto simp: own_text_def)
  moreover have "api_get (api s) k n (api_set (api s) (job_key i) (dumps (JObj d)) ttl now (br_redis s)) =
      (if k = job_key i then if n < now + ttl * microseconds then Some (dumps (JObj d)) else None
       else api_get (api s) k n (br_redis s))" for k n
    using expiring_store.look_put [OF redis_store [OF assms(1)]]
      expiring_store.look_put_other [OF redis_store [OF assms(1)]] by auto
  ultimately show ?thesis using assms(2) by (auto simp: own_records_def split: if_splits)
qed

lemma sure_store:
  assumes "json_ok (JObj d)"
  shows "sure (at_work L) (store_job i d) (\<lambda>_. True)"
  unfolding sure_def
proof (intro allI impI)
  fix s assume work: "at_work L s"
  let ?put = "api_set (api s) (job_key i) (dumps (JObj d)) JOB_TTL_SECONDS (server_time s (commands s)) (br_redis s)"
  let ?t = "s\<lparr>commands := Suc (commands s), br_redis := ?put\<rparr>"
  have ok: "redis_ok (api s)" "own_records s" using work by (simp_all add: at_work_def up_def)
  have "own_records ?t" using own_records_set [OF ok assms, of i] by (simp add: own_records_def)
  moreover have "up ?t" "lists_of ?t = L"
    using work ok by (simp_all add: at_work_def lists_of_def redis_laws up_def)
  moreover have "store_job i d s = (Inr (), ?t)"
    using work by (simp add: at_work_def store_job_def redis_set_up)
  ultimately show "\<exists>x t. store_job i d s = (Inr x, t) \<and> at_work L t \<and> True" by (simp add: at_work_def)
qed

lemma sure_now: "sure (at_work L) datetime_now (\<lambda>_. True)"
  by (simp add: sure_def at_work_def datetime_now_def lists_of_def)

lemma sure_get: "sure (at_work L) (redis_get (job_key i)) (\<lambda>x. \<forall>v. x = Some v \<longrightarrow> own_text v)"
  by (auto simp: sure_def at_work_def redis_get_up lists_of_def own_records_def)

lemma current_job_ok:
  assumes "\<forall>v. raw = Some v \<longrightarrow> own_text v"
  shows "\<exists>d. current_job i p now raw = Inr d \<and> json_ok (JObj d)"
proof (cases "raw = None \<or> raw = Some []")
  case True
  then show ?thesis by (auto simp: current_job_def)
next
  case False
  with assms obtain d where "raw = Some (dumps (JObj d))" "json_ok (JObj d)" by (auto simp: own_text_def)
  then show ?thesis by (simp add: current_job_def dumps_dict_ne loads_dict as_dict_def)
qed

lemma sure_current:
  "\<forall>v. raw = Some v \<longrightarrow> own_text v \<Longrightarrow> sure (at_work L) (checkE (current_job i p now raw)) (\<lambda>d. json_ok (JObj d))"
  using current_job_ok [of raw i p now] by (auto simp: sure_def checkE_apply)

lemma sure_fail: "json_ok (JObj d) \<Longrightarrow> sure (at_work L) (fail_job i d msg) (\<lambda>_. True)"
  unfolding fail_job_def Let_def
  by (intro sure_bind [OF sure_now] sure_then sure_store sure_return dict_set_ok) simp_all

lemma processing_job_ok: "json_ok (JObj d) \<Longrightarrow> json_ok (JObj (processing_job now d))"
  unfolding processing_job_def by (intro dict_set_ok) simp_all

lemma complete_job_ok: "json_ok (JObj d) \<Longrightarrow> json_ok (JObj (complete_job (result_json rd p (summarize db pid) fin) fin d))"
  unfolding complete_job_def by (intro dict_set_ok result_json_ok distribution_distinct) simp_all

lemma sure_finish:
  "json_ok (JObj d) \<Longrightarrow> sure (at_work L) (bindE datetime_now (\<lambda>fin.
      case build_result rd u (summarize db p) fin of
        Inl exc \<Rightarrow> fail_job i d (exn_str rd exc)
      | Inr result_obj \<Rightarrow>
          let d1 = complete_job result_obj fin d in
          catchE (thenE (store_job i d1) (returnE d1)) (\<lambda>exc. fail_job i d1 (exn_str rd exc)))) (\<lambda>_. True)"
  unfolding Let_def build_result_def
  apply (rule sure_bind [OF sure_now])
  apply (simp only: split: if_split, intro conjI impI; simp only: sum.case)
  apply (intro sure_catch sure_then sure_store sure_return complete_job_ok TrueI, assumption)
  apply (rule sure_fail, assumption)
  done

lemma sure_process: "sure (at_work L) (process_summary_job rd session i p) (\<lambda>_. True)"
  unfolding process_summary_job_def Let_def [of "processing_job _ _"]
  apply (rule sure_bind [OF sure_now], rule sure_bind [OF sure_get], rule sure_bind [OF sure_current], assumption)
  apply (drule processing_job_ok, rule sure_then [OF sure_store], assumption)
  apply (split sum.split option.split if_split)+
  apply (intro conjI allI impI sure_catch sure_fail sure_finish; assumption)
  done

section \<open>The worker answers\<close>

text \<open>Readable records of these jobs carry an answer.\<close>

definition answered :: "'r broker \<Rightarrow> uuid \<Rightarrow> bool" where
  "answered s i \<longleftrightarrow> (\<forall>now v. api_get (api s) (job_key i) now (br_redis s) = Some v \<longrightarrow>
     (\<exists>d. json_loads v = Inr (JObj d) \<and> str_field d ''status'' \<in> {Some ''completed'', Some ''failed''}))"

lemma store_run:
  "up s \<Longrightarrow> store_job i d s = (Inr (), s\<lparr>commands := Suc (commands s),
     br_redis := api_set (api s) (job_key i) (dumps (JObj d)) JOB_TTL_SECONDS (server_time s (commands s)) (br_redis s)\<rparr>)"
  by (simp add: store_job_def redis_set_up)

text \<open>Storing an answer answers the job and leaves the others as they were.\<close>

lemma answered_set:
  assumes "redis_ok (api s)" and "json_ok (JObj d)"
    and "i' \<noteq> i \<Longrightarrow> answered s i'"
    and "i' = i \<Longrightarrow> str_field d ''status'' \<in> {Some ''completed'', Some ''failed''}"
  shows "answered (s\<lparr>br_redis := api_set (api s) (job_key i) (dumps (JObj d)) ttl now (br_redis s)\<rparr>) i'"
proof -
  have "api_get (api s) k n (api_set (api s) (job_key i) (dumps (JObj d)) ttl now (br_redis s)) =
      (if k = job_key i then if n < now + ttl * microseconds then Some (dumps (JObj d)) else None
       else api_get (api s) k n (br_redis s))" for k n
    using expiring_store.look_put [OF redis_store [OF assms(1)]]
      expiring_store.look_put_other [OF redis_store [OF assms(1)]] by auto
  with assms(3,4) loads_dict [OF assms(2)] show ?thesis by (auto simp: answered_def)
qed

lemma answered_frame: "api t = api s \<Longrightarrow> br_redis t = br_redis s \<Longrightarrow> answered t = answered s"
  by (simp add: answered_def fun_eq_iff)

text \<open>\<open>ready\<close>: Redis answers, the records are the service's own; these jobs have an answer.\<close>

definition ready :: "(string \<Rightarrow> string list) \<Rightarrow> uuid set \<Rightarrow> 'r broker \<Rightarrow> bool" where
  "ready L A s \<longleftrightarrow> at_work L s \<and> (\<forall>i \<in> A. answered s i)"

definition gets :: "('s \<Rightarrow> bool) \<Rightarrow> ('s, 'e, 'a) svc \<Rightarrow> ('s \<Rightarrow> bool) \<Rightarrow> bool" where
  "gets I m J \<longleftrightarrow> (\<forall>s. I s \<longrightarrow> (\<exists>x t. m s = (Inr x, t) \<and> J t))"

lemma gets_bind: "sure I m P \<Longrightarrow> (\<And>x. P x \<Longrightarrow> gets I (f x) J) \<Longrightarrow> gets I (bindE m f) J"
  unfolding sure_def gets_def bindE_def by fastforce

lemma gets_then: "gets I m J \<Longrightarrow> gets J k K \<Longrightarrow> gets I (thenE m k) K"
  unfolding gets_def thenE_def bindE_def by fastforce

lemma gets_catch: "gets I m J \<Longrightarrow> gets I (catchE m h) J"
  unfolding gets_def catchE_def by fastforce

lemma gets_return: "gets I (returnE x) I"
  by (simp add: gets_def)

lemma gets_store:
  assumes "json_ok (JObj d)" and "str_field d ''status'' \<in> {Some ''completed'', Some ''failed''} \<or> B = A - {i}"
    and "B \<subseteq> insert i A"
  shows "gets (ready L A) (store_job i d) (ready L B)"
  unfolding gets_def
proof (intro allI impI)
  fix s assume ready: "ready L A s"
  then have up: "up s" "redis_ok (api s)" by (simp_all add: ready_def at_work_def)
  from ready obtain t where t: "store_job i d s = (Inr (), t)" "at_work L t"
    using sureD [OF sure_store [OF assms(1)], of L s i] by (auto simp: ready_def store_run)
  have "answered t i'" if "i' \<in> B" for i'
  proof -
    have "answered (s\<lparr>br_redis := api_set (api s) (job_key i) (dumps (JObj d)) JOB_TTL_SECONDS
        (server_time s (commands s)) (br_redis s)\<rparr>) i'"
      using assms that ready by (intro answered_set [OF up(2) assms(1)]) (auto simp: ready_def)
    moreover have "t = s\<lparr>commands := Suc (commands s), br_redis := api_set (api s) (job_key i) (dumps (JObj d))
        JOB_TTL_SECONDS (server_time s (commands s)) (br_redis s)\<rparr>"
      using t(1) by (simp add: store_run [OF up(1)])
    ultimately show ?thesis by (simp add: answered_def)
  qed
  with t show "\<exists>x t. store_job i d s = (Inr x, t) \<and> ready L B t" by (auto simp: ready_def)
qed

lemma ready_frame:
  "ready L A (s\<lparr>commands := n\<rparr>) = ready L A s" "ready L A (s\<lparr>ticks := n\<rparr>) = ready L A s"
  by (simp_all add: ready_def at_work_def answered_def lists_of_def)

lemma sure_ready:
  "sure (ready L A) datetime_now (\<lambda>_. True)"
  "sure (ready L A) (redis_get (job_key i)) (\<lambda>x. \<forall>v. x = Some v \<longrightarrow> own_text v)"
  "\<forall>v. raw = Some v \<longrightarrow> own_text v \<Longrightarrow> sure (ready L A) (checkE (current_job i p now raw)) (\<lambda>d. json_ok (JObj d))"
proof -
  show "sure (ready L A) datetime_now (\<lambda>_. True)"
    by (simp add: sure_def datetime_now_def ready_frame)
  show "sure (ready L A) (redis_get (job_key i)) (\<lambda>x. \<forall>v. x = Some v \<longrightarrow> own_text v)"
    unfolding sure_def
  proof (intro allI impI)
    fix s assume s: "ready L A s"
    then have "up s" "own_records s" by (simp_all add: ready_def at_work_def)
    with s show "\<exists>x t. redis_get (job_key i) s = (Inr x, t) \<and> ready L A t \<and> (\<forall>v. x = Some v \<longrightarrow> own_text v)"
      by (auto simp: redis_get_up ready_frame own_records_def)
  qed
  show "sure (ready L A) (checkE (current_job i p now raw)) (\<lambda>d. json_ok (JObj d))"
    if "\<forall>v. raw = Some v \<longrightarrow> own_text v"
    using current_job_ok [OF that, of i p now] by (auto simp: sure_def checkE_apply)
qed

lemma gets_fail:
  assumes "json_ok (JObj d)"
  shows "gets (ready L A) (fail_job i d msg) (ready L (insert i A))"
proof -
  let ?d = "\<lambda>now. dict_set ''updated_at'' (JStr (iso_now now)) (dict_set ''error'' (JStr msg) (dict_set ''status'' (JStr ''failed'') d))"
  have "json_ok (JObj (?d now))" for now by (intro dict_set_ok assms) simp_all
  moreover have "str_field (?d now) ''status'' = Some ''failed''" for now by (simp add: str_field_set)
  ultimately show ?thesis
    unfolding fail_job_def Let_def
    by (intro gets_bind [OF sure_ready(1)] gets_then [OF gets_store gets_return]) auto
qed

lemma gets_answer:
  assumes "json_ok (JObj d)" and "str_field d ''status'' = Some ''completed''"
  shows "gets (ready L A) (catchE (thenE (store_job i d) (returnE d)) h) (ready L (insert i A))"
  using assms by (intro gets_catch gets_then [OF gets_store gets_return]) auto

lemma gets_finish:
  assumes "json_ok (JObj d)"
  shows "gets (ready L A) (bindE datetime_now (\<lambda>fin.
      case build_result rd u (summarize db p) fin of
        Inl exc \<Rightarrow> fail_job i d (exn_str rd exc)
      | Inr result_obj \<Rightarrow>
          let d1 = complete_job result_obj fin d in
          catchE (thenE (store_job i d1) (returnE d1)) (\<lambda>exc. fail_job i d1 (exn_str rd exc)))) (ready L (insert i A))"
  unfolding build_result_def Let_def
  apply (rule gets_bind [OF sure_ready(1)])
  apply (simp only: split: if_split, intro conjI impI; simp only: sum.case)
  apply (rule gets_answer [OF complete_job_ok [OF assms]], simp add: complete_job_def str_field_set)
  apply (rule gets_fail [OF assms])
  done

lemma gets_process: "gets (ready L A) (process_summary_job rd session i p) (ready L (insert i A))"
proof -
  have again: "insert i A = insert i (A - {i})" by blast
  show ?thesis
    unfolding process_summary_job_def Let_def [of "processing_job _ _"] again
    apply (rule gets_bind [OF sure_ready(1)], rule gets_bind [OF sure_ready(2)])
    apply (rule gets_bind [OF sure_ready(3)], assumption, drule processing_job_ok)
    apply (rule gets_then [OF gets_store [where B = "A - {i}"]], assumption, simp, blast)
    apply (split sum.split option.split if_split)+
    apply (intro conjI allI impI gets_catch gets_fail gets_finish; assumption)
    done
qed

section \<open>The loop\<close>

lemma worker_run:
  assumes "ready L A s" and "lists_of s QUEUE_NAME = map task_text jobs @ rest" and "length sessions = length jobs"
  shows "\<exists>t. worker_loop rd (Some (n + length jobs)) (map Poll sessions) n s = (Returned (n + length jobs), t)
    \<and> lists_of t QUEUE_NAME = rest \<and> (\<forall>i \<in> A \<union> fst ` set jobs. answered t i)"
  using assms
proof (induction jobs arbitrary: sessions n s L A)
  case Nil
  then show ?case by (simp add: limit_reached_def ready_def)
next
  case (Cons job jobs)
  obtain i p where job: "job = (i, p)" by (rule prod.exhaust)
  from Cons.prems(3) obtain db dbs where sessions: "sessions = db # dbs" and len: "length dbs = length jobs"
    by (cases sessions) auto
  let ?u = "s\<lparr>commands := Suc (commands s), br_redis := snd (api_lpop (api s) QUEUE_NAME (br_redis s))\<rparr>"
  from Cons.prems(1) have s: "up s" "own_records s" "\<forall>i \<in> A. answered s i" by (simp_all add: ready_def at_work_def)
  from Cons.prems(2) job have q: "lists_of s QUEUE_NAME = dumps (JObj (task_message i p)) # (map task_text jobs @ rest)"
    by (simp add: task_text_def)
  have "ready (lists_of ?u) A ?u"
    using s by (simp add: ready_def at_work_def own_records_def answered_def)
  with gets_process [where rd = rd and session = db and i = i and p = p, unfolded gets_def]
  obtain d t where run: "process_summary_job rd db i p ?u = (Inr d, t)" and t: "ready (lists_of ?u) (insert i A) t"
    by blast
  have turn: "worker_turn rd db s = (Inr True, t)" by (rule up_poll [OF s(1) q run])
  have "lists_of t QUEUE_NAME = map task_text jobs @ rest"
    using t q redis_pop [of "api s" "br_redis s"] s(1) by (simp add: ready_def at_work_def lists_of_def)
  from Cons.IH [OF t this len, of "Suc n"] show ?case
    by (simp add: sessions turn limit_reached_def job)
qed

text \<open>
  A worker with a limit ends. While Redis answers and its job records are the service's own, a
  worker that may process \<open>k\<close> jobs, with at least \<open>k\<close> messages of the service at the head of the
  queue, returns \<open>k\<close> after \<open>k\<close> polls, whatever each job's session answers, even an error; it has
  consumed exactly those messages, in order.
\<close>

lemma worker_reaches_limit:
  assumes "up s" and "own_records s"
    and "lists_of s QUEUE_NAME = map (\<lambda>(i, p). dumps (JObj (task_message i p))) jobs @ rest"
    and "length sessions = length jobs"
  shows "\<exists>t. worker_loop rd (Some (length jobs)) (map Poll sessions) 0 s = (Returned (length jobs), t)
    \<and> lists_of t QUEUE_NAME = rest"
proof -
  have "lists_of s QUEUE_NAME = map task_text jobs @ rest" using assms(3) by (simp add: task_text_def [abs_def])
  then show ?thesis
    using worker_run [of "lists_of s" "{}" s jobs rest sessions rd 0] assms by (auto simp: ready_def at_work_def)
qed

end
