(* ===== verification/Records.thy ===== *)
theory Records
  imports Worker_Limit Summary_Api
begin

text \<open>
  What every process may rely on in Redis: each message on the queue is a task for an existing
  provider, and each readable job record is one that the response model accepts, filed under its own
  identifier and about an existing provider. Every command that the service and the worker send keeps
  this, whichever of them fail.
\<close>

section \<open>Services that hold an invariant\<close>

text \<open>Whatever happens the invariant holds again; a value has one property, an error another.\<close>

definition held :: "('s \<Rightarrow> bool) \<Rightarrow> ('s, 'e, 'a) svc \<Rightarrow> ('a \<Rightarrow> bool) \<Rightarrow> ('e \<Rightarrow> bool) \<Rightarrow> bool" where
  "held I m P E \<longleftrightarrow> (\<forall>s r t. I s \<longrightarrow> m s = (r, t) \<longrightarrow> I t \<and> (case r of Inl e \<Rightarrow> E e | Inr x \<Rightarrow> P x))"

lemma heldD: "held I m P E \<Longrightarrow> I s \<Longrightarrow> m s = (r, t) \<Longrightarrow> I t \<and> (case r of Inl e \<Rightarrow> E e | Inr x \<Rightarrow> P x)"
  by (simp add: held_def)

lemma heldI: "(\<And>s r t. I s \<Longrightarrow> m s = (r, t) \<Longrightarrow> I t \<and> (case r of Inl e \<Rightarrow> E e | Inr x \<Rightarrow> P x)) \<Longrightarrow> held I m P E"
  by (simp add: held_def)

lemma held_basic:
  "P x \<Longrightarrow> held I (returnE x) P E" "E e \<Longrightarrow> held I (raiseE e) P E"
  "(case r of Inl e \<Rightarrow> E e | Inr x \<Rightarrow> P x) \<Longrightarrow> held I (checkE r) P E"
  by (auto simp: held_def checkE_apply split: sum.splits)

lemma held_raise_if: "(c \<Longrightarrow> E e) \<Longrightarrow> held I (raise_if c e) (\<lambda>_. \<not> c) E"
  by (simp add: held_def raise_if_apply)

lemma held_bind:
  assumes "held I m P E" and "\<And>x. P x \<Longrightarrow> held I (f x) Q E"
  shows "held I (bindE m f) Q E"
proof (rule heldI)
  fix s r t assume s: "I s" and run: "bindE m f s = (r, t)"
  obtain a u where m: "m s = (a, u)" by (cases "m s")
  from heldD [OF assms(1) s m] run m show "I t \<and> (case r of Inl e \<Rightarrow> E e | Inr x \<Rightarrow> Q x)"
    by (cases a) (auto simp: bindE_def dest: heldD [OF assms(2)])
qed

lemma held_then: "held I m P E \<Longrightarrow> held I k Q E \<Longrightarrow> held I (thenE m k) Q E"
  unfolding thenE_def by (rule held_bind)

lemma held_catch:
  assumes "held I m P F" and "\<And>e. F e \<Longrightarrow> held I (h e) P E"
  shows "held I (catchE m h) P E"
proof (rule heldI)
  fix s r t assume s: "I s" and run: "catchE m h s = (r, t)"
  obtain a u where m: "m s = (a, u)" by (cases "m s")
  from heldD [OF assms(1) s m] run m show "I t \<and> (case r of Inl e \<Rightarrow> E e | Inr x \<Rightarrow> P x)"
    by (cases a) (auto simp: catchE_def dest: heldD [OF assms(2)])
qed

lemma held_weaken: "held I m P E \<Longrightarrow> (\<And>x. P x \<Longrightarrow> Q x) \<Longrightarrow> (\<And>e. E e \<Longrightarrow> F e) \<Longrightarrow> held I m Q F"
  by (rule heldI) (auto dest!: heldD split: sum.splits)

section \<open>The records and the queue\<close>

definition known_provider :: "database \<Rightarrow> uuid \<Rightarrow> bool" where
  "known_provider db p \<longleftrightarrow> (\<exists>u. get_user db p = Some u \<and> u_role u = PROVIDER)"

text \<open>All that the response model asks for, but for the status.\<close>

definition job_dict :: "database \<Rightarrow> uuid \<Rightarrow> dict \<Rightarrow> bool" where
  "job_dict db i d \<longleftrightarrow> json_ok (JObj d) \<and> uuid_field d ''job_id'' = Some i
     \<and> (\<exists>p. uuid_field d ''provider_id'' = Some p \<and> known_provider db p)
     \<and> result_field d \<noteq> None \<and> opt_str_field d ''error'' \<noteq> None
     \<and> str_field d ''created_at'' \<noteq> None \<and> opt_str_field d ''updated_at'' \<noteq> None"

definition has_status :: "dict \<Rightarrow> bool" where
  "has_status d \<longleftrightarrow> (\<exists>st \<in> set job_statuses. str_field d ''status'' = Some st)"

definition job_record :: "database \<Rightarrow> uuid \<Rightarrow> string \<Rightarrow> bool" where
  "job_record db i v \<longleftrightarrow> (\<exists>d. v = dumps (JObj d) \<and> job_dict db i d \<and> has_status d)"

definition broker_ok :: "database \<Rightarrow> 'r broker \<Rightarrow> bool" where
  "broker_ok db s \<longleftrightarrow> redis_ok (api s)
     \<and> (\<forall>i now v. api_get (api s) (job_key i) now (br_redis s) = Some v \<longrightarrow> job_record db i v)
     \<and> (\<exists>jobs. lists_of s QUEUE_NAME = map task_text jobs \<and> (\<forall>(i, p) \<in> set jobs. known_provider db p))"

lemma broker_ok_frame:
  "api t = api s \<Longrightarrow> br_redis t = br_redis s \<Longrightarrow> broker_ok db t = broker_ok db s"
  by (simp add: broker_ok_def lists_of_def)

lemma broker_ok_simps [simp]:
  "broker_ok db (s\<lparr>commands := n\<rparr>) = broker_ok db s" "broker_ok db (s\<lparr>ticks := n\<rparr>) = broker_ok db s"
  "broker_ok db (s\<lparr>ids_drawn := n\<rparr>) = broker_ok db s"
  by (simp_all add: broker_ok_def lists_of_def)

lemma uuid_field_set: "uuid_field (dict_set k v d) k' =
    (if k' = k then case v of JStr x \<Rightarrow> uuid_parse x | _ \<Rightarrow> None else uuid_field d k')"
  by (cases v) (simp_all add: uuid_field_def str_field_set)

lemma opt_str_field_set: "opt_str_field (dict_set k v d) k' =
    (if k' = k then case v of JNull \<Rightarrow> Some None | JStr x \<Rightarrow> Some (Some x) | _ \<Rightarrow> None else opt_str_field d k')"
  by (simp add: opt_str_field_def dict_set_map_of)

lemma result_field_set: "result_field (dict_set k v d) =
    (if k = ''result'' then case v of JNull \<Rightarrow> Some JNull
       | JObj r \<Rightarrow> if valid_result r then Some (JObj r) else None | _ \<Rightarrow> None else result_field d)"
  by (simp add: result_field_def dict_set_map_of)

lemmas field_set = str_field_set uuid_field_set opt_str_field_set result_field_set

lemma job_dict_set:
  assumes "job_dict db i d"
  shows "k \<in> {''status'', ''updated_at'', ''error''} \<Longrightarrow> job_dict db i (dict_set k (JStr x) d)"
    and "job_dict db i (dict_set ''error'' JNull d)"
    and "valid_result r \<Longrightarrow> json_ok (JObj r) \<Longrightarrow> job_dict db i (dict_set ''result'' (JObj r) d)"
proof -
  have ok: "json_ok v \<Longrightarrow> json_ok (JObj (dict_set k v d))" for k v
    using assms unfolding job_dict_def by (intro dict_set_ok) blast+
  have js: "json_ok (JStr x)" "json_ok JNull" by simp_all
  show "k \<in> {''status'', ''updated_at'', ''error''} \<Longrightarrow> job_dict db i (dict_set k (JStr x) d)"
    using assms ok [OF js(1), of k] unfolding job_dict_def field_set by auto
  show "job_dict db i (dict_set ''error'' JNull d)"
    using assms ok [OF js(2), of "''error''"] unfolding job_dict_def field_set by auto
  show "valid_result r \<Longrightarrow> json_ok (JObj r) \<Longrightarrow> job_dict db i (dict_set ''result'' (JObj r) d)"
    using assms ok [of "JObj r" "''result''"] unfolding job_dict_def field_set by auto
qed

lemma has_status_set:
  "has_status (dict_set k v d) =
     (if k = ''status'' then case v of JStr x \<Rightarrow> x \<in> set job_statuses | _ \<Rightarrow> False else has_status d)"
  by (auto simp: has_status_def field_set split: json.splits)

lemma validate_job_dict:
  assumes "job_dict db i d" and "has_status d"
  shows "\<exists>j. validate_job d = Inr j \<and> jr_job_id j = i \<and> known_provider db (jr_provider_id j)"
  using assms by (auto simp: job_dict_def has_status_def validate_job_def)

lemma job_record_own: "job_record db i v \<Longrightarrow> own_text v"
  by (auto simp: job_record_def job_dict_def own_text_def simp del: json_ok.simps)

lemma broker_own_records: "broker_ok db s \<Longrightarrow> own_records s"
  by (auto simp: broker_ok_def own_records_def dest: job_record_own)

lemma queued_record:
  assumes "known_provider db p"
  shows "job_dict db i (queued_payload i p now) \<and> has_status (queued_payload i p now)"
  using assms
  by (simp add: job_dict_def has_status_def queued_payload_def uuid_field_def str_field_def opt_str_field_def
      result_field_def uuid_parse_str job_statuses_def)

section \<open>Commands\<close>

lemma held_command:
  fixes f :: "'r redis_api \<Rightarrow> timestamp \<Rightarrow> 'r \<Rightarrow> 'a \<times> 'r"
  assumes "\<And>s now. broker_ok db s \<Longrightarrow> broker_ok db (s\<lparr>br_redis := snd (f (api s) now (br_redis s))\<rparr>)
      \<and> P (fst (f (api s) now (br_redis s)))"
  shows "held (broker_ok db) (redis_command f) P (\<lambda>e. e = RedisError ''Redis is unavailable'')"
proof (rule heldI)
  fix s t :: "'r broker" and r assume ok: "broker_ok db s" and run: "redis_command f s = (r, t)"
  have "broker_ok db (s\<lparr>commands := Suc (commands s), br_redis := snd (f (api s) now (br_redis s))\<rparr>)" for now
    using assms [OF ok, of now] by (simp add: broker_ok_def lists_of_def)
  with assms [OF ok, THEN conjunct2] ok run show "broker_ok db t
      \<and> (case r of Inl e \<Rightarrow> e = RedisError ''Redis is unavailable'' | Inr x \<Rightarrow> P x)"
    by (cases "fails s (commands s)") (auto simp: redis_command_def Let_def split_beta)
qed

lemma held_set:
  assumes "job_record db i v"
  shows "held (broker_ok db) (redis_set (job_key i) v ex) (\<lambda>_. True) (\<lambda>e. True)"
  unfolding redis_set_def
proof (rule held_weaken [OF held_command])
  fix s :: "'r broker" and now assume ok: "broker_ok db s"
  then have redis: "redis_ok (api s)" by (simp add: broker_ok_def)
  have "api_get (api s) k n (api_set (api s) (job_key i) v ex now (br_redis s)) =
      (if k = job_key i then if n < now + ex * microseconds then Some v else None
       else api_get (api s) k n (br_redis s))" for k n
    using expiring_store.look_put [OF redis_store [OF redis]]
      expiring_store.look_put_other [OF redis_store [OF redis]] by auto
  with ok assms redis show "broker_ok db (s\<lparr>br_redis := snd ((), api_set (api s) (job_key i) v ex now (br_redis s))\<rparr>)
      \<and> True"
    by (auto simp: broker_ok_def lists_of_def)
qed simp_all

lemma held_get:
  "held (broker_ok db) (redis_get (job_key i)) (\<lambda>x. \<forall>v. x = Some v \<longrightarrow> job_record db i v) (\<lambda>e. True)"
  unfolding redis_get_def by (rule held_weaken [OF held_command]) (auto simp: broker_ok_def lists_of_def)

lemma held_push:
  assumes "known_provider db p"
  shows "held (broker_ok db) (redis_rpush QUEUE_NAME (dumps (JObj (task_message i p)))) (\<lambda>_. True) (\<lambda>e. True)"
  unfolding redis_rpush_def
proof (rule held_weaken [OF held_command])
  fix s :: "'r broker" and now :: timestamp assume ok: "broker_ok db s"
  then have redis: "redis_ok (api s)" by (simp add: broker_ok_def)
  from ok obtain jobs where jobs: "lists_of s QUEUE_NAME = map task_text jobs" "\<forall>(i, p) \<in> set jobs. known_provider db p"
    by (auto simp: broker_ok_def)
  with assms redis have "\<exists>jobs. api_items (api s) (api_rpush (api s) QUEUE_NAME (dumps (JObj (task_message i p))) (br_redis s))
      QUEUE_NAME = map task_text jobs \<and> (\<forall>(i, p) \<in> set jobs. known_provider db p)"
    by (intro exI [of _ "jobs @ [(i, p)]"]) (auto simp: redis_laws lists_of_def task_text_def)
  with ok redis show "broker_ok db (s\<lparr>br_redis := snd ((), api_rpush (api s) QUEUE_NAME
      (dumps (JObj (task_message i p))) (br_redis s))\<rparr>) \<and> True"
    by (simp add: broker_ok_def lists_of_def)
qed simp_all

lemma held_pop:
  "held (broker_ok db) (redis_blpop QUEUE_NAME)
     (\<lambda>x. \<forall>v. x = Some v \<longrightarrow> (\<exists>i p. v = dumps (JObj (task_message i p)) \<and> known_provider db p)) (\<lambda>e. True)"
  unfolding redis_blpop_def
proof (rule held_weaken [OF held_command])
  fix s :: "'r broker" and now :: timestamp assume ok: "broker_ok db s"
  then have redis: "redis_ok (api s)" by (simp add: broker_ok_def)
  from ok obtain jobs where jobs: "api_items (api s) (br_redis s) QUEUE_NAME = map task_text jobs"
      "\<forall>(i, p) \<in> set jobs. known_provider db p"
    by (auto simp: broker_ok_def lists_of_def)
  let ?pop = "api_lpop (api s) QUEUE_NAME (br_redis s)"
  have "(\<exists>jobs'. api_items (api s) (snd ?pop) QUEUE_NAME = map task_text jobs' \<and> (\<forall>(i, p) \<in> set jobs'. known_provider db p))
      \<and> (\<forall>v. fst ?pop = Some v \<longrightarrow> (\<exists>i p. v = dumps (JObj (task_message i p)) \<and> known_provider db p))"
  proof (cases jobs)
    case Nil
    with jobs redis have "?pop = (None, br_redis s)" by (simp add: redis_laws)
    with jobs show ?thesis by auto
  next
    case (Cons job rest)
    with jobs have "api_items (api s) (br_redis s) QUEUE_NAME = task_text job # map task_text rest" by simp
    from redis_pop [OF redis this] Cons jobs(2) show ?thesis
      by (auto simp: task_text_def split: prod.splits)
  qed
  with ok redis show "broker_ok db (s\<lparr>br_redis := snd ?pop\<rparr>)
      \<and> (\<forall>v. fst ?pop = Some v \<longrightarrow> (\<exists>i p. v = dumps (JObj (task_message i p)) \<and> known_provider db p))"
    by (simp add: broker_ok_def lists_of_def)
qed simp_all

lemma held_now: "held (broker_ok db) datetime_now (\<lambda>_. True) E"
  by (simp add: held_def datetime_now_def)

lemma held_uuid: "held (broker_ok db) broker_uuid4 (\<lambda>_. True) E"
  by (simp add: held_def broker_uuid4_def)

section \<open>The service and the worker\<close>

abbreviation any :: "'a \<Rightarrow> bool" where
  "any x \<equiv> True"

lemma held_store: "job_dict db i d \<Longrightarrow> has_status d \<Longrightarrow> held (broker_ok db) (store_job i d) any any"
  unfolding store_job_def by (rule held_set) (auto simp: job_record_def)

lemma held_fail:
  assumes "job_dict db i d"
  shows "held (broker_ok db) (fail_job i d msg) any any"
proof -
  have "job_dict db i (dict_set ''updated_at'' (JStr w) (dict_set ''error'' (JStr msg)
      (dict_set ''status'' (JStr ''failed'') d)))" for w
    by (intro job_dict_set(1) assms) simp_all
  then show ?thesis
    unfolding fail_job_def Let_def
    by (intro held_bind [OF held_now] held_then [OF held_store] held_basic) (simp_all add: has_status_set job_statuses_def)
qed

lemma current_job_dict:
  assumes "\<forall>v. raw = Some v \<longrightarrow> job_record db i v" and "known_provider db p"
  shows "\<exists>d. current_job i p now raw = Inr d \<and> job_dict db i d"
proof (cases "raw = None \<or> raw = Some []")
  case True
  with assms(2) show ?thesis
    by (auto simp: current_job_def job_dict_def uuid_field_def str_field_def opt_str_field_def result_field_def
        uuid_parse_str)
next
  case False
  with assms(1) obtain d where d: "raw = Some (dumps (JObj d))" "job_dict db i d" by (auto simp: job_record_def)
  then have "json_ok (JObj d)" unfolding job_dict_def by blast
  with d show ?thesis by (simp add: current_job_def dumps_dict_ne loads_dict as_dict_def)
qed

lemma processing_dict:
  "job_dict db i d \<Longrightarrow> job_dict db i (processing_job now d) \<and> has_status (processing_job now d)"
  unfolding processing_job_def
  by (intro conjI job_dict_set(1)) (simp_all add: has_status_set job_statuses_def)

lemma complete_dict:
  assumes "job_dict db i d" and "build_result rd u (summarize db' p) fin = Inr x"
  shows "job_dict db i (complete_job x fin d) \<and> has_status (complete_job x fin d)"
proof -
  from assms(2) have x: "x = result_json rd u (summarize db' p) fin" "rs_average_rating (summarize db' p) \<le> 500"
    by (simp_all add: build_result_Inr)
  from result_json_valid [OF x(2)] obtain r where r: "x = JObj r" "valid_result r" using x(1) by blast
  have "json_ok x" unfolding x(1) by (rule result_json_ok [OF distribution_distinct])
  with r assms(1) show ?thesis
    unfolding complete_job_def r(1)
    by (intro conjI job_dict_set) (simp_all add: has_status_set job_statuses_def)
qed

lemma held_finish:
  assumes "job_dict db i d"
  shows "held (broker_ok db) (bindE datetime_now (\<lambda>fin.
      case build_result rd u (summarize db' p) fin of
        Inl exc \<Rightarrow> fail_job i d (exn_str rd exc)
      | Inr result_obj \<Rightarrow>
          let d1 = complete_job result_obj fin d in
          catchE (thenE (store_job i d1) (returnE d1)) (\<lambda>exc. fail_job i d1 (exn_str rd exc)))) any any"
proof (rule held_bind [OF held_now])
  fix fin
  show "held (broker_ok db) (case build_result rd u (summarize db' p) fin of
        Inl exc \<Rightarrow> fail_job i d (exn_str rd exc)
      | Inr result_obj \<Rightarrow>
          let d1 = complete_job result_obj fin d in
          catchE (thenE (store_job i d1) (returnE d1)) (\<lambda>exc. fail_job i d1 (exn_str rd exc))) any any"
  proof (cases "build_result rd u (summarize db' p) fin")
    case (Inr x)
    from complete_dict [OF assms Inr] show ?thesis
      unfolding Inr sum.case Let_def
      by (intro held_catch [where F = any] held_then [OF held_store] held_basic held_fail TrueI) simp_all
  qed (simp add: held_fail [OF assms])
qed

lemma held_current:
  "\<forall>v. raw = Some v \<longrightarrow> job_record db i v \<Longrightarrow> known_provider db p
    \<Longrightarrow> held (broker_ok db) (checkE (current_job i p now raw)) (\<lambda>d. job_dict db i d) any"
  using current_job_dict [of raw db i p now] by (auto intro!: held_basic)

lemma held_fail_catch: "job_dict db i d \<Longrightarrow> held (broker_ok db) (catchE (fail_job i d m) (\<lambda>exc. fail_job i d (f exc))) any any"
  by (rule held_catch [OF held_fail held_fail])

lemma held_process:
  assumes "known_provider db p"
  shows "held (broker_ok db) (process_summary_job rd session i p) any any"
  unfolding process_summary_job_def Let_def [of "processing_job _ _"]
  apply (rule held_bind [OF held_now], rule held_bind [OF held_get])
  apply (rule held_bind [OF held_current [OF _ assms]], assumption)
  apply (drule processing_dict, elim conjE, rule held_then [OF held_store], assumption, assumption)
  apply (auto split: sum.split option.split intro: held_fail held_fail_catch held_finish)
  done

lemma held_turn: "held (broker_ok db) (worker_turn rd session) any any"
  unfolding worker_turn_def
proof (rule held_bind [OF held_pop])
  fix item assume item: "\<forall>v. item = Some v \<longrightarrow> (\<exists>i p. v = dumps (JObj (task_message i p)) \<and> known_provider db p)"
  show "held (broker_ok db) (case item of None \<Rightarrow> returnE False
     | Some raw_payload \<Rightarrow> bindE (checkE (parse_task raw_payload)) (\<lambda>(job_id, provider_id).
           thenE (process_summary_job rd session job_id provider_id) (returnE True))) any any"
  proof (cases item)
    case (Some v)
    with item obtain i p where "v = dumps (JObj (task_message i p))" and p: "known_provider db p" by blast
    with Some show ?thesis
      by (auto simp: parse_task_message
          intro!: held_bind [where P = "\<lambda>x. x = (i, p)"] held_then [OF held_process [OF p]] held_basic)
  qed (simp add: held_basic)
qed

text \<open>Enqueueing is refused in three ways only, and a lookup in two: records always validate.\<close>

lemma held_enqueue:
  "held (broker_ok db) (enqueue_summary_job db p) (\<lambda>j. jr_provider_id j = p)
     (\<lambda>e. \<exists>code msg. e = http code msg \<and> code \<in> {400, 404, 503})"
proof (cases "get_user db p")
  case (Some u)
  show ?thesis
  proof (cases "u_role u = PROVIDER")
    case True
    with Some have p: "known_provider db p" by (simp add: known_provider_def)
    have rec: "job_record db i (dumps (JObj (queued_payload i p now)))" for i now
      using queued_record [OF p] by (auto simp: job_record_def)
    have val: "\<exists>j. validate_job (queued_payload i p now) = Inr j \<and> jr_provider_id j = p" for i now
      by (simp add: validate_job_def queued_payload_def uuid_field_def str_field_def opt_str_field_def
          result_field_def uuid_parse_str job_statuses_def)
    have check: "held (broker_ok db) (checkE (validate_job (queued_payload i p now))) (\<lambda>j. jr_provider_id j = p) E" for i now E
      using val [of i now] by (auto intro!: held_basic)
    show ?thesis
      unfolding enqueue_summary_job_def Some option.case Let_def
      by (rule held_then [OF held_raise_if], simp add: True)
        (rule held_bind [OF held_uuid], rule held_bind [OF held_now],
          rule held_then [OF held_catch [OF held_then [OF held_set [OF rec] held_push [OF p]]] check],
          simp add: queue_unavailable_def held_basic)
  next
    case False
    with Some show ?thesis
      unfolding enqueue_summary_job_def by (auto simp: held_def thenE_def bindE_def raise_if_apply)
  qed
qed (simp add: enqueue_summary_job_def held_basic)

lemma held_lookup:
  "held (broker_ok db) (get_summary_job i) (\<lambda>j. jr_job_id j = i \<and> known_provider db (jr_provider_id j))
     (\<lambda>e. \<exists>code msg. e = http code msg \<and> code \<in> {404, 503})"
  unfolding get_summary_job_def
proof (rule held_bind [OF held_catch [OF held_get]])
  show "held (broker_ok db) (raiseE queue_unavailable) P (\<lambda>e. \<exists>code msg. e = http code msg \<and> code \<in> {404, 503})" for P
    by (rule held_basic) (simp add: queue_unavailable_def)
  fix raw assume raw: "\<forall>v. raw = Some v \<longrightarrow> job_record db i v"
  show "held (broker_ok db) (case raw of
       None \<Rightarrow> raiseE (http 404 ''Summary job not found'')
     | Some text \<Rightarrow>
         if text = [] then raiseE (http 404 ''Summary job not found'')
         else bindE (checkE (json_loads text)) (\<lambda>j.
              case j of JObj d \<Rightarrow> checkE (validate_job d)
              | _ \<Rightarrow> raiseE (ValueError ''validation error for ReviewSummaryJobResponse'')))
      (\<lambda>j. jr_job_id j = i \<and> known_provider db (jr_provider_id j))
      (\<lambda>e. \<exists>code msg. e = http code msg \<and> code \<in> {404, 503})"
  proof (cases raw)
    case (Some v)
    with raw obtain d where d: "v = dumps (JObj d)" "job_dict db i d" "has_status d" by (auto simp: job_record_def)
    then have "json_loads v = Inr (JObj d)" unfolding job_dict_def by (simp add: loads_dict)
    with validate_job_dict [OF d(2,3)] Some d(1) show ?thesis
      by (auto simp: dumps_dict_ne intro!: held_bind [where P = "\<lambda>x. x = JObj d"] held_basic)
  qed (simp add: held_basic)
qed

end
