(* ===== verification/Platform.thy ===== *)
theory Platform
  imports Http Records
begin

text \<open>
  The running platform: the database and Redis, shared by the API process and the workers. A step is a
  request of any client, a round of the background jobs, or one poll of a worker, in any order; each
  sees what the steps before it left; and between them the network, the clocks and the source of
  identifiers may change as they like. The contracts of the parts add up here: what the services keep in
  the database, and what they keep in Redis, is what lets the routes and the worker succeed.
\<close>

section \<open>Steps\<close>

record 'r platform =
  pl_db :: database
  pl_broker :: "'r broker"

inductive platform_step :: "'tok app \<Rightarrow> (string \<Rightarrow> uuid option) \<Rightarrow> rendering \<Rightarrow> 'r platform \<Rightarrow> 'r platform \<Rightarrow> bool"
  for app :: "'tok app" and parse :: "string \<Rightarrow> uuid option" and rd :: rendering where
  request: "handle app parse salt env db_ready rq (pl_db s) (pl_broker s) = (a, db, b)
    \<Longrightarrow> platform_step app parse rd s \<lparr>pl_db = db, pl_broker = b\<rparr>"
| jobs: "platform_step app parse rd s (s\<lparr>pl_db := execute_jobs (app_settings app) env1 env2 (pl_db s)\<rparr>)"
| poll: "worker_turn rd (Inr (pl_db s)) (pl_broker s) = (r, b) \<Longrightarrow> platform_step app parse rd s (s\<lparr>pl_broker := b\<rparr>)"
| poll_without_db: "worker_turn rd (Inl exc) (pl_broker s) = (r, b)
    \<Longrightarrow> platform_step app parse rd s (s\<lparr>pl_broker := b\<rparr>)"
| outside: "platform_step app parse rd s
    (s\<lparr>pl_broker := (pl_broker s)\<lparr>fails := f, server_time := st, py_clock := pc, new_id := ni\<rparr>\<rparr>)"

text \<open>The platform as it is first started: a good database, and nothing in Redis.\<close>

definition fresh_start :: "'r platform \<Rightarrow> bool" where
  "fresh_start s \<longleftrightarrow> good (pl_db s) \<and> redis_ok (api (pl_broker s)) \<and> lists_of (pl_broker s) QUEUE_NAME = []
     \<and> (\<forall>k now. api_get (api (pl_broker s)) k now (br_redis (pl_broker s)) = None)"

definition platform_ok :: "'r platform \<Rightarrow> bool" where
  "platform_ok s \<longleftrightarrow> good (pl_db s) \<and> broker_ok (pl_db s) (pl_broker s)"

lemma fresh_start_ok: "fresh_start s \<Longrightarrow> platform_ok s"
  by (simp add: fresh_start_def platform_ok_def broker_ok_def)

section \<open>Every step keeps the contract\<close>

lemma find_append: "find P (xs @ ys) = (case find P xs of None \<Rightarrow> find P ys | Some x \<Rightarrow> Some x)"
  by (induction xs) simp_all

lemma known_provider_mono: "history db db' \<Longrightarrow> known_provider db p \<Longrightarrow> known_provider db' p"
  by (auto simp: history_def known_provider_def get_user_def lookup_by_def prefix_def find_append)

lemma job_record_mono: "history db db' \<Longrightarrow> job_record db i v \<Longrightarrow> job_record db' i v"
  unfolding job_record_def job_dict_def using known_provider_mono by blast

lemma broker_ok_mono:
  assumes "history db db'" and "broker_ok db b"
  shows "broker_ok db' b"
proof -
  from assms(2) obtain jobs where "lists_of b QUEUE_NAME = map task_text jobs" "\<forall>(i, p) \<in> set jobs. known_provider db p"
    by (auto simp: broker_ok_def)
  then have "\<exists>jobs. lists_of b QUEUE_NAME = map task_text jobs \<and> (\<forall>(i, p) \<in> set jobs. known_provider db' p)"
    using known_provider_mono [OF assms(1)] by blast
  with assms job_record_mono [OF assms(1)] show ?thesis by (simp add: broker_ok_def)
qed

lemma summary_routes_ok:
  assumes "broker_ok db b" and "summary_routes app env tok db c b = (r, b')"
  shows "broker_ok db b'
    \<and> (case r of Inl f \<Rightarrow> \<exists>code msg hs. f = Raised (HTTPException code msg hs) \<and> code \<in> {400, 401, 404, 503}
       | Inr (n, x) \<Rightarrow> n \<in> {200, 202})"
proof (cases "fst (get_current_user (app_jwt app) (app_settings app) tok (open_session env db))")
  case (Inl e)
  with current_user_refusal [OF Inl] assms show ?thesis by (cases c) auto
next
  case (Inr u)
  show ?thesis
  proof (cases c)
    case (TriggerSummary p)
    obtain x t where "enqueue_summary_job db p b = (x, t)" by (rule prod.exhaust)
    with heldD [OF held_enqueue assms(1) this] assms(2) Inr TriggerSummary show ?thesis by (cases x) auto
  next
    case (GetSummaryJob i)
    obtain x t where "get_summary_job i b = (x, t)" by (rule prod.exhaust)
    with heldD [OF held_lookup assms(1) this] assms(2) Inr GetSummaryJob show ?thesis by (cases x) auto
  qed
qed

lemma call_target_ok:
  assumes "good db" and "broker_ok db b" and "call_target app salt env db_ready tok t db b = (a, db', b')"
  shows "good db' \<and> history db db' \<and> broker_ok db' b'"
proof (cases t)
  case (Api c)
  obtain r d where run: "serve app salt env tok c db = (r, d)" by (rule prod.exhaust)
  with assms(3) Api have "db' = d" "b' = b" by (auto split: sum.splits)
  with serve_lawful [OF run assms(1)] broker_ok_mono [OF _ assms(2)] show ?thesis by simp
next
  case (Summary c)
  obtain r t where run: "summary_routes app env tok db c b = (r, t)" by (rule prod.exhaust)
  with assms(3) Summary have "db' = db" "b' = t" by (auto split: sum.splits)
  with summary_routes_ok [OF assms(2) run] assms(1) show ?thesis by simp
qed (use assms in \<open>auto simp: readiness_run split: sum.splits\<close>)

lemma handle_cases:
  assumes "handle app parse salt env db_ready rq db b = (a, db', b')"
  shows "db' = db \<and> b' = b \<or> (\<exists>t. call_target app salt env db_ready (rq_token rq) t db b = (a, db', b'))"
  using assms unfolding handle_def Let_def by (auto split: if_splits routed.splits option.splits)

lemma step_ok:
  assumes "platform_step app parse rd s t" and "platform_ok s"
  shows "platform_ok t \<and> history (pl_db s) (pl_db t)"
  using assms
proof (cases rule: platform_step.cases)
  case (request salt env db_ready rq a db b)
  from assms(2) have ok: "good (pl_db s)" "broker_ok (pl_db s) (pl_broker s)" by (simp_all add: platform_ok_def)
  from handle_cases [OF request(2)] have "good db \<and> history (pl_db s) db \<and> broker_ok db b"
    by (elim disjE exE) (use ok in simp, rule call_target_ok [OF ok])
  with request(1) show ?thesis by (simp add: platform_ok_def)
next
  case (jobs env1 env2)
  with execute_jobs_lawful [of "pl_db s"] broker_ok_mono assms(2) show ?thesis
    by (fastforce simp: platform_ok_def)
next
  case (poll r b)
  with heldD [OF held_turn _ poll(2)] assms(2) show ?thesis by (simp add: platform_ok_def)
next
  case (poll_without_db exc r b)
  with heldD [OF held_turn _ poll_without_db(2)] assms(2) show ?thesis by (simp add: platform_ok_def)
next
  case (outside f st pc ni)
  with assms(2) show ?thesis by (simp add: platform_ok_def broker_ok_def lists_of_def)
qed

lemma platform_reachable:
  assumes "(platform_step app parse rd)\<^sup>*\<^sup>* s0 s" and "platform_ok s0"
  shows "platform_ok s \<and> history (pl_db s0) (pl_db s)"
  using assms
proof (induction rule: rtranclp_induct)
  case (step s t)
  with step_ok [OF step(2)] show ?case using history_trans by blast
qed simp

section \<open>Properties\<close>

lemma handle_reachable:
  assumes "handle app parse salt env db_ready rq db b = (a, db', b')" and "reachable app db0 db"
  shows "reachable app db0 db'"
proof -
  have "reachable app db0 db'" if "call_target app salt env db_ready (rq_token rq) t db b = (a, db', b')" for t
  proof (cases t)
    case (Api c)
    obtain r d where run: "serve app salt env (rq_token rq) c db = (r, d)" by (rule prod.exhaust)
    with that Api have "db' = d" by (auto split: sum.splits)
    with reachable.request [OF assms(2) run] show ?thesis by simp
  qed (use that assms(2) in \<open>auto split: sum.splits prod.splits\<close>)
  with handle_cases [OF assms(1)] assms(2) show ?thesis by blast
qed

lemma platform_database:
  assumes "(platform_step app parse rd)\<^sup>*\<^sup>* s0 s"
  shows "reachable app (pl_db s0) (pl_db s)"
  using assms
proof (induction rule: rtranclp_induct)
  case base
  show ?case by (rule reachable.initial)
next
  case (step s t)
  from step(2) step(3) show ?case
    by (cases rule: platform_step.cases) (auto dest: handle_reachable intro: reachable.jobs)
qed

text \<open>
  C3: the platform's invariants. However requests, rounds of jobs and polls of the workers follow one
  another, and whatever the network does, from a good database and an empty Redis: the database is one
  that requests and jobs reach (so the invariants of the system hold in it); every readable job record
  is accepted by the response model, is filed under its own identifier and is about an existing
  provider; and every message on the queue is a task for an existing provider.
\<close>

theorem platform_invariants:
  assumes run: "(platform_step app parse rd)\<^sup>*\<^sup>* s0 s" and start: "fresh_start s0"
  defines "b \<equiv> pl_broker s"
  shows "reachable app (pl_db s0) (pl_db s)
    \<and> (\<forall>i now v. api_get (api b) (job_key i) now (br_redis b) = Some v \<longrightarrow>
         (\<exists>d j u. json_loads v = Inr (JObj d) \<and> validate_job d = Inr j \<and> jr_job_id j = i
            \<and> get_user (pl_db s) (jr_provider_id j) = Some u \<and> u_role u = PROVIDER))
    \<and> (\<forall>v \<in> set (lists_of b QUEUE_NAME). \<exists>i p u. parse_task v = Inr (i, p)
         \<and> get_user (pl_db s) p = Some u \<and> u_role u = PROVIDER)"
proof -
  from platform_reachable [OF run fresh_start_ok [OF start]] have ok: "broker_ok (pl_db s) b"
    by (simp add: platform_ok_def b_def)
  have "\<exists>d j u. json_loads v = Inr (JObj d) \<and> validate_job d = Inr j \<and> jr_job_id j = i
      \<and> get_user (pl_db s) (jr_provider_id j) = Some u \<and> u_role u = PROVIDER" if "job_record (pl_db s) i v" for i v
  proof -
    from that obtain d where d: "v = dumps (JObj d)" "job_dict (pl_db s) i d" "has_status d" by (auto simp: job_record_def)
    then have "json_loads v = Inr (JObj d)" unfolding job_dict_def by (simp add: loads_dict)
    with validate_job_dict [OF d(2,3)] show ?thesis by (auto simp: known_provider_def)
  qed
  moreover have "\<exists>i p u. parse_task (task_text x) = Inr (i, p) \<and> get_user (pl_db s) p = Some u \<and> u_role u = PROVIDER"
    if "known_provider (pl_db s) (snd x)" for x
    using that by (cases x) (auto simp: task_text_def parse_task_message known_provider_def)
  ultimately show ?thesis
    using ok platform_database [OF run] by (fastforce simp: broker_ok_def)
qed

text \<open>
  C24: the workers answer. On every platform that has run from a fresh start, once Redis answers, a
  worker with a limit of \<open>k\<close> and at least \<open>k\<close> messages on the queue returns \<open>k\<close> after \<open>k\<close> polls,
  whatever the sessions of its jobs answer, even an error; it has consumed the first \<open>k\<close> messages, and
  the record of each of their jobs, until it expires, says completed or failed.
\<close>

theorem worker_answers_queue:
  assumes run: "(platform_step app parse rd)\<^sup>*\<^sup>* s0 s" and start: "fresh_start s0"
    and up: "up (pl_broker s)" and len: "length sessions \<le> length (lists_of (pl_broker s) QUEUE_NAME)"
  shows "\<exists>t. worker_loop rd (Some (length sessions)) (map Poll sessions) 0 (pl_broker s) = (Returned (length sessions), t)
    \<and> lists_of t QUEUE_NAME = drop (length sessions) (lists_of (pl_broker s) QUEUE_NAME)
    \<and> (\<forall>x \<in> set (take (length sessions) (lists_of (pl_broker s) QUEUE_NAME)). \<forall>i p. parse_task x = Inr (i, p) \<longrightarrow>
         (\<forall>now v. api_get (api t) (job_key i) now (br_redis t) = Some v \<longrightarrow>
            (\<exists>d. json_loads v = Inr (JObj d) \<and> str_field d ''status'' \<in> {Some ''completed'', Some ''failed''})))"
proof -
  let ?b = "pl_broker s" and ?k = "length sessions"
  from platform_reachable [OF run fresh_start_ok [OF start]] have ok: "broker_ok (pl_db s) ?b"
    by (simp add: platform_ok_def)
  then obtain jobs where jobs: "lists_of ?b QUEUE_NAME = map task_text jobs" by (auto simp: broker_ok_def)
  have "ready (lists_of ?b) {} ?b"
    using up broker_own_records [OF ok] by (simp add: ready_def at_work_def)
  from worker_run [OF this, of "take ?k jobs" "map task_text (drop ?k jobs)" sessions rd 0]
  obtain t where t: "worker_loop rd (Some ?k) (map Poll sessions) 0 ?b = (Returned ?k, t)"
      "lists_of t QUEUE_NAME = map task_text (drop ?k jobs)" "\<forall>i \<in> fst ` set (take ?k jobs). answered t i"
    using jobs len by (auto simp flip: map_append)
  have "answered t i" if "x \<in> set (take ?k (lists_of ?b QUEUE_NAME))" "parse_task x = Inr (i, p)" for x i p
    using that t(3) by (auto simp: jobs take_map task_text_def parse_task_message)
  with t show ?thesis by (auto simp: answered_def jobs drop_map)
qed

lemma respond_status:
  "rsp_status (respond (Raised (HTTPException code msg hs))) = code" "rsp_status (respond (Invalid errs)) = 422"
  by (simp_all add: http_exception_handler_def validation_exception_handler_def)

lemma invalid_input_status: "answer_code (invalid_input app env tok f errs db) \<in> {401, 422}"
proof (cases "fst (get_current_user (app_jwt app) (app_settings app) tok (open_session env db))")
  case (Inl e)
  with current_user_refusal [OF Inl] show ?thesis
    by (auto simp: invalid_input_def respond_status simp del: respond.simps)
qed (simp add: invalid_input_def respond_status del: respond.simps)

lemma call_target_status:
  assumes "good db" and "broker_ok db b" and "fresh_ids 2 env db"
    and "\<And>c. t = Api c \<Longrightarrow> fits c \<and> (\<forall>raw. c \<noteq> Auth (Register raw))"
  shows "answer_code (fst (call_target app salt env db_ready tok t db b))
    \<in> {200, 201, 202, 204, 400, 401, 403, 404, 409, 422, 503}"
proof (cases t)
  case (Api c)
  have "answer_status (fst (serve app salt env tok c db)) \<in> {200, 201, 204, 400, 401, 403, 404, 409, 422}"
    using assms Api by (intro no_internal_errors) (simp_all add: good_def)
  then show ?thesis
    by (cases "serve app salt env tok c db") (auto simp: Api answer_status_def simp del: respond.simps split: sum.splits)
next
  case (Summary c)
  obtain r b' where run: "summary_routes app env tok db c b = (r, b')" by (rule prod.exhaust)
  with summary_routes_ok [OF assms(2) run] show ?thesis
    by (auto simp: Summary respond_status simp del: respond.simps split: sum.splits)
qed (simp_all add: readiness_run readiness_response_def)


section \<open>Witnesses\<close>

text \<open>A platform on which Ada asks for a summary of Bob's reviews.\<close>

definition sample_start :: "memory platform" where
  "sample_start = \<lparr>pl_db = sample_db PENDING, pl_broker = sample_broker\<rparr>"

definition summary_request :: "(claims \<times> string \<times> string) http_request" where
  "summary_request = request_for (Some ada_token) (Summary (TriggerSummary (UUID 2)))"

definition sample_asked :: "memory platform" where
  "sample_asked =
     (case handle sample_app uuid_parse [] sample_env True summary_request (pl_db sample_start) (pl_broker sample_start) of
        (a, db, b) \<Rightarrow> \<lparr>pl_db = db, pl_broker = b\<rparr>)"

lemma sample_fresh_start: "fresh_start sample_start"
proof -
  have "api_get plain_redis k now redis_empty = None" for k now
    by (simp add: plain_redis_def key_get_def redis_empty_def)
  then show ?thesis
    by (simp add: fresh_start_def sample_start_def sample_broker_def lists_of_def) (simp add: redis_empty_def)
qed

lemma sample_run: "(platform_step sample_app uuid_parse rd)\<^sup>*\<^sup>* sample_start sample_asked"
proof -
  obtain a db b where "handle sample_app uuid_parse [] sample_env True summary_request
      (pl_db sample_start) (pl_broker sample_start) = (a, db, b)" by (metis prod.exhaust)
  from platform_step.request [OF this, of rd] this show ?thesis by (simp add: sample_asked_def)
qed

lemma enqueue_effect:
  assumes "up s" and "get_user db p = Some u" and "u_role u = PROVIDER"
  shows "\<exists>j t. enqueue_summary_job db p s = (Inr j, t) \<and> up t
    \<and> lists_of t QUEUE_NAME = lists_of s QUEUE_NAME @ [task_text (new_id s (ids_drawn s), p)]"
  using enqueue_run [OF assms] assms(1) by (simp add: lists_of_def redis_laws task_text_def)

lemma sample_asked_queue:
  "up (pl_broker sample_asked) \<and> lists_of (pl_broker sample_asked) QUEUE_NAME = [task_text (UUID 0, UUID 2)]"
proof -
  let ?b = "pl_broker sample_start"
  have up: "up ?b" and empty: "lists_of ?b QUEUE_NAME = []"
    by (simp_all add: up_def sample_start_def sample_broker_def lists_of_def) (simp add: redis_empty_def)
  have who: "fst (get_current_user (app_jwt sample_app) (app_settings sample_app) (Some ada_token)
      (open_session sample_env (sample_db PENDING))) = Inr ada"
    by (simp add: sample_app_def ada_signed_in)
  have bob: "get_user (sample_db PENDING) (UUID 2) = Some bob" "u_role bob = PROVIDER" by (simp_all add: bob_def)
  have route: "handle sample_app uuid_parse [] sample_env True (request_for tok t) d b =
      call_target sample_app [] sample_env True tok t d b" for tok t d and b :: "memory broker"
    by (subst handle_found [OF request_routed])
      (simp_all add: request_for_simps ids_read [OF uuid_parse_str endpoint_params] target_for)
  have "handle sample_app uuid_parse [] sample_env True summary_request (sample_db PENDING) ?b =
      call_target sample_app [] sample_env True (Some ada_token) (Summary (TriggerSummary (UUID 2))) (sample_db PENDING) ?b"
    unfolding summary_request_def by (rule route)
  moreover obtain j t where "enqueue_summary_job (sample_db PENDING) (UUID 2) ?b = (Inr j, t)" "up t"
      "lists_of t QUEUE_NAME = [task_text (new_id ?b (ids_drawn ?b), UUID 2)]"
    using enqueue_effect [OF up bob] empty by auto
  moreover have "new_id ?b (ids_drawn ?b) = UUID 0" "pl_db sample_start = sample_db PENDING"
    by (simp_all add: sample_start_def sample_broker_def)
  ultimately show ?thesis using who by (simp add: sample_asked_def)
qed

lemma platform_invariants_witness:
  "reachable sample_app (pl_db sample_start) (pl_db sample_asked)
    \<and> (\<exists>v i p u. v \<in> set (lists_of (pl_broker sample_asked) QUEUE_NAME) \<and> parse_task v = Inr (i, p)
         \<and> get_user (pl_db sample_asked) p = Some u \<and> u_role u = PROVIDER)"
proof -
  have "task_text (UUID 0, UUID 2) \<in> set (lists_of (pl_broker sample_asked) QUEUE_NAME)"
    using sample_asked_queue by simp
  with platform_invariants [OF sample_run [of sample_rendering] sample_fresh_start] show ?thesis by blast
qed

lemma worker_answers_queue_witness:
  "\<exists>t. worker_loop sample_rendering (Some 1) [Poll (Inl (DBError DataError))] 0 (pl_broker sample_asked) = (Returned 1, t)
    \<and> lists_of t QUEUE_NAME = []"
  using worker_answers_queue [OF sample_run [of sample_rendering] sample_fresh_start,
      where sessions = "[Inl (DBError DataError)]"] sample_asked_queue
  by auto


end
