(* ===== verification/Bodies.thy ===== *)
theory Bodies
  imports Responses "HOL-Library.Monad_Syntax"
begin

text \<open>
  The bodies of answers: the response models of \<open>app/schemas\<close> as what they write, field by field in
  their order, and as what they accept, which FastAPI checks before it writes and a client of the
  documented API reads; and what the decorator of each route declares, its status and its response
  model. How pydantic writes a point in time, and the text of a token, are parameters.
\<close>

section \<open>Fields\<close>

record 'tok wire =
  time_text :: "timestamp \<Rightarrow> string"
  read_time :: "string \<Rightarrow> timestamp option"
  token_text :: "'tok \<Rightarrow> string"
  read_token :: "string \<Rightarrow> 'tok option"

definition wire_ok :: "'tok wire \<Rightarrow> bool" where
  "wire_ok w \<longleftrightarrow> (\<forall>t. read_time w (time_text w t) = Some t) \<and> (\<forall>tok. read_token w (token_text w tok) = Some tok)"

definition field :: "json \<Rightarrow> string \<Rightarrow> (json \<Rightarrow> 'a option) \<Rightarrow> 'a option" where
  "field j k rd = (case j of JObj d \<Rightarrow> Option.bind (map_of d k) rd | _ \<Rightarrow> None)"

definition as_str :: "json \<Rightarrow> string option" where
  "as_str j = (case j of JStr s \<Rightarrow> Some s | _ \<Rightarrow> None)"

definition as_int :: "json \<Rightarrow> int option" where
  "as_int j = (case j of JInt i \<Rightarrow> Some i | _ \<Rightarrow> None)"

definition as_count :: "json \<Rightarrow> nat option" where
  "as_count j = (case as_int j of Some i \<Rightarrow> if 0 \<le> i then Some (nat i) else None | None \<Rightarrow> None)"

definition as_bool :: "json \<Rightarrow> bool option" where
  "as_bool j = (case j of JBool b \<Rightarrow> Some b | _ \<Rightarrow> None)"

definition as_uuid :: "json \<Rightarrow> uuid option" where
  "as_uuid j = Option.bind (as_str j) uuid_parse"

definition as_time :: "'tok wire \<Rightarrow> json \<Rightarrow> timestamp option" where
  "as_time w j = Option.bind (as_str j) (read_time w)"

definition as_nullable :: "(json \<Rightarrow> 'a option) \<Rightarrow> json \<Rightarrow> 'a option option" where
  "as_nullable rd j = (if j = JNull then Some None else map_option Some (rd j))"

definition as_list :: "(json \<Rightarrow> 'a option) \<Rightarrow> json \<Rightarrow> 'a list option" where
  "as_list rd j = (case j of JArr xs \<Rightarrow> those (map rd xs) | _ \<Rightarrow> None)"

definition nullable :: "('a \<Rightarrow> json) \<Rightarrow> 'a option \<Rightarrow> json" where
  "nullable wr x = (case x of None \<Rightarrow> JNull | Some y \<Rightarrow> wr y)"

definition uuid_json :: "uuid \<Rightarrow> json" where
  "uuid_json u = JStr (uuid_str u)"

definition time_json :: "'tok wire \<Rightarrow> timestamp \<Rightarrow> json" where
  "time_json w t = JStr (time_text w t)"

text \<open>An enumeration is written as its value, and read by it.\<close>

definition as_role :: "json \<Rightarrow> user_role option" where
  "as_role j = Option.bind (as_str j) (map_of (map (\<lambda>x. (role_value x, x)) [ADMIN, PROVIDER, CUSTOMER]))"

definition as_status :: "json \<Rightarrow> booking_status option" where
  "as_status j = Option.bind (as_str j)
     (map_of (map (\<lambda>x. (status_value x, x)) [PENDING, CONFIRMED, COMPLETED, CANCELLED]))"

definition as_ntype :: "json \<Rightarrow> notification_type option" where
  "as_ntype j = Option.bind (as_str j) (map_of (map (\<lambda>x. (ntype_value x, x))
     [BOOKING_CREATED, BOOKING_CONFIRMED, BOOKING_CANCELLED, BOOKING_REMINDER, BOOKING_COMPLETED, BOOKING_OVERDUE]))"

section \<open>The response models\<close>

text \<open>
  The readers take what the models write, and refuse what their bounds and validators refuse. Further
  conversions of pydantic (a number given as a text, a negative number in a field without bound, other
  keys in the distribution) concern no answer and are left out.
\<close>

definition user_json :: "'tok wire \<Rightarrow> user_response \<Rightarrow> json" where
  "user_json w u = JObj [(''id'', uuid_json (ur_id u)), (''name'', JStr (ur_public_name u)),
     (''email'', JStr (ur_public_email u)), (''role'', JStr (role_value (ur_role u))),
     (''created_at'', time_json w (ur_created_at u)), (''updated_at'', time_json w (ur_updated_at u))]"

definition validate_user_response :: "'tok wire \<Rightarrow> json \<Rightarrow> user_response option" where
  "validate_user_response w j = do {
     i \<leftarrow> field j ''id'' as_uuid; n \<leftarrow> field j ''name'' as_str; e \<leftarrow> field j ''email'' as_str;
     r \<leftarrow> field j ''role'' as_role; c \<leftarrow> field j ''created_at'' (as_time w); u \<leftarrow> field j ''updated_at'' (as_time w);
     Some \<lparr>ur_id = i, ur_public_name = n, ur_public_email = e, ur_role = r, ur_created_at = c, ur_updated_at = u\<rparr>}"

definition token_json :: "'tok wire \<Rightarrow> 'tok \<Rightarrow> string \<Rightarrow> json" where
  "token_json w tok ty = JObj [(''access_token'', JStr (token_text w tok)), (''token_type'', JStr ty)]"

definition validate_token_response :: "'tok wire \<Rightarrow> json \<Rightarrow> ('tok \<times> string) option" where
  "validate_token_response w j = do {
     t \<leftarrow> field j ''access_token'' (\<lambda>v. Option.bind (as_str v) (read_token w));
     ty \<leftarrow> (if field j ''token_type'' Some = None then Some ''bearer'' else field j ''token_type'' as_str);
     Some (t, ty)}"

definition booking_json :: "'tok wire \<Rightarrow> booking \<Rightarrow> json" where
  "booking_json w b = JObj [(''id'', uuid_json (b_id b)), (''customer_id'', uuid_json (b_customer_id b)),
     (''provider_id'', uuid_json (b_provider_id b)), (''service_name'', JStr (b_service_name b)),
     (''start_time'', time_json w (b_start_time b)), (''end_time'', time_json w (b_end_time b)),
     (''status'', JStr (status_value (b_status b))),
     (''created_at'', time_json w (b_created_at b)), (''updated_at'', time_json w (b_updated_at b))]"

definition validate_booking_response :: "'tok wire \<Rightarrow> json \<Rightarrow> booking option" where
  "validate_booking_response w j = do {
     i \<leftarrow> field j ''id'' as_uuid; cu \<leftarrow> field j ''customer_id'' as_uuid; p \<leftarrow> field j ''provider_id'' as_uuid;
     n \<leftarrow> field j ''service_name'' as_str; a \<leftarrow> field j ''start_time'' (as_time w); z \<leftarrow> field j ''end_time'' (as_time w);
     st \<leftarrow> field j ''status'' as_status; c \<leftarrow> field j ''created_at'' (as_time w); u \<leftarrow> field j ''updated_at'' (as_time w);
     Some \<lparr>b_id = i, b_customer_id = cu, b_provider_id = p, b_service_name = n, b_start_time = a, b_end_time = z,
       b_status = st, b_created_at = c, b_updated_at = u\<rparr>}"

definition review_json :: "'tok wire \<Rightarrow> review \<Rightarrow> json" where
  "review_json w r = JObj [(''id'', uuid_json (r_id r)), (''booking_id'', uuid_json (r_booking_id r)),
     (''customer_id'', uuid_json (r_customer_id r)), (''provider_id'', uuid_json (r_provider_id r)),
     (''rating'', JInt (r_rating r)), (''comment'', nullable JStr (r_comment r)),
     (''created_at'', time_json w (r_created_at r)), (''updated_at'', time_json w (r_updated_at r))]"

definition validate_review_response :: "'tok wire \<Rightarrow> json \<Rightarrow> review option" where
  "validate_review_response w j = do {
     i \<leftarrow> field j ''id'' as_uuid; b \<leftarrow> field j ''booking_id'' as_uuid; cu \<leftarrow> field j ''customer_id'' as_uuid;
     p \<leftarrow> field j ''provider_id'' as_uuid; n \<leftarrow> field j ''rating'' as_int; t \<leftarrow> field j ''comment'' (as_nullable as_str);
     c \<leftarrow> field j ''created_at'' (as_time w); u \<leftarrow> field j ''updated_at'' (as_time w);
     Some \<lparr>r_id = i, r_booking_id = b, r_customer_id = cu, r_provider_id = p, r_rating = n, r_comment = t,
       r_created_at = c, r_updated_at = u\<rparr>}"

text \<open>\<open>ge=0\<close> for the count, \<open>ge=0.0, le=5.0\<close> for the average; the keys of the distribution are texts.\<close>

definition summary_json :: "review_summary \<Rightarrow> json" where
  "summary_json s = JObj [(''provider_id'', uuid_json (rs_provider_id s)), (''review_count'', JInt (int (rs_review_count s))),
     (''average_rating'', JHundredths (rs_average_rating s)),
     (''rating_distribution'', JObj (map (\<lambda>(k, c). (str_int k, JInt (int c))) (rs_rating_distribution s)))]"

definition score_key :: "string \<Rightarrow> int option" where
  "score_key = map_of (map (\<lambda>k. (str_int k, k)) [1..5])"

definition as_counts :: "json \<Rightarrow> (int \<times> nat) list option" where
  "as_counts j = (case j of
       JObj d \<Rightarrow> those (map (\<lambda>(k, v). do {i \<leftarrow> score_key k; c \<leftarrow> as_count v; Some (i, c)}) d) | _ \<Rightarrow> None)"

definition validate_review_summary :: "json \<Rightarrow> review_summary option" where
  "validate_review_summary j = do {
     p \<leftarrow> field j ''provider_id'' as_uuid; n \<leftarrow> field j ''review_count'' as_count;
     a \<leftarrow> field j ''average_rating'' (\<lambda>v. case v of JHundredths h \<Rightarrow> Some h | _ \<Rightarrow> None);
     d \<leftarrow> field j ''rating_distribution'' as_counts;
     if a \<le> 5 * 100
     then Some \<lparr>rs_provider_id = p, rs_review_count = n, rs_average_rating = a, rs_rating_distribution = d\<rparr>
     else None}"

text \<open>\<open>validate_time_range\<close>\<close>

definition availability_json :: "'tok wire \<Rightarrow> availability \<Rightarrow> json" where
  "availability_json w a = JObj [(''provider_id'', uuid_json (av_provider_id a)),
     (''start_time'', time_json w (av_start_time a)), (''end_time'', time_json w (av_end_time a)),
     (''available'', JBool (av_available a))]"

definition validate_availability_response :: "'tok wire \<Rightarrow> json \<Rightarrow> availability option" where
  "validate_availability_response w j = do {
     p \<leftarrow> field j ''provider_id'' as_uuid; a \<leftarrow> field j ''start_time'' (as_time w); z \<leftarrow> field j ''end_time'' (as_time w);
     free \<leftarrow> field j ''available'' as_bool;
     if z \<le> a then None
     else Some \<lparr>av_provider_id = p, av_start_time = a, av_end_time = z, av_available = free\<rparr>}"

definition notification_json :: "'tok wire \<Rightarrow> notification_response \<Rightarrow> json" where
  "notification_json w n = JObj [(''id'', uuid_json (nr_id n)), (''booking_id'', nullable uuid_json (nr_booking_id n)),
     (''type'', JStr (ntype_value (nr_type n))), (''title'', JStr (nr_title n)), (''message'', JStr (nr_message n)),
     (''is_read'', JBool (nr_is_read n)), (''created_at'', time_json w (nr_created_at n)),
     (''read_at'', nullable (time_json w) (nr_read_at n))]"

definition validate_notification_response :: "'tok wire \<Rightarrow> json \<Rightarrow> notification_response option" where
  "validate_notification_response w j = do {
     i \<leftarrow> field j ''id'' as_uuid; b \<leftarrow> field j ''booking_id'' (as_nullable as_uuid); ty \<leftarrow> field j ''type'' as_ntype;
     t \<leftarrow> field j ''title'' as_str; m \<leftarrow> field j ''message'' as_str; r \<leftarrow> field j ''is_read'' as_bool;
     c \<leftarrow> field j ''created_at'' (as_time w); a \<leftarrow> field j ''read_at'' (as_nullable (as_time w));
     Some \<lparr>nr_id = i, nr_booking_id = b, nr_type = ty, nr_title = t, nr_message = m, nr_is_read = r,
       nr_created_at = c, nr_read_at = a\<rparr>}"

definition marked_json :: "string \<Rightarrow> nat \<Rightarrow> json" where
  "marked_json msg k = JObj [(''message'', JStr msg), (''updated_count'', JInt (int k))]"

definition validate_mark_all_read :: "json \<Rightarrow> (string \<times> nat) option" where
  "validate_mark_all_read j = do {m \<leftarrow> field j ''message'' as_str; k \<leftarrow> field j ''updated_count'' as_count; Some (m, k)}"

section \<open>What the routes declare\<close>

datatype response_model =
    UserResponse | TokenResponse | BookingResponse | BookingResponses | ReviewResponse | ReviewResponses
  | ProviderResponse | ProviderResponses | ProviderAvailabilityResponse | ProviderReviewSummary
  | NotificationResponse | NotificationResponses | MarkAllReadResponse | NoBody

text \<open>\<open>status_code\<close> and \<open>response_model\<close> of the decorators.\<close>

fun auth_declared :: "auth_call \<Rightarrow> int \<times> response_model" where
  "auth_declared (Register raw) = (201, UserResponse)"
| "auth_declared (Login raw) = (200, TokenResponse)"
| "auth_declared GetMe = (200, UserResponse)"

fun bookings_declared :: "booking_call \<Rightarrow> int \<times> response_model" where
  "bookings_declared (CreateBooking raw) = (201, BookingResponse)"
| "bookings_declared (ListBookings st skip limit) = (200, BookingResponses)"
| "bookings_declared (GetBooking i) = (200, BookingResponse)"
| "bookings_declared (UpdateBooking i raw) = (200, BookingResponse)"
| "bookings_declared (CancelBooking i) = (200, BookingResponse)"
| "bookings_declared (DeleteBooking i) = (204, NoBody)"

fun reviews_declared :: "review_call \<Rightarrow> int \<times> response_model" where
  "reviews_declared (CreateReview raw) = (201, ReviewResponse)"
| "reviews_declared (ListReviews p rating skip limit) = (200, ReviewResponses)"
| "reviews_declared (GetReview i) = (200, ReviewResponse)"
| "reviews_declared (UpdateReview i raw) = (200, ReviewResponse)"
| "reviews_declared (DeleteReview i) = (204, NoBody)"

fun providers_declared :: "provider_call \<Rightarrow> int \<times> response_model" where
  "providers_declared (ListProviders search skip limit) = (200, ProviderResponses)"
| "providers_declared (CheckAvailability p a z) = (200, ProviderAvailabilityResponse)"
| "providers_declared (ProviderSummary p) = (200, ProviderReviewSummary)"
| "providers_declared (GetProvider p) = (200, ProviderResponse)"

fun notifications_declared :: "notification_call \<Rightarrow> int \<times> response_model" where
  "notifications_declared (ListNotifications skip limit only) = (200, NotificationResponses)"
| "notifications_declared MarkAllRead = (200, MarkAllReadResponse)"
| "notifications_declared (MarkRead i) = (200, NotificationResponse)"

fun declared :: "call \<Rightarrow> int \<times> response_model" where
  "declared (Auth c) = auth_declared c"
| "declared (Bookings c) = bookings_declared c"
| "declared (Reviews c) = reviews_declared c"
| "declared (Providers c) = providers_declared c"
| "declared (Notifications c) = notifications_declared c"

fun body :: "'tok wire \<Rightarrow> 'tok reply \<Rightarrow> json option" where
  "body w (UserOut x) = Some (user_json w x)"
| "body w (UsersOut xs) = Some (JArr (map (user_json w) xs))"
| "body w (TokenOut t ty) = Some (token_json w t ty)"
| "body w (BookingOut x) = Some (booking_json w x)"
| "body w (BookingsOut xs) = Some (JArr (map (booking_json w) xs))"
| "body w (AvailabilityOut x) = Some (availability_json w x)"
| "body w (SummaryOut x) = Some (summary_json x)"
| "body w (ReviewOut x) = Some (review_json w x)"
| "body w (ReviewsOut xs) = Some (JArr (map (review_json w) xs))"
| "body w (NotificationOut x) = Some (notification_json w x)"
| "body w (NotificationsOut xs) = Some (JArr (map (notification_json w) xs))"
| "body w (MarkedOut msg k) = Some (marked_json msg k)"
| "body w NoContent = None"

text \<open>A body against a response model.\<close>

fun read_model :: "'tok wire \<Rightarrow> response_model \<Rightarrow> json \<Rightarrow> 'tok reply option" where
  "read_model w UserResponse j = map_option UserOut (validate_user_response w j)"
| "read_model w TokenResponse j = map_option (\<lambda>(t, ty). TokenOut t ty) (validate_token_response w j)"
| "read_model w BookingResponse j = map_option BookingOut (validate_booking_response w j)"
| "read_model w BookingResponses j = map_option BookingsOut (as_list (validate_booking_response w) j)"
| "read_model w ReviewResponse j = map_option ReviewOut (validate_review_response w j)"
| "read_model w ReviewResponses j = map_option ReviewsOut (as_list (validate_review_response w) j)"
| "read_model w ProviderResponse j = map_option UserOut (validate_user_response w j)"
| "read_model w ProviderResponses j = map_option UsersOut (as_list (validate_user_response w) j)"
| "read_model w ProviderAvailabilityResponse j = map_option AvailabilityOut (validate_availability_response w j)"
| "read_model w ProviderReviewSummary j = map_option SummaryOut (validate_review_summary j)"
| "read_model w NotificationResponse j = map_option NotificationOut (validate_notification_response w j)"
| "read_model w NotificationResponses j = map_option NotificationsOut (as_list (validate_notification_response w) j)"
| "read_model w MarkAllReadResponse j = map_option (\<lambda>(m, k). MarkedOut m k) (validate_mark_all_read j)"
| "read_model w NoBody j = None"

fun accepts :: "'tok wire \<Rightarrow> response_model \<Rightarrow> json option \<Rightarrow> 'tok reply option" where
  "accepts w m None = (if m = NoBody then Some NoContent else None)"
| "accepts w m (Some j) = read_model w m j"

section \<open>What is written is accepted\<close>

lemma field_simps [simp]:
  "field (JObj ((k, v) # d)) k' rd = (if k' = k then rd v else field (JObj d) k' rd)"
  "field (JObj []) k' rd = None"
  by (simp_all add: field_def)

lemma leaf_simps [simp]:
  "as_str (JStr s) = Some s" "as_int (JInt i) = Some i" "as_count (JInt (int k)) = Some k"
  "as_bool (JBool b) = Some b" "as_uuid (uuid_json u) = Some u"
  by (simp_all add: as_str_def as_int_def as_count_def as_bool_def as_uuid_def uuid_json_def uuid_parse_str)

lemma as_role_value [simp]: "as_role (JStr (role_value r)) = Some r"
  by (cases r) (simp_all add: as_role_def)

lemma as_status_value [simp]: "as_status (JStr (status_value st)) = Some st"
  by (cases st) (simp_all add: as_status_def)

lemma as_ntype_value [simp]: "as_ntype (JStr (ntype_value ty)) = Some ty"
  by (cases ty) (simp_all add: as_ntype_def)

lemma as_time_json [simp]: "wire_ok w \<Longrightarrow> as_time w (time_json w t) = Some t"
  by (simp add: as_time_def time_json_def wire_ok_def)

lemma json_kinds: "uuid_json u \<noteq> JNull" "time_json w t \<noteq> JNull"
  by (simp_all add: uuid_json_def time_json_def)

lemma as_nullable_json:
  assumes "\<And>y. wr y \<noteq> JNull" and "\<And>y. rd (wr y) = Some y"
  shows "as_nullable rd (nullable wr x) = Some x"
  using assms by (cases x) (simp_all add: as_nullable_def nullable_def)

lemma nullable_simps [simp]:
  "as_nullable as_str (nullable JStr s) = Some s"
  "as_nullable as_uuid (nullable uuid_json i) = Some i"
  "wire_ok w \<Longrightarrow> as_nullable (as_time w) (nullable (time_json w) t) = Some t"
  by (rule as_nullable_json, simp_all add: json_kinds)+

lemma as_list_map: "(\<And>x. x \<in> set xs \<Longrightarrow> rd (wr x) = Some x) \<Longrightarrow> as_list rd (JArr (map wr xs)) = Some xs"
  unfolding as_list_def by (induction xs) simp_all

text \<open>Each model reads back what it writes.\<close>

lemma read_back:
  assumes "wire_ok w"
  shows "validate_user_response w (user_json w x1) = Some x1"
    and "validate_token_response w (token_json w t ty) = Some (t, ty)"
    and "validate_booking_response w (booking_json w x2) = Some x2"
    and "validate_review_response w (review_json w x3) = Some x3"
    and "validate_notification_response w (notification_json w x4) = Some x4"
    and "av_start_time x5 < av_end_time x5 \<Longrightarrow> validate_availability_response w (availability_json w x5) = Some x5"
    and "validate_mark_all_read (marked_json msg k) = Some (msg, k)"
  using assms
  by (simp_all add: validate_user_response_def user_json_def validate_token_response_def token_json_def
      validate_booking_response_def booking_json_def validate_review_response_def review_json_def
      validate_notification_response_def notification_json_def validate_availability_response_def
      availability_json_def validate_mark_all_read_def marked_json_def wire_ok_def)

lemma score_key_str: "k \<in> set [1..5] \<Longrightarrow> score_key (str_int k) = Some k"
proof -
  assume "k \<in> set [1..5]"
  then have "k = 1 \<or> k = 2 \<or> k = 3 \<or> k = 4 \<or> k = 5" by (auto simp: atLeastAtMost_iff)
  then show ?thesis by (elim disjE) (simp_all, code_simp+)
qed

lemma as_counts_map:
  "(\<And>k c. (k, c) \<in> set d \<Longrightarrow> k \<in> set [1..5])
    \<Longrightarrow> as_counts (JObj (map (\<lambda>(k, c). (str_int k, JInt (int c))) d)) = Some d"
proof (induction d)
  case (Cons x d)
  obtain k c where x: "x = (k, c)" by (cases x)
  have "score_key (str_int k) = Some k" by (rule score_key_str) (rule Cons(2) [of k c], simp add: x)
  moreover have "as_counts (JObj (map (\<lambda>(k, c). (str_int k, JInt (int c))) d)) = Some d"
    by (rule Cons(1)) (meson Cons(2) list.set_intros(2))
  ultimately show ?case by (simp add: as_counts_def x)
qed (simp add: as_counts_def)

lemma read_summary:
  assumes "conforms (SummaryOut x :: 'tok reply)"
  shows "validate_review_summary (summary_json x) = Some x"
proof -
  have "k \<in> set [1..5]" if "(k, c) \<in> set (rs_rating_distribution x)" for k c
    using that assms by (metis conforms.simps(9) fst_conv image_eqI set_map)
  then have "as_counts (JObj (map (\<lambda>(k, c). (str_int k, JInt (int c))) (rs_rating_distribution x)))
      = Some (rs_rating_distribution x)"
    by (rule as_counts_map)
  with assms show ?thesis by (simp add: validate_review_summary_def summary_json_def)
qed

text \<open>The replies that a model can stand for.\<close>

fun of_model :: "response_model \<Rightarrow> 'tok reply \<Rightarrow> bool" where
  "of_model m (UserOut x) = (m \<in> {UserResponse, ProviderResponse})"
| "of_model m (UsersOut xs) = (m = ProviderResponses)"
| "of_model m (TokenOut t ty) = (m = TokenResponse)"
| "of_model m (BookingOut x) = (m = BookingResponse)"
| "of_model m (BookingsOut xs) = (m = BookingResponses)"
| "of_model m (AvailabilityOut x) = (m = ProviderAvailabilityResponse)"
| "of_model m (SummaryOut x) = (m = ProviderReviewSummary)"
| "of_model m (ReviewOut x) = (m = ReviewResponse)"
| "of_model m (ReviewsOut xs) = (m = ReviewResponses)"
| "of_model m (NotificationOut x) = (m = NotificationResponse)"
| "of_model m (NotificationsOut xs) = (m = NotificationResponses)"
| "of_model m (MarkedOut msg k) = (m = MarkAllReadResponse)"
| "of_model m NoContent = (m = NoBody)"

lemma accepts_body:
  assumes "wire_ok w" and "conforms x" and "of_model m x"
  shows "accepts w m (body w x) = Some x"
  using assms
  by (cases x) (auto simp: read_back as_list_map read_summary [where 'tok = 'a] simp del: conforms.simps(9))

section \<open>What the routes answer\<close>

definition answers :: "int \<times> response_model \<Rightarrow> (int \<times> 'tok reply) route \<Rightarrow> bool" where
  "answers d m \<longleftrightarrow> (\<forall>s n x t. m s = (Inr (n, x), t) \<longrightarrow> n = fst d \<and> of_model (snd d) x)"

lemma answers_intros:
  "(n, m) = d \<Longrightarrow> of_model m x \<Longrightarrow> answers d (returnE (n, x))"
  "(\<And>y. answers d (k y)) \<Longrightarrow> answers d (bindE h k)"
  "answers d m' \<Longrightarrow> answers d (thenE h' m')"
  by (auto simp: answers_def returnE_def bindE_def thenE_def split: prod.splits sum.splits)

lemma routes_answer: "answers (declared c) (api_router app salt tok c)"
proof (cases c)
  case (Auth a)
  then show ?thesis by (cases a) (auto intro!: answers_intros)
next
  case (Bookings b)
  then show ?thesis by (cases b) (auto intro!: answers_intros)
next
  case (Reviews r)
  then show ?thesis by (cases r) (auto intro!: answers_intros)
next
  case (Providers p)
  then show ?thesis by (cases p) (auto intro!: answers_intros)
next
  case (Notifications n)
  then show ?thesis by (cases n) (auto intro!: answers_intros)
qed

section \<open>Errors\<close>

text \<open>\<open>ErrorResponse\<close> and \<open>ValidationErrorDetail\<close> of \<open>app/schemas/error.py\<close>\<close>

record error_response =
  er_code :: string
  er_message :: string
  er_detail :: json

definition validate_error_response :: "json \<Rightarrow> error_response option" where
  "validate_error_response j = do {
     c \<leftarrow> field j ''code'' as_str; m \<leftarrow> field j ''message'' as_str;
     d \<leftarrow> (if field j ''detail'' Some = None then Some JNull else field j ''detail'' Some);
     Some \<lparr>er_code = c, er_message = m, er_detail = d\<rparr>}"

definition validate_error_detail :: "json \<Rightarrow> (string \<times> string) option" where
  "validate_error_detail j = do {f \<leftarrow> field j ''field'' as_str; m \<leftarrow> field j ''message'' as_str; Some (f, m)}"

lemma error_content_read: "validate_error_response (error_content c m d) = Some \<lparr>er_code = c, er_message = m, er_detail = d\<rparr>"
  by (simp add: validate_error_response_def error_content_def)

text \<open>Every refusal has the common body; that of invalid input has a list of the fields at fault.\<close>

lemma error_bodies:
  "\<exists>c m d. validate_error_response (rsp_content (respond f)) = Some \<lparr>er_code = c, er_message = m, er_detail = d\<rparr>
     \<and> (\<forall>errs. f = Invalid errs \<longrightarrow> c = ''VALIDATION_ERROR'' \<and> as_list validate_error_detail d = Some (map format_error errs))"
proof (cases f)
  case (Raised e)
  then show ?thesis
    by (cases e) (auto simp: http_exception_handler_def unhandled_exception_handler_def error_content_read Let_def)
next
  case (RaisedApp exc)
  then show ?thesis by (simp add: app_exception_handler_def error_content_read)
next
  case (Invalid errs)
  have "as_list validate_error_detail
      (JArr (map (\<lambda>(field, msg). JObj [(''field'', JStr field), (''message'', JStr msg)]) (map format_error errs)))
      = Some (map format_error errs)"
    by (rule as_list_map) (auto simp: validate_error_detail_def)
  with Invalid show ?thesis by (simp add: validation_exception_handler_def error_content_read del: map_map)
qed

section \<open>Property\<close>

text \<open>
  C14: answers carry what is stored, and are what the API declares. On a database with the invariants of
  the system, whatever a route answers with success is what the database holds after the request: the
  rows it shows are rows of the tables, a summary is that of the stored reviews, an availability is
  what the stored bookings say. It is within the declared bounds (ratings from 1 to 5, an average of at
  most 5, a distribution over the keys 1 to 5 that adds up to the number of reviews, times in order,
  texts that fit their columns); it has the status that the route declares; and its body passes the
  validation of the declared response model, which reads from it what the route answered.
\<close>

theorem answers_conform:
  assumes good: "good db" and run: "serve app salt env tok c db = (Inr (n, x), db')" and wire: "wire_ok w"
  shows "stored_in db' x \<and> conforms x \<and> n = fst (declared c) \<and> accepts w (snd (declared c)) (body w x) = Some x"
proof -
  from answers_stored [OF good run] have "stored_in db' x \<and> conforms x" .
  moreover from run routes_answer [of c app salt tok] have "n = fst (declared c) \<and> of_model (snd (declared c)) x"
    by (auto simp: serve_def answers_def split: prod.splits)
  ultimately show ?thesis using accepts_body [OF wire] by simp
qed

text \<open>A wire for the sample application, whose tokens are their claims: texts of JSON.\<close>

definition claims_json :: "claims \<times> string \<times> string \<Rightarrow> json" where
  "claims_json t = (case t of (c, key, alg) \<Rightarrow>
     JArr [nullable JStr (cl_sub c), JInt (cl_iat c), JInt (cl_exp c), JStr key, JStr alg])"

definition read_claims :: "json \<Rightarrow> (claims \<times> string \<times> string) option" where
  "read_claims j = (case j of
       JArr [s, JInt i, JInt e, JStr key, JStr alg] \<Rightarrow>
         map_option (\<lambda>x. (\<lparr>cl_sub = x, cl_iat = i, cl_exp = e\<rparr>, key, alg)) (as_nullable as_str s)
     | _ \<Rightarrow> None)"

definition sample_wire :: "(claims \<times> string \<times> string) wire" where
  "sample_wire = \<lparr>time_text = (\<lambda>t. dumps (JInt t)), read_time = (\<lambda>s. Option.bind (loads s) as_int),
     token_text = dumps \<circ> claims_json, read_token = (\<lambda>s. Option.bind (loads s) read_claims)\<rparr>"

lemma sample_wire_ok: "wire_ok sample_wire"
proof -
  have "json_ok (claims_json t)" for t by (cases t) (simp add: claims_json_def nullable_def split: option.split)
  moreover have "read_claims (claims_json t) = Some t" for t by (cases t) (simp add: claims_json_def read_claims_def)
  moreover have "loads (dumps (JInt t)) = Some (JInt t)" for t by (rule loads_dumps) simp
  ultimately show ?thesis by (simp add: wire_ok_def sample_wire_def loads_dumps del: dumps.simps)
qed

lemma answers_conform_witness:
  "\<exists>x db'. serve sample_app [] sample_env (Some ada_token) (Bookings (GetBooking (UUID 10))) (sample_db PENDING)
      = (Inr (200, BookingOut x), db') \<and> x \<in> set (bookings db') \<and> b_start_time x < b_end_time x
      \<and> accepts sample_wire BookingResponse (Some (booking_json sample_wire x)) = Some (BookingOut x)"
proof -
  have "serve sample_app [] sample_env (Some ada_token) (Bookings (GetBooking (UUID 10))) (sample_db PENDING)
      = (Inr (200, BookingOut (sample_booking PENDING)), sample_db PENDING)"
    by (simp add: serve_def caller_run sample_app_def ada_signed_in lift_return_run get_booking_by_id_def
        db_get_booking_def session_run) (simp add: sample_defs lift_return_run get_booking_by_id_def)
  with answers_conform [OF sample_good this sample_wire_ok] show ?thesis by (auto simp: booking_shape_def)
qed

end
