(* ===== verification/Relations.thy ===== *)
theory Relations
  imports Integrity Samples
begin

text \<open>
  The relationships that the models declare, and what they cascade. Attributes such as
  \<open>user.customer_bookings\<close> are queries here. Deleting an object marks what its relationships with
  \<open>cascade="all, delete-orphan"\<close> hold; deleting a row takes with it the rows whose foreign keys, all
  declared \<open>ON DELETE CASCADE\<close>, refer to it. No service deletes an account or a booking; the two ways
  of doing so agree.
\<close>

section \<open>Relationships\<close>

text \<open>\<open>User\<close>\<close>

definition customer_bookings :: "database \<Rightarrow> user \<Rightarrow> booking list" where
  "customer_bookings db u = filter (\<lambda>b. b_customer_id b = u_id u) (bookings db)"

definition provider_bookings :: "database \<Rightarrow> user \<Rightarrow> booking list" where
  "provider_bookings db u = filter (\<lambda>b. b_provider_id b = u_id u) (bookings db)"

definition customer_reviews :: "database \<Rightarrow> user \<Rightarrow> review list" where
  "customer_reviews db u = filter (\<lambda>r. r_customer_id r = u_id u) (reviews db)"

definition provider_reviews :: "database \<Rightarrow> user \<Rightarrow> review list" where
  "provider_reviews db u = filter (\<lambda>r. r_provider_id r = u_id u) (reviews db)"

definition user_notifications :: "database \<Rightarrow> user \<Rightarrow> notification list" where
  "user_notifications db u = filter (\<lambda>n. n_user_id n = u_id u) (notifications db)"

text \<open>\<open>Booking\<close>; \<open>review\<close> is a scalar (\<open>uselist=False\<close>).\<close>

definition booking_customer :: "database \<Rightarrow> booking \<Rightarrow> user option" where
  "booking_customer db b = get_user db (b_customer_id b)"

definition booking_provider :: "database \<Rightarrow> booking \<Rightarrow> user option" where
  "booking_provider db b = get_user db (b_provider_id b)"

definition booking_review :: "database \<Rightarrow> booking \<Rightarrow> review option" where
  "booking_review db b = find (\<lambda>r. r_booking_id r = b_id b) (reviews db)"

definition booking_notifications :: "database \<Rightarrow> booking \<Rightarrow> notification list" where
  "booking_notifications db b = filter (\<lambda>n. n_booking_id n = Some (b_id b)) (notifications db)"

text \<open>\<open>Review\<close> and \<open>Notification\<close>\<close>

definition review_booking :: "database \<Rightarrow> review \<Rightarrow> booking option" where
  "review_booking db r = get_booking db (r_booking_id r)"

definition review_customer :: "database \<Rightarrow> review \<Rightarrow> user option" where
  "review_customer db r = get_user db (r_customer_id r)"

definition review_provider :: "database \<Rightarrow> review \<Rightarrow> user option" where
  "review_provider db r = get_user db (r_provider_id r)"

definition notification_user :: "database \<Rightarrow> notification \<Rightarrow> user option" where
  "notification_user db n = get_user db (n_user_id n)"

definition notification_booking :: "database \<Rightarrow> notification \<Rightarrow> booking option" where
  "notification_booking db n = (case n_booking_id n of None \<Rightarrow> None | Some i \<Rightarrow> get_booking db i)"

section \<open>Cascades\<close>

datatype row_key = UserKey uuid | BookingKey uuid | ReviewKey uuid | NotificationKey uuid

text \<open>What \<open>session.delete\<close> of an object marks; reviews and notifications cascade to nothing.\<close>

definition booking_cascade :: "database \<Rightarrow> booking \<Rightarrow> row_key list" where
  "booking_cascade db b = BookingKey (b_id b)
     # (case booking_review db b of None \<Rightarrow> [] | Some r \<Rightarrow> [ReviewKey (r_id r)])
     @ map (\<lambda>n. NotificationKey (n_id n)) (booking_notifications db b)"

definition user_cascade :: "database \<Rightarrow> user \<Rightarrow> row_key list" where
  "user_cascade db u = UserKey (u_id u)
     # concat (map (booking_cascade db) (customer_bookings db u))
     @ concat (map (booking_cascade db) (provider_bookings db u))
     @ map (\<lambda>r. ReviewKey (r_id r)) (customer_reviews db u)
     @ map (\<lambda>r. ReviewKey (r_id r)) (provider_reviews db u)
     @ map (\<lambda>n. NotificationKey (n_id n)) (user_notifications db u)"

definition remove_rows :: "row_key list \<Rightarrow> database \<Rightarrow> database" where
  "remove_rows ks db = db\<lparr>users := filter (\<lambda>u. UserKey (u_id u) \<notin> set ks) (users db),
     bookings := filter (\<lambda>b. BookingKey (b_id b) \<notin> set ks) (bookings db),
     reviews := filter (\<lambda>r. ReviewKey (r_id r) \<notin> set ks) (reviews db),
     notifications := filter (\<lambda>n. NotificationKey (n_id n) \<notin> set ks) (notifications db)\<rparr>"

definition orm_delete_user :: "user \<Rightarrow> database \<Rightarrow> database" where
  "orm_delete_user u db = remove_rows (user_cascade db u) db"

definition orm_delete_booking :: "booking \<Rightarrow> database \<Rightarrow> database" where
  "orm_delete_booking b db = remove_rows (booking_cascade db b) db"

text \<open>
  \<open>DELETE\<close> of the users and bookings with these keys: PostgreSQL follows the foreign keys
  \<open>bookings.customer_id\<close>, \<open>bookings.provider_id\<close>, \<open>reviews.booking_id\<close>, \<open>reviews.customer_id\<close>,
  \<open>reviews.provider_id\<close>, \<open>notifications.user_id\<close> and \<open>notifications.booking_id\<close>.
\<close>

definition sql_delete :: "uuid list \<Rightarrow> uuid list \<Rightarrow> database \<Rightarrow> database" where
  "sql_delete us bs db =
     (let refers = (\<lambda>b. b_customer_id b \<in> set us \<or> b_provider_id b \<in> set us);
          gone = bs @ map b_id (filter refers (bookings db))
      in db\<lparr>users := filter (\<lambda>u. u_id u \<notin> set us) (users db),
           bookings := filter (\<lambda>b. b_id b \<notin> set gone) (bookings db),
           reviews := filter (\<lambda>r. r_booking_id r \<notin> set gone \<and> r_customer_id r \<notin> set us \<and> r_provider_id r \<notin> set us) (reviews db),
           notifications := filter (\<lambda>n. n_user_id n \<notin> set us
             \<and> (case n_booking_id n of None \<Rightarrow> True | Some i \<Rightarrow> i \<notin> set gone)) (notifications db)\<rparr>)"

section \<open>Both sides of a relationship agree\<close>

lemma booking_review_iff:
  assumes "integrity db"
  shows "booking_review db b = Some r \<longleftrightarrow> r \<in> set (reviews db) \<and> r_booking_id r = b_id b"
proof -
  have "distinct (map r_booking_id (reviews db))" using assms by (simp add: integrity_defs)
  from lookup_by_iff [OF this] show ?thesis by (simp add: booking_review_def lookup_by_def)
qed

lemma key_unique:
  assumes "distinct (map key rows)" and "x \<in> set rows" and "y \<in> set rows" and "key x = key y"
  shows "x = y"
  using assms by (auto simp: distinct_map dest: inj_onD)

lemma get_user_iff: "integrity db \<Longrightarrow> get_user db i = Some u \<longleftrightarrow> u \<in> set (users db) \<and> u_id u = i"
  unfolding get_user_def by (rule lookup_by_iff) (simp add: integrity_defs)

lemma get_booking_iff: "integrity db \<Longrightarrow> get_booking db i = Some b \<longleftrightarrow> b \<in> set (bookings db) \<and> b_id b = i"
  unfolding get_booking_def by (rule lookup_by_iff) (simp add: integrity_defs)

text \<open>\<open>back_populates\<close>: an object is in the collection exactly when its reference gives the owner.\<close>

lemma back_populates:
  assumes ok: "integrity db" and u: "u \<in> set (users db)" and b: "b \<in> set (bookings db)"
    and r: "r \<in> set (reviews db)" and n: "n \<in> set (notifications db)"
  shows "b \<in> set (customer_bookings db u) \<longleftrightarrow> booking_customer db b = Some u"
    and "b \<in> set (provider_bookings db u) \<longleftrightarrow> booking_provider db b = Some u"
    and "r \<in> set (customer_reviews db u) \<longleftrightarrow> review_customer db r = Some u"
    and "r \<in> set (provider_reviews db u) \<longleftrightarrow> review_provider db r = Some u"
    and "n \<in> set (user_notifications db u) \<longleftrightarrow> notification_user db n = Some u"
    and "n \<in> set (booking_notifications db b) \<longleftrightarrow> notification_booking db n = Some b"
    and "booking_review db b = Some r \<longleftrightarrow> review_booking db r = Some b"
  using assms
  by (auto simp: customer_bookings_def provider_bookings_def customer_reviews_def provider_reviews_def
      user_notifications_def booking_notifications_def booking_customer_def booking_provider_def
      review_customer_def review_provider_def review_booking_def notification_user_def notification_booking_def
      booking_review_iff get_user_iff get_booking_iff split: option.splits)

text \<open>No reference dangles.\<close>

lemma references_resolve:
  assumes ok: "integrity db"
  shows "b \<in> set (bookings db) \<Longrightarrow> booking_customer db b \<noteq> None \<and> booking_provider db b \<noteq> None"
    and "r \<in> set (reviews db) \<Longrightarrow> review_booking db r \<noteq> None \<and> review_customer db r \<noteq> None \<and> review_provider db r \<noteq> None"
    and "n \<in> set (notifications db) \<Longrightarrow> notification_user db n \<noteq> None"
  using ok
  by (auto simp: integrity_defs checks_defs booking_customer_def booking_provider_def review_booking_def
      review_customer_def review_provider_def notification_user_def get_user_def get_booking_def lookup_by_None)

section \<open>The two cascades agree\<close>

lemma booking_cascade_keys:
  assumes "integrity db"
  shows "UserKey i \<notin> set (booking_cascade db b)"
    and "BookingKey i \<in> set (booking_cascade db b) \<longleftrightarrow> i = b_id b"
    and "ReviewKey i \<in> set (booking_cascade db b) \<longleftrightarrow> (\<exists>r \<in> set (reviews db). r_id r = i \<and> r_booking_id r = b_id b)"
    and "NotificationKey i \<in> set (booking_cascade db b)
      \<longleftrightarrow> (\<exists>n \<in> set (notifications db). n_id n = i \<and> n_booking_id n = Some (b_id b))"
proof -
  have "ReviewKey i \<in> set (booking_cascade db b) \<longleftrightarrow> (\<exists>r. booking_review db b = Some r \<and> r_id r = i)"
    by (cases "booking_review db b") (auto simp: booking_cascade_def)
  then show "ReviewKey i \<in> set (booking_cascade db b) \<longleftrightarrow> (\<exists>r \<in> set (reviews db). r_id r = i \<and> r_booking_id r = b_id b)"
    by (auto simp: booking_review_iff [OF assms])
qed (auto simp: booking_cascade_def booking_notifications_def split: option.splits)

definition party :: "user \<Rightarrow> booking \<Rightarrow> bool" where
  "party u b \<longleftrightarrow> b_customer_id b = u_id u \<or> b_provider_id b = u_id u"

lemma user_cascade_keys:
  assumes "integrity db"
  shows "UserKey i \<in> set (user_cascade db u) \<longleftrightarrow> i = u_id u"
    and "BookingKey i \<in> set (user_cascade db u) \<longleftrightarrow> (\<exists>b \<in> set (bookings db). party u b \<and> b_id b = i)"
    and "ReviewKey i \<in> set (user_cascade db u) \<longleftrightarrow> (\<exists>r \<in> set (reviews db). r_id r = i
      \<and> (r_customer_id r = u_id u \<or> r_provider_id r = u_id u
         \<or> (\<exists>b \<in> set (bookings db). party u b \<and> r_booking_id r = b_id b)))"
    and "NotificationKey i \<in> set (user_cascade db u) \<longleftrightarrow> (\<exists>n \<in> set (notifications db). n_id n = i
      \<and> (n_user_id n = u_id u \<or> (\<exists>b \<in> set (bookings db). party u b \<and> n_booking_id n = Some (b_id b))))"
  by (auto simp: user_cascade_def customer_bookings_def provider_bookings_def customer_reviews_def
      provider_reviews_def user_notifications_def booking_cascade_keys [OF assms] party_def)

lemma filter_by_key:
  assumes "distinct (map key rows)" and "\<And>i. Q i \<longleftrightarrow> (\<exists>x \<in> set rows. key x = i \<and> P x)"
  shows "filter (\<lambda>x. \<not> Q (key x)) rows = filter (\<lambda>x. \<not> P x) rows"
  using assms(2) key_unique [OF assms(1)] by (intro filter_cong) auto

lemma orm_delete_user_sql:
  assumes ok: "integrity db"
  shows "orm_delete_user u db = sql_delete [u_id u] [] db"
proof -
  let ?K = "set (user_cascade db u)"
  have d: "distinct (map b_id (bookings db))" "distinct (map r_id (reviews db))" "distinct (map n_id (notifications db))"
    using ok by (simp_all add: integrity_defs)
  have 1: "filter (\<lambda>b. BookingKey (b_id b) \<notin> ?K) (bookings db) = filter (\<lambda>b. \<not> party u b) (bookings db)"
    by (rule filter_by_key [OF d(1)]) (auto simp: user_cascade_keys [OF ok])
  have 2: "filter (\<lambda>r. ReviewKey (r_id r) \<notin> ?K) (reviews db) = filter (\<lambda>r. \<not> (r_customer_id r = u_id u
      \<or> r_provider_id r = u_id u \<or> (\<exists>b \<in> set (bookings db). party u b \<and> r_booking_id r = b_id b))) (reviews db)"
    by (rule filter_by_key [OF d(2)]) (rule user_cascade_keys(3) [OF ok])
  have 3: "filter (\<lambda>n. NotificationKey (n_id n) \<notin> ?K) (notifications db) = filter (\<lambda>n. \<not> (n_user_id n = u_id u
      \<or> (\<exists>b \<in> set (bookings db). party u b \<and> n_booking_id n = Some (b_id b)))) (notifications db)"
    by (rule filter_by_key [OF d(3)]) (rule user_cascade_keys(4) [OF ok])
  let ?refers = "\<lambda>b. b_customer_id b \<in> set [u_id u] \<or> b_provider_id b \<in> set [u_id u]"
  have gone: "i \<in> set ([] @ map b_id (filter ?refers (bookings db))) \<longleftrightarrow> (\<exists>b \<in> set (bookings db). party u b \<and> i = b_id b)" for i
    by (auto simp: party_def)
  have 4: "filter (\<lambda>b. \<not> (\<exists>c \<in> set (bookings db). party u c \<and> b_id b = b_id c)) (bookings db)
      = filter (\<lambda>b. \<not> party u b) (bookings db)"
    by (rule filter_by_key [OF d(1)]) auto
  show ?thesis
    unfolding orm_delete_user_def remove_rows_def sql_delete_def Let_def 1 2 3 gone 4
    by (rule database.equality)
      (auto simp: user_cascade_keys(1) [OF ok] intro!: filter_cong split: option.splits)
qed

lemma orm_delete_booking_sql:
  assumes ok: "integrity db"
  shows "orm_delete_booking b db = sql_delete [] [b_id b] db"
proof -
  let ?K = "set (booking_cascade db b)"
  have d: "distinct (map r_id (reviews db))" "distinct (map n_id (notifications db))"
    using ok by (simp_all add: integrity_defs)
  have 1: "filter (\<lambda>r. ReviewKey (r_id r) \<notin> ?K) (reviews db) = filter (\<lambda>r. \<not> r_booking_id r = b_id b) (reviews db)"
    by (rule filter_by_key [OF d(1)]) (rule booking_cascade_keys(3) [OF ok])
  have 2: "filter (\<lambda>n. NotificationKey (n_id n) \<notin> ?K) (notifications db)
      = filter (\<lambda>n. \<not> n_booking_id n = Some (b_id b)) (notifications db)"
    by (rule filter_by_key [OF d(2)]) (rule booking_cascade_keys(4) [OF ok])
  show ?thesis
    unfolding orm_delete_booking_def remove_rows_def sql_delete_def Let_def 1 2
    by (rule database.equality)
      (auto simp: booking_cascade_keys(1,2) [OF ok] intro!: filter_cong split: option.splits)
qed

lemma sql_delete_integrity:
  assumes ok: "integrity db"
  shows "integrity (sql_delete us bs db)"
proof -
  let ?d = "sql_delete us bs db"
  define gone where
    "gone = set bs \<union> b_id ` {b \<in> set (bookings db). b_customer_id b \<in> set us \<or> b_provider_id b \<in> set us}"
  have rows: "users ?d = filter (\<lambda>u. u_id u \<notin> set us) (users db)"
      "bookings ?d = filter (\<lambda>b. b_id b \<notin> gone) (bookings db)"
      "reviews ?d = filter (\<lambda>r. r_booking_id r \<notin> gone \<and> r_customer_id r \<notin> set us \<and> r_provider_id r \<notin> set us) (reviews db)"
      "notifications ?d = filter (\<lambda>n. n_user_id n \<notin> set us
        \<and> (case n_booking_id n of None \<Rightarrow> True | Some i \<Rightarrow> i \<notin> gone)) (notifications db)"
    by (simp_all add: sql_delete_def Let_def gone_def cong: option.case_cong)
  have keys: "has_user ?d i \<longleftrightarrow> has_user db i \<and> i \<notin> set us" "has_booking ?d i \<longleftrightarrow> has_booking db i \<and> i \<notin> gone" for i
    by (auto simp: has_user_def has_booking_def rows)
  have kept: "b_customer_id b \<notin> set us" "b_provider_id b \<notin> set us" if "b \<in> set (bookings db)" "b_id b \<notin> gone" for b
    using that by (auto simp: gone_def)
  have "users_ok ?d" "bookings_ok ?d" "reviews_ok ?d" "notifications_ok ?d"
    using ok unfolding integrity_defs booking_checks_def review_checks_def notification_checks_def keys rows
    by (auto simp: distinct_map_filter kept split: option.splits)
  then show ?thesis by (simp add: integrity_def)
qed

lemma user_deletion:
  assumes "integrity db" and "u \<in> set (users db)"
  shows "b \<in> set (bookings (sql_delete [u_id u] [] db)) \<longleftrightarrow> b \<in> set (bookings db)
      \<and> booking_customer db b \<noteq> Some u \<and> booking_provider db b \<noteq> Some u"
    and "r \<in> set (reviews (sql_delete [u_id u] [] db)) \<longleftrightarrow> r \<in> set (reviews db)
      \<and> review_customer db r \<noteq> Some u \<and> review_provider db r \<noteq> Some u
      \<and> (\<forall>y. review_booking db r = Some y \<longrightarrow> booking_customer db y \<noteq> Some u \<and> booking_provider db y \<noteq> Some u)"
proof -
  have ids: "distinct (map b_id (bookings db))" using assms(1) by (simp add: integrity_defs)
  have refs: "get_user db i = Some u \<longleftrightarrow> u_id u = i" for i using assms by (simp add: get_user_iff)
  show "b \<in> set (bookings (sql_delete [u_id u] [] db)) \<longleftrightarrow> b \<in> set (bookings db)
      \<and> booking_customer db b \<noteq> Some u \<and> booking_provider db b \<noteq> Some u"
    by (auto simp: sql_delete_def Let_def booking_customer_def booking_provider_def refs dest: key_unique [OF ids])
  show "r \<in> set (reviews (sql_delete [u_id u] [] db)) \<longleftrightarrow> r \<in> set (reviews db)
      \<and> review_customer db r \<noteq> Some u \<and> review_provider db r \<noteq> Some u
      \<and> (\<forall>y. review_booking db r = Some y \<longrightarrow> booking_customer db y \<noteq> Some u \<and> booking_provider db y \<noteq> Some u)"
    by (auto simp: sql_delete_def Let_def booking_customer_def booking_provider_def review_customer_def
        review_provider_def review_booking_def refs get_booking_iff [OF assms(1)] image_iff)
qed

text \<open>
  C38: deleting an account or a booking. On a database with the constraints of the models, what the
  relationships cascade in the session is what the foreign keys cascade in the database, row for row:
  for an account its bookings on either side, their reviews and notifications, its reviews on either
  side and its notifications; for a booking its review and notifications. The result satisfies the
  constraints again; a booking or review stays exactly when none of its parties is gone.
\<close>

theorem cascades_agree:
  assumes ok: "integrity db" and u: "u \<in> set (users db)" and b: "b \<in> set (bookings db)"
  shows "orm_delete_user u db = sql_delete [u_id u] [] db
    \<and> orm_delete_booking b db = sql_delete [] [b_id b] db
    \<and> integrity (orm_delete_user u db) \<and> integrity (orm_delete_booking b db)
    \<and> set (bookings (orm_delete_user u db)) =
        {x \<in> set (bookings db). booking_customer db x \<noteq> Some u \<and> booking_provider db x \<noteq> Some u}
    \<and> set (reviews (orm_delete_user u db)) =
        {x \<in> set (reviews db). review_customer db x \<noteq> Some u \<and> review_provider db x \<noteq> Some u
           \<and> (\<forall>y. review_booking db x = Some y \<longrightarrow> booking_customer db y \<noteq> Some u \<and> booking_provider db y \<noteq> Some u)}
    \<and> set (reviews (orm_delete_booking b db)) = {x \<in> set (reviews db). review_booking db x \<noteq> Some b}"
  unfolding orm_delete_user_sql [OF ok] orm_delete_booking_sql [OF ok]
proof (intro conjI refl sql_delete_integrity ok)
  show "set (reviews (sql_delete [] [b_id b] db)) = {x \<in> set (reviews db). review_booking db x \<noteq> Some b}"
    using b by (auto simp: sql_delete_def Let_def review_booking_def get_booking_iff [OF ok])
qed (use user_deletion [OF ok u] in blast)+

definition full_db :: database where
  "full_db = no_bookings\<lparr>bookings := [sample_booking COMPLETED, (sample_booking PENDING)\<lparr>b_id := UUID 11, b_provider_id := UUID 3\<rparr>],
     reviews := [\<lparr>r_id = UUID 20, r_booking_id = UUID 10, r_customer_id = UUID 1, r_provider_id = UUID 2, r_rating = 5,
       r_comment = None, r_created_at = 0, r_updated_at = 0\<rparr>]\<rparr>"

lemma cascades_agree_witness:
  "bookings (orm_delete_user bob full_db) = [(sample_booking PENDING)\<lparr>b_id := UUID 11, b_provider_id := UUID 3\<rparr>]
    \<and> reviews (orm_delete_user bob full_db) = [] \<and> integrity (orm_delete_user bob full_db)"
proof -
  have ok: "integrity full_db"
    by (simp add: full_db_def integrity_defs checks_defs sample_defs user_sized_def booking_sized_def comment_ok_def pg_defs)
  have "bob \<in> set (users full_db)" "sample_booking COMPLETED \<in> set (bookings full_db)"
    by (simp_all add: full_db_def no_bookings_def)
  note agree = cascades_agree [OF ok this]
  then have "orm_delete_user bob full_db = sql_delete [u_id bob] [] full_db" by blast
  moreover have "bookings (sql_delete [u_id bob] [] full_db)
      = [(sample_booking PENDING)\<lparr>b_id := UUID 11, b_provider_id := UUID 3\<rparr>]"
    "reviews (sql_delete [u_id bob] [] full_db) = []"
    by (simp_all add: sql_delete_def full_db_def sample_defs)
  ultimately show ?thesis using agree by auto
qed

end
