(* ===== verification/Migrations.thy ===== *)
theory Migrations
  imports Security
begin

text \<open>
  \<open>alembic/versions\<close>: the three revisions of the database schema, as the operations they hand to
  Alembic, and the tables that the models declare. An operation changes the catalogue (tables,
  indexes, enum types) and the rows; it fails where PostgreSQL refuses it, and a failed operation
  stops its revision.
\<close>

section \<open>The catalogue\<close>

datatype col_type =
    UuidType | StringType nat | TextType | IntegerType | BooleanType | DateTimeTz
  | EnumType string "string list"

record column =
  c_name :: string
  c_type :: col_type
  c_nullable :: bool
  c_default :: "string option"  \<comment> \<open>\<open>server_default\<close>\<close>

record foreign_key =
  fk_column :: string
  fk_table :: string
  fk_target :: string
  fk_ondelete :: string

record table =
  tb_name :: string
  tb_columns :: "column list"
  tb_key :: "string list"
  tb_uniques :: "string list list"
  tb_checks :: "(string \<times> string) list"
  tb_fks :: "foreign_key list"

record index =
  ix_name :: string
  ix_table :: string
  ix_columns :: "string list"
  ix_unique :: bool

record catalogue =
  ct_tables :: "table list"
  ct_indexes :: "index list"
  ct_enums :: "(string \<times> string list) list"

definition empty_catalogue :: catalogue where
  "empty_catalogue = \<lparr>ct_tables = [], ct_indexes = [], ct_enums = []\<rparr>"

text \<open>A row gives each column its text, \<open>None\<close> for NULL; a table that does not exist has no rows.\<close>

type_synonym row = "string \<Rightarrow> string option"
type_synonym contents = "string \<Rightarrow> row list"

section \<open>Operations\<close>

datatype op =
    CreateTable table
  | DropTable string
  | CreateIndex index
  | DropIndex string string
  | AddColumn string column
  | AlterColumn string string bool
  | DropColumn string string
  | UpdateNull string string string  \<comment> \<open>\<open>UPDATE t SET c = v WHERE c IS NULL\<close>\<close>
  | DropTypeIfExists string

definition find_table :: "string \<Rightarrow> catalogue \<Rightarrow> table option" where
  "find_table n ct = find (\<lambda>t. tb_name t = n) (ct_tables ct)"

definition has_column :: "string \<Rightarrow> string \<Rightarrow> catalogue \<Rightarrow> bool" where
  "has_column t c ct = (case find_table t ct of None \<Rightarrow> False | Some tb \<Rightarrow> c \<in> set (map c_name (tb_columns tb)))"

definition enum_types :: "table \<Rightarrow> (string \<times> string list) list" where
  "enum_types t = concat (map (\<lambda>c. case c_type c of EnumType n vs \<Rightarrow> [(n, vs)] | _ \<Rightarrow> []) (tb_columns t))"

definition on_table :: "string \<Rightarrow> (table \<Rightarrow> table) \<Rightarrow> catalogue \<Rightarrow> catalogue" where
  "on_table n f ct = ct\<lparr>ct_tables := map (\<lambda>t. if tb_name t = n then f t else t) (ct_tables ct)\<rparr>"

definition set_nullable :: "string \<Rightarrow> bool \<Rightarrow> table \<Rightarrow> table" where
  "set_nullable c b t = t\<lparr>tb_columns := map (\<lambda>x. if c_name x = c then x\<lparr>c_nullable := b\<rparr> else x) (tb_columns t)\<rparr>"

text \<open>
  The effect on the catalogue. \<open>create_table\<close> creates the enum types of its columns, and
  \<open>drop_table\<close>, which knows only a name, leaves them; dropping a column takes its indexes along.
\<close>

fun alter_catalogue :: "op \<Rightarrow> catalogue \<Rightarrow> catalogue option" where
  "alter_catalogue (CreateTable t) ct =
     (if find_table (tb_name t) ct \<noteq> None
         \<or> (\<exists>n \<in> set (map fst (enum_types t)). n \<in> set (map fst (ct_enums ct)))
         \<or> (\<exists>k \<in> set (tb_fks t). \<not> has_column (fk_table k) (fk_target k) ct)
      then None
      else Some (ct\<lparr>ct_tables := ct_tables ct @ [t], ct_enums := ct_enums ct @ enum_types t\<rparr>))"
| "alter_catalogue (DropTable n) ct =
     (if find_table n ct = None
         \<or> (\<exists>t \<in> set (ct_tables ct). tb_name t \<noteq> n \<and> n \<in> set (map fk_table (tb_fks t)))
      then None
      else Some (ct\<lparr>ct_tables := filter (\<lambda>t. tb_name t \<noteq> n) (ct_tables ct),
                    ct_indexes := filter (\<lambda>i. ix_table i \<noteq> n) (ct_indexes ct)\<rparr>))"
| "alter_catalogue (CreateIndex i) ct =
     (if ix_name i \<in> set (map ix_name (ct_indexes ct))
         \<or> (\<exists>c \<in> set (ix_columns i). \<not> has_column (ix_table i) c ct)
      then None else Some (ct\<lparr>ct_indexes := ct_indexes ct @ [i]\<rparr>))"
| "alter_catalogue (DropIndex n t) ct =
     (if n \<notin> set (map ix_name (ct_indexes ct)) then None
      else Some (ct\<lparr>ct_indexes := filter (\<lambda>i. ix_name i \<noteq> n) (ct_indexes ct)\<rparr>))"
| "alter_catalogue (AddColumn t c) ct =
     (if find_table t ct = None \<or> has_column t (c_name c) ct then None
      else Some (on_table t (\<lambda>tb. tb\<lparr>tb_columns := tb_columns tb @ [c]\<rparr>) ct))"
| "alter_catalogue (AlterColumn t c b) ct =
     (if \<not> has_column t c ct then None else Some (on_table t (set_nullable c b) ct))"
| "alter_catalogue (DropColumn t c) ct =
     (if \<not> has_column t c ct then None
      else Some (on_table t (\<lambda>tb. tb\<lparr>tb_columns := filter (\<lambda>x. c_name x \<noteq> c) (tb_columns tb)\<rparr>)
        (ct\<lparr>ct_indexes := filter (\<lambda>i. \<not> (ix_table i = t \<and> c \<in> set (ix_columns i))) (ct_indexes ct)\<rparr>)))"
| "alter_catalogue (UpdateNull t c v) ct = (if has_column t c ct then Some ct else None)"
| "alter_catalogue (DropTypeIfExists n) ct =
     (if \<exists>t \<in> set (ct_tables ct). n \<in> set (map fst (enum_types t)) then None
      else Some (ct\<lparr>ct_enums := filter (\<lambda>e. fst e \<noteq> n) (ct_enums ct)\<rparr>))"

text \<open>What the rows must satisfy, and what happens to them.\<close>

fun rows_allow :: "op \<Rightarrow> contents \<Rightarrow> bool" where
  "rows_allow (CreateIndex i) r = (ix_unique i \<longrightarrow>
     distinct (filter (\<lambda>k. None \<notin> set k) (map (\<lambda>x. map x (ix_columns i)) (r (ix_table i)))))"
| "rows_allow (AddColumn t c) r = (c_nullable c \<or> c_default c \<noteq> None \<or> r t = [])"
| "rows_allow (AlterColumn t c b) r = (b \<or> (\<forall>x \<in> set (r t). x c \<noteq> None))"
| "rows_allow _ r = True"

fun alter_rows :: "op \<Rightarrow> contents \<Rightarrow> contents" where
  "alter_rows (CreateTable t) r = r(tb_name t := [])"
| "alter_rows (DropTable n) r = r(n := [])"
| "alter_rows (AddColumn t c) r = r(t := map (\<lambda>x. x(c_name c := c_default c)) (r t))"
| "alter_rows (DropColumn t c) r = r(t := map (\<lambda>x. x(c := None)) (r t))"
| "alter_rows (UpdateNull t c v) r =
     r(t := map (\<lambda>x. if x c = None then x(c := Some v) else x) (r t))"
| "alter_rows _ r = r"

definition apply_op :: "op \<Rightarrow> catalogue \<times> contents \<Rightarrow> (catalogue \<times> contents) option" where
  "apply_op o1 s = (case alter_catalogue o1 (fst s) of
       None \<Rightarrow> None
     | Some ct \<Rightarrow> if rows_allow o1 (snd s) then Some (ct, alter_rows o1 (snd s)) else None)"

fun migrate :: "op list \<Rightarrow> catalogue \<times> contents \<Rightarrow> (catalogue \<times> contents) option" where
  "migrate [] s = Some s"
| "migrate (o1 # os) s = (case apply_op o1 s of None \<Rightarrow> None | Some t \<Rightarrow> migrate os t)"

section \<open>Revision 0001\<close>

text \<open>\<open>sa.Column\<close> without and with a default; \<open>sa.Column(sa.DateTime(timezone=True), server_default=now())\<close>.\<close>

definition col :: "string \<Rightarrow> col_type \<Rightarrow> bool \<Rightarrow> column" where
  "col n ty nullable = \<lparr>c_name = n, c_type = ty, c_nullable = nullable, c_default = None\<rparr>"

definition stamp :: "string \<Rightarrow> column" where
  "stamp n = \<lparr>c_name = n, c_type = DateTimeTz, c_nullable = False, c_default = Some ''now()''\<rparr>"

definition cascade :: "string \<Rightarrow> string \<Rightarrow> foreign_key" where
  "cascade c t = \<lparr>fk_column = c, fk_table = t, fk_target = ''id'', fk_ondelete = ''CASCADE''\<rparr>"

text \<open>\<open>op.create_index\<close>: \<open>op.f\<close> marks a name as final.\<close>

definition ix :: "string \<Rightarrow> string \<Rightarrow> string list \<Rightarrow> bool \<Rightarrow> op" where
  "ix n t cs unique = CreateIndex \<lparr>ix_name = n, ix_table = t, ix_columns = cs, ix_unique = unique\<rparr>"

definition create_users :: "op list" where
  "create_users =
     [CreateTable \<lparr>tb_name = ''users'',
        tb_columns = [col ''id'' UuidType False, col ''name'' (StringType 255) False,
          col ''email'' (StringType 255) False,
          col ''role'' (EnumType ''user_role'' [''admin'', ''provider'', ''customer'']) False,
          stamp ''created_at'', stamp ''updated_at''],
        tb_key = [''id''], tb_uniques = [[''email'']], tb_checks = [], tb_fks = []\<rparr>,
      ix ''ix_users_email'' ''users'' [''email''] True]"

definition create_bookings :: "op list" where
  "create_bookings =
     [CreateTable \<lparr>tb_name = ''bookings'',
        tb_columns = [col ''id'' UuidType False, col ''customer_id'' UuidType False,
          col ''provider_id'' UuidType False, col ''service_name'' (StringType 255) False,
          col ''start_time'' DateTimeTz False, col ''end_time'' DateTimeTz False,
          col ''status'' (EnumType ''booking_status'' [''pending'', ''confirmed'', ''completed'', ''cancelled'']) False,
          stamp ''created_at'', stamp ''updated_at''],
        tb_key = [''id''], tb_uniques = [],
        tb_checks = [(''check_booking_end_after_start'', ''end_time > start_time''),
          (''check_booking_customer_not_provider'', ''customer_id != provider_id'')],
        tb_fks = [cascade ''customer_id'' ''users'', cascade ''provider_id'' ''users'']\<rparr>,
      ix ''ix_bookings_customer_id'' ''bookings'' [''customer_id''] False,
      ix ''ix_bookings_provider_id'' ''bookings'' [''provider_id''] False,
      ix ''ix_bookings_start_time'' ''bookings'' [''start_time''] False,
      ix ''ix_bookings_status'' ''bookings'' [''status''] False,
      ix ''ix_bookings_customer_status'' ''bookings'' [''customer_id'', ''status''] False,
      ix ''ix_bookings_provider_status'' ''bookings'' [''provider_id'', ''status''] False]"

definition create_reviews :: "op list" where
  "create_reviews =
     [CreateTable \<lparr>tb_name = ''reviews'',
        tb_columns = [col ''id'' UuidType False, col ''booking_id'' UuidType False,
          col ''customer_id'' UuidType False, col ''provider_id'' UuidType False,
          col ''rating'' IntegerType False, col ''comment'' TextType True,
          stamp ''created_at'', stamp ''updated_at''],
        tb_key = [''id''], tb_uniques = [[''booking_id'']],
        tb_checks = [(''check_review_rating_range'', ''rating >= 1 AND rating <= 5'')],
        tb_fks = [cascade ''booking_id'' ''bookings'', cascade ''customer_id'' ''users'',
          cascade ''provider_id'' ''users'']\<rparr>,
      ix ''ix_reviews_booking_id'' ''reviews'' [''booking_id''] True,
      ix ''ix_reviews_customer_id'' ''reviews'' [''customer_id''] False,
      ix ''ix_reviews_provider_id'' ''reviews'' [''provider_id''] False,
      ix ''ix_reviews_provider_rating'' ''reviews'' [''provider_id'', ''rating''] False]"

definition upgrade_0001 :: "op list" where
  "upgrade_0001 = create_users @ create_bookings @ create_reviews"

definition downgrade_0001 :: "op list" where
  "downgrade_0001 =
     [DropIndex ''ix_reviews_provider_rating'' ''reviews'', DropIndex ''ix_reviews_provider_id'' ''reviews'',
      DropIndex ''ix_reviews_customer_id'' ''reviews'', DropIndex ''ix_reviews_booking_id'' ''reviews'',
      DropTable ''reviews'',
      DropIndex ''ix_bookings_provider_status'' ''bookings'', DropIndex ''ix_bookings_customer_status'' ''bookings'',
      DropIndex ''ix_bookings_status'' ''bookings'', DropIndex ''ix_bookings_start_time'' ''bookings'',
      DropIndex ''ix_bookings_provider_id'' ''bookings'', DropIndex ''ix_bookings_customer_id'' ''bookings'',
      DropTable ''bookings'',
      DropIndex ''ix_users_email'' ''users'', DropTable ''users'',
      DropTypeIfExists ''booking_status'', DropTypeIfExists ''user_role'']"

section \<open>Revision 0002\<close>

text \<open>
  The backfill hash is bcrypt's hash of a secret drawn in the migration (\<open>token_hex(32)\<close>), which is
  then forgotten.
\<close>

definition unusable_hash :: "bcrypt \<Rightarrow> string \<Rightarrow> string \<Rightarrow> string option" where
  "unusable_hash bc salt random_secret = map_option decode_ascii (hashpw bc (utf8 random_secret) salt)"

definition upgrade_0002 :: "string \<Rightarrow> op list" where
  "upgrade_0002 hashed =
     [AddColumn ''users'' (col ''password_hash'' (StringType 255) True),
      UpdateNull ''users'' ''password_hash'' hashed,
      AlterColumn ''users'' ''password_hash'' False]"

definition downgrade_0002 :: "op list" where
  "downgrade_0002 = [DropColumn ''users'' ''password_hash'']"

section \<open>Revision 0003\<close>

definition upgrade_0003 :: "op list" where
  "upgrade_0003 =
     [CreateTable \<lparr>tb_name = ''notifications'',
        tb_columns = [col ''id'' UuidType False, col ''user_id'' UuidType False, col ''booking_id'' UuidType True,
          col ''type'' (EnumType ''notification_type'' [''booking_created'', ''booking_confirmed'',
            ''booking_cancelled'', ''booking_reminder'', ''booking_completed'', ''booking_overdue'']) False,
          col ''title'' (StringType 255) False, col ''message'' TextType False,
          (col ''is_read'' BooleanType False)\<lparr>c_default := Some ''false''\<rparr>,
          stamp ''created_at'', col ''read_at'' DateTimeTz True],
        tb_key = [''id''], tb_uniques = [[''user_id'', ''booking_id'', ''type'']], tb_checks = [],
        tb_fks = [cascade ''booking_id'' ''bookings'', cascade ''user_id'' ''users'']\<rparr>,
      ix ''ix_notifications_user_id'' ''notifications'' [''user_id''] False,
      ix ''ix_notifications_booking_id'' ''notifications'' [''booking_id''] False,
      ix ''ix_notifications_type'' ''notifications'' [''type''] False,
      ix ''ix_notifications_is_read'' ''notifications'' [''is_read''] False,
      ix ''ix_notifications_user_is_read'' ''notifications'' [''user_id'', ''is_read''] False,
      ix ''ix_notifications_user_created_at'' ''notifications'' [''user_id'', ''created_at''] False]"

definition downgrade_0003 :: "op list" where
  "downgrade_0003 =
     [DropIndex ''ix_notifications_user_created_at'' ''notifications'',
      DropIndex ''ix_notifications_user_is_read'' ''notifications'',
      DropIndex ''ix_notifications_is_read'' ''notifications'', DropIndex ''ix_notifications_type'' ''notifications'',
      DropIndex ''ix_notifications_booking_id'' ''notifications'', DropIndex ''ix_notifications_user_id'' ''notifications'',
      DropTable ''notifications'', DropTypeIfExists ''notification_type'']"

section \<open>The chain of revisions\<close>

record revision =
  rv_revision :: string
  rv_down_revision :: "string option"
  rv_upgrade :: "op list"
  rv_downgrade :: "op list"

definition revision_0001 :: revision where
  "revision_0001 = \<lparr>rv_revision = ''0001_initial_schema'', rv_down_revision = None,
     rv_upgrade = upgrade_0001, rv_downgrade = downgrade_0001\<rparr>"

definition revision_0002 :: "string \<Rightarrow> revision" where
  "revision_0002 hashed = \<lparr>rv_revision = ''0002_add_user_password_hash'', rv_down_revision = Some ''0001_initial_schema'',
     rv_upgrade = upgrade_0002 hashed, rv_downgrade = downgrade_0002\<rparr>"

definition revision_0003 :: revision where
  "revision_0003 = \<lparr>rv_revision = ''0003_add_notifications'', rv_down_revision = Some ''0002_add_user_password_hash'',
     rv_upgrade = upgrade_0003, rv_downgrade = downgrade_0003\<rparr>"

text \<open>The scripts of the directory, in no particular order.\<close>

definition scripts :: "string \<Rightarrow> revision list" where
  "scripts hashed = [revision_0003, revision_0001, revision_0002 hashed]"

text \<open>Alembic: the heads are the revisions that no other one follows; the path to one, oldest first.\<close>

definition heads :: "revision list \<Rightarrow> string list" where
  "heads rs = filter (\<lambda>i. Some i \<notin> set (map rv_down_revision rs)) (map rv_revision rs)"

fun lineage :: "revision list \<Rightarrow> nat \<Rightarrow> string option \<Rightarrow> revision list" where
  "lineage rs (Suc n) (Some i) = (case find (\<lambda>r. rv_revision r = i) rs of
       None \<Rightarrow> [] | Some r \<Rightarrow> lineage rs n (rv_down_revision r) @ [r])"
| "lineage rs _ _ = []"

definition after_version :: "string option \<Rightarrow> revision list \<Rightarrow> revision list" where
  "after_version version rs = (case version of
       None \<Rightarrow> rs | Some v \<Rightarrow> tl (dropWhile (\<lambda>r. rv_revision r \<noteq> v) rs))"

text \<open>
  \<open>run_migrations_online\<close> under \<open>alembic upgrade head\<close>: one connection, one transaction, so a revision
  that fails takes all of them back; the table \<open>alembic_version\<close> holds the version.
\<close>

definition run_migrations_online ::
  "revision list \<Rightarrow> string option \<times> catalogue \<times> contents \<Rightarrow> bool \<times> string option \<times> catalogue \<times> contents" where
  "run_migrations_online rs s = (case s of (version, db) \<Rightarrow>
     (case heads rs of
        [h] \<Rightarrow> (case migrate (concat (map rv_upgrade (after_version version (lineage rs (length rs) (Some h))))) db of
                  None \<Rightarrow> (False, s) | Some db' \<Rightarrow> (True, Some h, db'))
      | _ \<Rightarrow> (False, s)))"

section \<open>What the models declare\<close>

text \<open>
  \<open>mapped_column\<close> of \<open>app/models\<close>: \<open>index=True\<close> declares the index \<open>ix_<table>_<column>\<close>, unique when
  \<open>unique=True\<close> is given too, which alone would be a constraint. The relationships declare no column.
\<close>

record mapped =
  mc_column :: column
  mc_index :: bool
  mc_unique :: bool
  mc_fk :: "string option"

record model =
  md_name :: string
  md_columns :: "mapped list"
  md_uniques :: "string list list"
  md_checks :: "(string \<times> string) list"
  md_indexes :: "index list"

definition mcol :: "column \<Rightarrow> bool \<Rightarrow> bool \<Rightarrow> mapped" where
  "mcol c i u = \<lparr>mc_column = c, mc_index = i, mc_unique = u, mc_fk = None\<rparr>"

definition mfk :: "string \<Rightarrow> string \<Rightarrow> bool \<Rightarrow> bool \<Rightarrow> mapped" where
  "mfk c t nullable u = \<lparr>mc_column = col c UuidType nullable, mc_index = True, mc_unique = u, mc_fk = Some t\<rparr>"

definition idx :: "string \<Rightarrow> string \<Rightarrow> string list \<Rightarrow> index" where
  "idx n t cs = \<lparr>ix_name = n, ix_table = t, ix_columns = cs, ix_unique = False\<rparr>"

definition user_model :: model where
  "user_model = \<lparr>md_name = ''users'',
     md_columns = [mcol (col ''id'' UuidType False) False False, mcol (col ''name'' (StringType 255) False) False False,
       mcol (col ''email'' (StringType 255) False) True True,
       mcol (col ''role'' (EnumType ''user_role'' (map role_value [ADMIN, PROVIDER, CUSTOMER])) False) False False,
       mcol (col ''password_hash'' (StringType 255) False) False False,
       mcol (stamp ''created_at'') False False, mcol (stamp ''updated_at'') False False],
     md_uniques = [], md_checks = [], md_indexes = []\<rparr>"

definition booking_model :: model where
  "booking_model = \<lparr>md_name = ''bookings'',
     md_columns = [mcol (col ''id'' UuidType False) False False, mfk ''customer_id'' ''users'' False False,
       mfk ''provider_id'' ''users'' False False, mcol (col ''service_name'' (StringType 255) False) False False,
       mcol (col ''start_time'' DateTimeTz False) True False, mcol (col ''end_time'' DateTimeTz False) False False,
       mcol (col ''status'' (EnumType ''booking_status''
         (map status_value [PENDING, CONFIRMED, COMPLETED, CANCELLED])) False) True False,
       mcol (stamp ''created_at'') False False, mcol (stamp ''updated_at'') False False],
     md_uniques = [],
     md_checks = [(''check_booking_end_after_start'', ''end_time > start_time''),
       (''check_booking_customer_not_provider'', ''customer_id != provider_id'')],
     md_indexes = [idx ''ix_bookings_customer_status'' ''bookings'' [''customer_id'', ''status''],
       idx ''ix_bookings_provider_status'' ''bookings'' [''provider_id'', ''status'']]\<rparr>"

definition review_model :: model where
  "review_model = \<lparr>md_name = ''reviews'',
     md_columns = [mcol (col ''id'' UuidType False) False False, mfk ''booking_id'' ''bookings'' False True,
       mfk ''customer_id'' ''users'' False False, mfk ''provider_id'' ''users'' False False,
       mcol (col ''rating'' IntegerType False) False False, mcol (col ''comment'' TextType True) False False,
       mcol (stamp ''created_at'') False False, mcol (stamp ''updated_at'') False False],
     md_uniques = [], md_checks = [(''check_review_rating_range'', ''rating >= 1 AND rating <= 5'')],
     md_indexes = [idx ''ix_reviews_provider_rating'' ''reviews'' [''provider_id'', ''rating'']]\<rparr>"

definition notification_model :: model where
  "notification_model = \<lparr>md_name = ''notifications'',
     md_columns = [mcol (col ''id'' UuidType False) False False, mfk ''user_id'' ''users'' False False,
       mfk ''booking_id'' ''bookings'' True False,
       mcol (col ''type'' (EnumType ''notification_type'' (map ntype_value [BOOKING_CREATED, BOOKING_CONFIRMED,
         BOOKING_CANCELLED, BOOKING_REMINDER, BOOKING_COMPLETED, BOOKING_OVERDUE])) False) True False,
       mcol (col ''title'' (StringType 255) False) False False, mcol (col ''message'' TextType False) False False,
       mcol (col ''is_read'' BooleanType False) True False, mcol (stamp ''created_at'') False False,
       mcol (col ''read_at'' DateTimeTz True) False False],
     md_uniques = [[''user_id'', ''booking_id'', ''type'']], md_checks = [],
     md_indexes = [idx ''ix_notifications_user_is_read'' ''notifications'' [''user_id'', ''is_read''],
       idx ''ix_notifications_user_created_at'' ''notifications'' [''user_id'', ''created_at'']]\<rparr>"

definition declared_indexes :: "model \<Rightarrow> index list" where
  "declared_indexes m =
     map (\<lambda>c. \<lparr>ix_name = ''ix_'' @ md_name m @ ''_'' @ c_name (mc_column c), ix_table = md_name m,
               ix_columns = [c_name (mc_column c)], ix_unique = mc_unique c\<rparr>) (filter mc_index (md_columns m))
     @ md_indexes m"

definition declared_uniques :: "model \<Rightarrow> string list list" where
  "declared_uniques m =
     map (\<lambda>c. [c_name (mc_column c)]) (filter (\<lambda>c. mc_unique c \<and> \<not> mc_index c) (md_columns m)) @ md_uniques m"

definition declared_fks :: "model \<Rightarrow> foreign_key list" where
  "declared_fks m = concat (map (\<lambda>c. case mc_fk c of None \<Rightarrow> [] | Some t \<Rightarrow> [cascade (c_name (mc_column c)) t]) (md_columns m))"

section \<open>The migrated schema is the declared one\<close>

definition unique_keys :: "string list list \<Rightarrow> index list \<Rightarrow> string list set" where
  "unique_keys us is = set us \<union> set (map ix_columns (filter ix_unique is))"

definition same_defaults :: "table \<Rightarrow> model \<Rightarrow> bool" where
  "same_defaults t m \<longleftrightarrow> (\<forall>c \<in> set (tb_columns t). \<forall>d \<in> set (md_columns m).
     c_name (mc_column d) = c_name c \<longrightarrow> c_default (mc_column d) = c_default c \<or> c_name c = ''is_read'')"

definition shape :: "column \<Rightarrow> string \<times> col_type \<times> bool" where
  "shape c = (c_name c, c_type c, c_nullable c)"

definition table_agrees :: "catalogue \<Rightarrow> model \<Rightarrow> bool" where
  "table_agrees ct m \<longleftrightarrow> (case find_table (md_name m) ct of
       None \<Rightarrow> False
     | Some t \<Rightarrow>
         (let is = filter (\<lambda>i. ix_table i = md_name m) (ct_indexes ct) in
          set (map shape (tb_columns t)) = set (map (shape \<circ> mc_column) (md_columns m))
          \<and> length (tb_columns t) = length (md_columns m)
          \<and> tb_key t = [''id'']
          \<and> set (tb_fks t) = set (declared_fks m)
          \<and> set (tb_checks t) = set (md_checks m)
          \<and> set is = set (declared_indexes m)
          \<and> unique_keys (tb_uniques t) is = unique_keys (declared_uniques m) (declared_indexes m)
          \<and> same_defaults t m))"

fun alter_all :: "op list \<Rightarrow> catalogue \<Rightarrow> catalogue option" where
  "alter_all [] ct = Some ct"
| "alter_all (o1 # os) ct = (case alter_catalogue o1 ct of None \<Rightarrow> None | Some ct' \<Rightarrow> alter_all os ct')"

section \<open>Running a revision\<close>

fun run_rows :: "op list \<Rightarrow> contents \<Rightarrow> contents option" where
  "run_rows [] r = Some r"
| "run_rows (o1 # os) r = (if rows_allow o1 r then run_rows os (alter_rows o1 r) else None)"

lemma migrate_split:
  "alter_all os ct = Some ct' \<Longrightarrow> run_rows os r = Some r' \<Longrightarrow> migrate os (ct, r) = Some (ct', r')"
  by (induction os arbitrary: ct r) (auto simp: apply_op_def split: option.splits if_splits)

lemma migrate_append: "migrate (os @ ps) s = (case migrate os s of None \<Rightarrow> None | Some t \<Rightarrow> migrate ps t)"
  by (induction os arbitrary: s) (auto split: option.split)

definition after_0001 :: catalogue where
  "after_0001 = the (alter_all upgrade_0001 empty_catalogue)"

definition after_0002 :: catalogue where
  "after_0002 = the (alter_all (upgrade_0002 ''hash'') after_0001)"

definition after_0003 :: catalogue where
  "after_0003 = the (alter_all upgrade_0003 after_0002)"

lemma alter_0001:
  "alter_all upgrade_0001 empty_catalogue = Some after_0001"
  "alter_all downgrade_0001 after_0001 = Some empty_catalogue"
  by code_simp+

lemma alter_0002_any: "alter_all (upgrade_0002 h) ct = alter_all (upgrade_0002 ''hash'') ct"
  by (simp add: upgrade_0002_def split: option.split)

lemma alter_0002:
  "alter_all (upgrade_0002 h) after_0001 = Some after_0002"
  "alter_all downgrade_0002 after_0002 = Some after_0001"
proof -
  have "alter_all (upgrade_0002 ''hash'') after_0001 = Some after_0002" by code_simp
  then show "alter_all (upgrade_0002 h) after_0001 = Some after_0002" by (simp add: alter_0002_any [of h])
qed code_simp

lemma alter_0003:
  "alter_all upgrade_0003 after_0002 = Some after_0003" "alter_all downgrade_0003 after_0003 = Some after_0002"
  by code_simp+

lemma rows_0001:
  assumes "r ''users'' = []" "r ''bookings'' = []" "r ''reviews'' = []"
  shows "run_rows upgrade_0001 r = Some r"
  using assms
  by (simp add: upgrade_0001_def create_users_def create_bookings_def create_reviews_def ix_def fun_upd_idem)

lemma rows_downgrade_0001: "run_rows downgrade_0001 r = Some (r(''users'' := [], ''bookings'' := [], ''reviews'' := []))"
  by (simp add: downgrade_0001_def fun_upd_twist)

lemma rows_0002:
  "run_rows (upgrade_0002 h) r = Some (r(''users'' := map (\<lambda>x. x(''password_hash'' := Some h)) (r ''users'')))"
  by (simp add: upgrade_0002_def col_def comp_def)

lemma rows_downgrade_0002:
  "run_rows downgrade_0002 r = Some (r(''users'' := map (\<lambda>x. x(''password_hash'' := None)) (r ''users'')))"
  by (simp add: downgrade_0002_def)

lemma rows_0003:
  "r ''notifications'' = [] \<Longrightarrow> run_rows upgrade_0003 r = Some r"
  "run_rows downgrade_0003 r' = Some (r'(''notifications'' := []))"
  by (simp_all add: upgrade_0003_def downgrade_0003_def ix_def fun_upd_idem)

lemma one_head: "heads (scripts h) = [''0003_add_notifications'']"
  by (simp add: heads_def scripts_def revision_0001_def revision_0002_def revision_0003_def)

lemma whole_lineage:
  "lineage (scripts h) (length (scripts h)) (Some ''0003_add_notifications'') = [revision_0001, revision_0002 h, revision_0003]"
  by (simp add: scripts_def revision_0001_def revision_0002_def revision_0003_def numeral_3_eq_3)

definition to_do :: "string \<Rightarrow> string option \<Rightarrow> op list" where
  "to_do h version = concat (map rv_upgrade (after_version version [revision_0001, revision_0002 h, revision_0003]))"

lemma to_do_from:
  "to_do h None = upgrade_0001 @ upgrade_0002 h @ upgrade_0003"
  "to_do h (Some ''0001_initial_schema'') = upgrade_0002 h @ upgrade_0003"
  "to_do h (Some ''0002_add_user_password_hash'') = upgrade_0003"
  "to_do h (Some ''0003_add_notifications'') = []"
  by (simp_all add: to_do_def after_version_def revision_0001_def revision_0002_def revision_0003_def)

lemma upgrade_run:
  "run_migrations_online (scripts h) (version, db) = (case migrate (to_do h version) db of
     None \<Rightarrow> (False, version, db) | Some db' \<Rightarrow> (True, Some ''0003_add_notifications'', db'))"
  by (simp only: run_migrations_online_def one_head whole_lineage to_do_def prod.case list.case)

lemma up_runs:
  "migrate upgrade_0001 (empty_catalogue, \<lambda>_. []) = Some (after_0001, \<lambda>_. [])"
  "migrate (upgrade_0002 h) (after_0001, r) =
     Some (after_0002, r(''users'' := map (\<lambda>x. x(''password_hash'' := Some h)) (r ''users'')))"
  "r ''notifications'' = [] \<Longrightarrow> migrate upgrade_0003 (after_0002, r) = Some (after_0003, r)"
  by (intro migrate_split alter_0001 alter_0002 alter_0003 rows_0001 rows_0002 rows_0003; simp)+

lemma down_runs:
  "migrate downgrade_0001 (after_0001, \<lambda>_. []) = Some (empty_catalogue, \<lambda>_. [])"
  "migrate downgrade_0002 (after_0002, r) =
     Some (after_0001, r(''users'' := map (\<lambda>x. x(''password_hash'' := None)) (r ''users'')))"
  "migrate downgrade_0003 (after_0003, r) = Some (after_0002, r(''notifications'' := []))"
  by (intro migrate_split alter_0001 alter_0002 alter_0003 rows_downgrade_0002 rows_0003
      | simp add: rows_downgrade_0001 fun_upd_idem)+

section \<open>Properties\<close>

text \<open>
  C36: the migrations build what the models declare, from wherever a database stands. Upgrading an empty
  database to the head runs the three revisions in their order, and upgrading one that stands at an
  earlier version, whatever its rows, runs those that are missing and gives every user of the time
  before 0002 the unusable hash; upgrading again does nothing. The tables they leave are those of the
  models: the same columns with the same types and nullability, enum labels that are the values of the
  Python enums, primary and foreign keys, checks, indexes, and sets of columns that are unique; the
  server defaults too, but for \<open>notifications.is_read\<close>, whose default the models set themselves.
\<close>

theorem schema_matches_models:
  "\<exists>ct. run_migrations_online (scripts h) (None, empty_catalogue, \<lambda>_. []) = (True, Some ''0003_add_notifications'', ct, \<lambda>_. [])
     \<and> run_migrations_online (scripts h) (Some ''0001_initial_schema'', after_0001, r(''notifications'' := []))
         = (True, Some ''0003_add_notifications'', ct, r(''notifications'' := [],
              ''users'' := map (\<lambda>x. x(''password_hash'' := Some h)) (r ''users'')))
     \<and> run_migrations_online (scripts h) (Some ''0002_add_user_password_hash'', after_0002, r(''notifications'' := []))
         = (True, Some ''0003_add_notifications'', ct, r(''notifications'' := []))
     \<and> run_migrations_online (scripts h) (Some ''0003_add_notifications'', ct, r)
         = (True, Some ''0003_add_notifications'', ct, r)
     \<and> map tb_name (ct_tables ct) = map md_name [user_model, booking_model, review_model, notification_model]
     \<and> list_all (table_agrees ct) [user_model, booking_model, review_model, notification_model]"
proof -
  have agree: "list_all (table_agrees after_0003) [user_model, booking_model, review_model, notification_model]"
    "map tb_name (ct_tables after_0003) = map md_name [user_model, booking_model, review_model, notification_model]"
    by code_simp+
  have "migrate (to_do h None) (empty_catalogue, \<lambda>_. []) = Some (after_0003, \<lambda>_. [])"
    by (simp add: to_do_from migrate_append up_runs fun_upd_idem)
  moreover have "migrate (to_do h (Some ''0001_initial_schema'')) (after_0001, r(''notifications'' := [])) =
      Some (after_0003, r(''notifications'' := [], ''users'' := map (\<lambda>x. x(''password_hash'' := Some h)) (r ''users'')))"
    by (simp add: to_do_from(2) migrate_append up_runs)
  moreover have "migrate (to_do h (Some ''0002_add_user_password_hash'')) (after_0002, r(''notifications'' := []))
      = Some (after_0003, r(''notifications'' := []))"
    by (simp add: to_do_from(3) up_runs)
  ultimately show ?thesis
    by (intro exI [of _ after_0003]) (simp only: upgrade_run agree option.case simp_thms to_do_from(4) migrate.simps)
qed


end
