(* ===== verification/Migration_Env.thy ===== *)
theory Migration_Env
  imports Migrations
begin

text \<open>
  \<open>alembic/env.py\<close>: the URL of the database goes from the settings into Alembic's configuration, a
  \<open>ConfigParser\<close> of Python with basic interpolation, and from there to the engine or to the offline
  script. Interpolation gives \<open>%\<close> a meaning, which the module does not escape.
\<close>

section \<open>Basic interpolation\<close>

datatype config_error = InvalidValue | InterpolationSyntax | InterpolationMissing string | InterpolationDepth

text \<open>\<open>%(name)s\<close>, the \<open>%(\<close> read: the name, up to the first parenthesis, and the rest.\<close>

definition reference :: "string \<Rightarrow> (string \<times> string) option" where
  "reference s =
     (let name = takeWhile (\<lambda>c. c \<noteq> CHR '')'') s; rest = dropWhile (\<lambda>c. c \<noteq> CHR '')'') s
      in if name \<noteq> [] \<and> prefix '')s'' rest then Some (name, drop 2 rest) else None)"

lemma reference_shorter: "reference s = Some (n, r) \<Longrightarrow> length r < length s"
proof -
  assume "reference s = Some (n, r)"
  then have "length r < length (dropWhile (\<lambda>c. c \<noteq> CHR '')'') s)"
    by (auto simp: reference_def Let_def prefix_def split: if_splits)
  also have "\<dots> \<le> length s" by (rule length_dropWhile_le)
  finally show ?thesis .
qed

text \<open>\<open>before_set\<close>: \<open>%%\<close> and references taken out, no \<open>%\<close> may remain.\<close>

fun drop_escapes :: "string \<Rightarrow> string" where
  "drop_escapes (c # d # s) = (if c = CHR ''%'' \<and> d = CHR ''%'' then drop_escapes s else c # drop_escapes (d # s))"
| "drop_escapes s = s"

function drop_references :: "string \<Rightarrow> string" where
  "drop_references [] = []"
| "drop_references (c # s) =
     (if c = CHR ''%'' \<and> prefix ''('' s
      then case reference (tl s) of None \<Rightarrow> c # drop_references s | Some (n, r) \<Rightarrow> drop_references r
      else c # drop_references s)"
  by pat_completeness auto
termination
  by (relation "measure length") (auto dest: reference_shorter simp: prefix_def)

definition before_set :: "string \<Rightarrow> config_error + string" where
  "before_set v = (if CHR ''%'' \<in> set (drop_references (drop_escapes v)) then Inl InvalidValue else Inr v)"

text \<open>\<open>before_get\<close>; values with a \<open>%\<close> are interpolated in turn, to a depth of 10.\<close>

definition MAX_INTERPOLATION_DEPTH :: nat where
  "MAX_INTERPOLATION_DEPTH = 10"

definition cat :: "config_error + string \<Rightarrow> config_error + string \<Rightarrow> config_error + string" where
  "cat x y = (case x of Inl e \<Rightarrow> Inl e | Inr a \<Rightarrow> (case y of Inl e \<Rightarrow> Inl e | Inr b \<Rightarrow> Inr (a @ b)))"

function interpolate :: "(string \<Rightarrow> string option) \<Rightarrow> nat \<Rightarrow> string \<Rightarrow> config_error + string" where
  "interpolate vars k [] = Inr []"
| "interpolate vars k (c # s) =
     (if c \<noteq> CHR ''%'' then cat (Inr [c]) (interpolate vars k s)
      else if prefix ''%'' s then cat (Inr ''%'') (interpolate vars k (tl s))
      else if prefix ''('' s
      then (case reference (tl s) of
              None \<Rightarrow> Inl InterpolationSyntax
            | Some (n, r) \<Rightarrow>
                (case vars (py_lower n) of
                   None \<Rightarrow> Inl (InterpolationMissing n)
                 | Some v \<Rightarrow>
                     if CHR ''%'' \<in> set v
                     then (case k of 0 \<Rightarrow> Inl InterpolationDepth
                           | Suc k' \<Rightarrow> cat (interpolate vars k' v) (interpolate vars k r))
                     else cat (Inr v) (interpolate vars k r)))
      else Inl InterpolationSyntax)"
  by pat_completeness auto
termination
  by (relation "measures [\<lambda>(vars, k, s). k, \<lambda>(vars, k, s). length s]")
    (auto dest: reference_shorter simp: prefix_def)

section \<open>The module\<close>

datatype migration_run =
    Printed string "op list"  \<comment> \<open>the URL that gives the dialect, and what is written as SQL\<close>
  | Ran string "bool \<times> string option \<times> catalogue \<times> contents"  \<comment> \<open>the URL of the engine, and the outcome\<close>

text \<open>\<open>options\<close>: the other options of the section, under names in lower case.\<close>

definition main_options :: "(string \<Rightarrow> string option) \<Rightarrow> string \<Rightarrow> string \<Rightarrow> string option" where
  "main_options options url = options(''sqlalchemy.url'' \<mapsto> url)"

definition get_url :: "(string \<Rightarrow> string option) \<Rightarrow> string \<Rightarrow> config_error + string" where
  "get_url options url = interpolate (main_options options url) MAX_INTERPOLATION_DEPTH url"

text \<open>The offline mode has no database to ask for its version: the script starts at the base.\<close>

definition offline_script :: "revision list \<Rightarrow> op list" where
  "offline_script rs = (case heads rs of
       [h] \<Rightarrow> concat (map rv_upgrade (lineage rs (length rs) (Some h))) | _ \<Rightarrow> [])"

definition run_env :: "(string \<Rightarrow> string option) \<Rightarrow> bool \<Rightarrow> string \<Rightarrow> revision list
    \<Rightarrow> string option \<times> catalogue \<times> contents \<Rightarrow> config_error + migration_run" where
  "run_env options offline database_url rs s =
     (case before_set database_url of
        Inl e \<Rightarrow> Inl e
      | Inr stored \<Rightarrow>
          (case get_url options stored of
             Inl e \<Rightarrow> Inl e
           | Inr url \<Rightarrow> Inr (if offline then Printed url (offline_script rs) else Ran url (run_migrations_online rs s))))"

section \<open>What becomes of the URL\<close>

definition double_percent :: "string \<Rightarrow> string" where
  "double_percent s = concat (map (\<lambda>c. if c = CHR ''%'' then ''%%'' else [c]) s)"

lemma drop_escapes_double: "drop_escapes (double_percent s) = filter (\<lambda>c. c \<noteq> CHR ''%'') s"
proof (induction s)
  case (Cons c s)
  have "c \<noteq> CHR ''%'' \<Longrightarrow> drop_escapes (c # t) = c # drop_escapes t" for t by (cases t) auto
  with Cons show ?case by (auto simp: double_percent_def)
qed (simp add: double_percent_def)

lemma drop_references_plain: "CHR ''%'' \<notin> set s \<Longrightarrow> drop_references s = s"
  by (induction s) auto

lemma drop_escapes_plain: "CHR ''%'' \<notin> set s \<Longrightarrow> drop_escapes s = s"
  by (induction s rule: drop_escapes.induct) auto

lemma interpolate_plain: "CHR ''%'' \<notin> set s \<Longrightarrow> interpolate vars k s = Inr s"
  by (induction s) (auto simp: cat_def)

lemma interpolate_double: "interpolate vars k (double_percent s) = Inr s"
  by (induction s) (auto simp: double_percent_def cat_def)

lemma drop_escapes_kept:
  "CHR ''%'' \<notin> set a \<Longrightarrow> d \<noteq> CHR ''%'' \<Longrightarrow> drop_escapes (a @ CHR ''%'' # d # s) = a @ CHR ''%'' # drop_escapes (d # s)"
proof (induction a)
  case (Cons c a)
  then have "drop_escapes (c # t) = c # drop_escapes t" for t by (cases t) auto
  with Cons show ?case by simp
qed simp

lemma drop_references_kept:
  "CHR ''%'' \<notin> set a \<Longrightarrow> \<not> prefix ''('' s \<Longrightarrow> CHR ''%'' \<in> set (drop_references (a @ CHR ''%'' # s))"
  by (induction a) auto

lemma drop_escapes_head: "d \<noteq> CHR ''%'' \<Longrightarrow> \<exists>t. drop_escapes (d # s) = d # t"
  by (cases s) auto

text \<open>
  C39: the environment of the migrations. A database URL without a percent sign reaches the engine, or
  the offline script, as it is set. In a URL with one, the first percent sign followed by anything but
  another or a parenthesis, as in an encoded password, makes the module fail before any migration,
  online and offline. With its percent signs doubled every URL arrives.
\<close>

theorem env_url:
  "(CHR ''%'' \<notin> set url \<longrightarrow> run_env options offline url rs s =
      Inr (if offline then Printed url (offline_script rs) else Ran url (run_migrations_online rs s)))
   \<and> (CHR ''%'' \<notin> set a \<and> d \<noteq> CHR ''%'' \<and> d \<noteq> CHR ''('' \<longrightarrow>
        run_env options offline (a @ CHR ''%'' # d # rest) rs s = Inl InvalidValue)
   \<and> run_env options offline (double_percent url) rs s =
      Inr (if offline then Printed url (offline_script rs) else Ran url (run_migrations_online rs s))"
proof (intro conjI impI)
  show "run_env options offline url rs s =
      Inr (if offline then Printed url (offline_script rs) else Ran url (run_migrations_online rs s))"
    if "CHR ''%'' \<notin> set url"
    using that by (simp add: run_env_def before_set_def get_url_def drop_escapes_plain drop_references_plain interpolate_plain)
next
  assume a: "CHR ''%'' \<notin> set a \<and> d \<noteq> CHR ''%'' \<and> d \<noteq> CHR ''(''"
  with drop_escapes_head obtain t where "drop_escapes (d # rest) = d # t" by blast
  moreover have "CHR ''%'' \<in> set (drop_references (a @ CHR ''%'' # d # t))"
    by (rule drop_references_kept) (use a in auto)
  ultimately show "run_env options offline (a @ CHR ''%'' # d # rest) rs s = Inl InvalidValue"
    using a by (simp add: run_env_def before_set_def drop_escapes_kept)
next
  show "run_env options offline (double_percent url) rs s =
      Inr (if offline then Printed url (offline_script rs) else Ran url (run_migrations_online rs s))"
    by (simp add: run_env_def before_set_def get_url_def drop_escapes_double drop_references_plain interpolate_double)
qed

lemma env_url_witness:
  "run_env Map.empty False ''postgresql://app:p%40ss@db/app'' (scripts ''h'') (None, empty_catalogue, \<lambda>_. []) = Inl InvalidValue"
  using env_url [where a = "''postgresql://app:p''" and d = "CHR ''4''" and rest = "''0ss@db/app''" and offline = False
      and url = "[]" and options = Map.empty and rs = "scripts ''h''" and s = "(None, empty_catalogue, \<lambda>_. [])"] by simp

end
