(* ===== verification/Spec2Isabelle.thy ===== *)
theory Spec2Isabelle
  imports Races Platform Bodies Relations Migration_Env
begin

text \<open>
  A verification of the back end of a service booking platform: a FastAPI application over PostgreSQL
  (SQLAlchemy) with a Redis queue, its summary worker, its background jobs and its schema migrations.
  Everything under \<open>src/app\<close> and \<open>src/alembic\<close> that decides, computes or stores is translated
  into executable definitions; the theorems say what requests, jobs, worker and migrations do.

  The program and its parts.
  A request comes in at a route (\<open>app/api/v1\<close>), which resolves the caller from a bearer token, has the
  parameters and the body validated (\<open>app/schemas\<close>) and calls one function of a service
  (\<open>app/services\<close>) in a database session of its own (\<open>app/db/session.py\<close>). The services read and write
  users, bookings, reviews and notifications (\<open>app/models\<close>); those that change bookings also write
  notifications in the same transaction. An exception is turned into a JSON answer by the handlers of
  \<open>app/main.py\<close>. A scheduler in the same process (\<open>app/jobs\<close>) runs two jobs that write reminders. A
  review summary is computed by another process: the route stores a job record in Redis and pushes a
  message, the worker (\<open>app/workers\<close>) pops it, computes, and stores the result in the record.

  How a program becomes definitions.
  \<^item> \<open>Prelude\<close>: a service is a function from a state to an exception or a value and the next state
    (\<open>svc\<close>), composed with \<open>bindE\<close>, \<open>thenE\<close>, \<open>catchE\<close>, \<open>raise_if\<close>; tables are lists of rows; pages; and
    \<open>strip\<close>, \<open>lower\<close>, \<open>split\<close> of Python strings, whose characters are those of Latin-1.
  \<^item> \<open>Uuid\<close>, \<open>Clock\<close>, \<open>Json\<close>: identifiers as words of 128 bits with the parser of \<open>uuid.UUID\<close>, points in
    time as whole microseconds with \<open>isoformat\<close>, and the text of \<open>json.dumps\<close> with a parser for
    \<open>json.loads\<close>, which reads back what was written.
  \<^item> \<open>Models\<close>, \<open>Integrity\<close>: the enumerations, the rows, and inserts and updates that fail exactly where
    a size, a check, a key or a unique constraint of \<open>app/models\<close> is violated, or a text holds a NUL;
    the locale \<open>keyed_table\<close> and
    its extension \<open>updatable_table\<close> state what a lookup gives after an insert or an update.
  \<^item> \<open>Session\<close>: what is committed (\<open>store\<close>), what the transaction sees (\<open>txn\<close>), and the pending changes
    of the unit of work, with \<open>flush\<close>, \<open>commit\<close> and \<open>rollback\<close>. Queries fail
    when a parameter does not fit its SQL type. Clocks, new identifiers and the time zone
    come from an \<open>environment\<close>. \<open>open_session\<close> and \<open>with_session\<close> are \<open>SessionLocal\<close> and \<open>get_db\<close>.
  \<^item> \<open>Config\<close>, \<open>Security\<close>, \<open>Auth\<close>: settings, passwords and tokens, registration, login, the caller.
  \<^item> \<open>Notifications\<close>, \<open>Providers\<close>, \<open>Bookings\<close>, \<open>Reviews\<close>, \<open>Ratings\<close>: the services of \<open>app/services\<close>, a
    definition per function and per group of its statements, in their order and with every refusal.
  \<^item> \<open>Relations\<close>: the relationships between the models, and what deleting a user or a booking would do
    through the session and through the foreign keys.
  \<^item> \<open>Redis\<close>, \<open>Review_Summary\<close>, \<open>Worker\<close>, \<open>Worker_Limit\<close>: the commands sent to Redis, the jobs with the
    checks of the response model and of its nested result, the polling loop and its limit.
  \<^item> \<open>Records\<close>, \<open>Platform\<close>: what holds of the records and the queue in Redis whichever commands fail, and
    the database and Redis as requests, rounds of jobs and workers change them, in any order.
  \<^item> \<open>Jobs\<close>, \<open>Scheduler\<close>: the two jobs, and the asyncio task as a machine whose steps are the stretches
    of code between two suspensions.
  \<^item> \<open>Schemas\<close>, \<open>Errors\<close>, \<open>Api\<close>, \<open>Summary_Api\<close>, \<open>Routing\<close>, \<open>Http\<close>: validation, error answers and the
    middleware for the security headers, the routes, the table by which a path finds its function, and
    the whole way from a request (method, path, token, query or body) to its answer, in FastAPI's order.
  \<^item> \<open>Bodies\<close>: the bodies of answers as the response models write and accept them, and the status and
    model that each route declares. How pydantic writes a point in time is a parameter.
  \<^item> \<open>Startup\<close>, \<open>Migrations\<close>, \<open>Migration_Env\<close>: the CORS origins, the Redis pool, health checks; the schema
    revisions and what the models declare; the way of the database URL through Alembic's configuration,
    the online run in a transaction and the offline script.

  What the lemmas show.
  \<^item> The booking service refines an abstract specification: \<open>lifecycle\<close> (\<open>Booking_Rules\<close>) is the machine of
    a booking's status, \<open>booking_step\<close> (\<open>Schedule\<close>) that of the whole table, with its invariants; every
    handler that succeeds makes such a step and every one that fails makes none (locales
    \<open>atomic_handler\<close>, \<open>booking_handler\<close>). \<open>Cancellation\<close> and \<open>Review_Changes\<close> give the outcome of
    the other handlers on every branch.
  \<^item> The system (\<open>System\<close>): any sequence of requests and of rounds of jobs keeps integrity, no double
    booking, reviews only of completed bookings by their customers, and unique normal emails, and takes
    nothing back that is final. \<open>lawful_handler\<close> extends the contract of a handler, and \<open>route_contract\<close>
    (\<open>Routes\<close>) carries a property of handlers to all routes; it is interpreted for lawfulness (\<open>System\<close>),
    authentication and atomicity (\<open>Access\<close>), privacy (\<open>Answers\<close>), the absence of internal errors
    (\<open>Robustness\<close>) and the content of answers (\<open>Responses\<close>). \<open>Bodies\<close> adds that every success has the
    declared status and a body from which the declared model reads back what was answered.
  \<^item> \<open>Routing\<close> and \<open>Http\<close>: no route hides another, the documented request of every call reaches it with its
    arguments, and without a valid token only the open routes do more than refuse.
  \<^item> \<open>Races\<close>: requests are atomic in \<open>System\<close>, which is what one process with one worker thread gives;
    here two of them interleave between checks and writes, and the reservation of a slot is not safe
    against that, while the review of a booking is.
  \<^item> The summary jobs: from the request to the result (\<open>Worker\<close>), what a failing Redis leaves behind, the
    order in which messages are consumed, and that a worker with a limit ends (\<open>Worker_Limit\<close>).
  \<^item> The platform (\<open>Platform\<close>): in every state reached from a fresh start the queue holds only tasks for
    existing providers and every readable record is one the response model accepts; hence no request is
    answered with an internal error, and a worker with a reachable Redis answers each message that waits
    with a completed or a failed job. The triples \<open>held\<close> (\<open>Records\<close>) carry the invariants through the
    commands.
  \<^item> \<open>Relations\<close>: the deletions that the session cascades are those that the foreign keys cascade.
  \<^item> The scheduler: one loop at most as long as \<open>start\<close> and \<open>stop\<close> do not overlap, a leak when they do,
    and quiescence after \<open>stop\<close>.
  \<^item> Ratings: the average, rounded by PostgreSQL's \<open>numeric\<close>, by the conversion to a double and by \<open>round\<close>,
    is a nearest number of hundredths for up to a million million reviews.
  \<^item> Migrations: the tables that the revisions build are those of the models; downgrades undo upgrades;
    and a URL without a percent sign reaches the engine unchanged, while one with an encoded character
    stops the migration before it starts.

  Libraries are parameters, with hypotheses that state their documentation: \<open>bcrypt\<close> (\<open>bcrypt_ok\<close>: a
  hash verifies its own password), PyJWT (\<open>jwt_ok\<close>: a token decodes, until it expires, to the claims it was
  made from), Redis (\<open>redis_ok\<close>: lists are queues, a key reads back until its time is up; commands may
  fail, by a function of their number), the collation, the texts of pydantic's messages, and the texts of
  times and tokens (\<open>wire_ok\<close>: they read back). Each is
  instantiated in the witnesses. The rules of SQL, of Starlette's routing and of Alembic's operations are
  written out as documented where the code relies on them.

  Bounds. Loops over lists are structural recursion. The polling loop of the worker and the loop of the
  scheduler are driven by the list of what happens (polls, signals, wake-ups), so each run is finite
  and every length is covered. The parser of JSON has the length of the text as its fuel, one unit per
  value, which is enough since a value takes a character; the walk along the revisions has their number,
  one unit per revision. Interpolation
  in a configuration stops at the depth of 10 that \<open>ConfigParser\<close> has. Times and identifiers have no bound but the 128 bits of a UUID.

  Not modelled, and why. Sockets, threads, the engine and its pool, and the log are the operating system's
  or the libraries'. No service follows a relationship of the ORM or deletes a user or a booking, so what
  \<open>Relations\<close> says of cascades is about the models alone. In \<open>Platform\<close> a request, a round of jobs and a
  poll are each one step: commands that two processes send to Redis at once are not interleaved. The text
  of the OpenAPI pages and the CORS middleware, which answers preflight requests before any route, are
  FastAPI's. The calls of \<open>Api\<close> have typed parameters; \<open>Http\<close> refuses what cannot be read as an identifier
  and an absent body, but a number or date of the wrong form, also refused with 422, and a body that is
  not JSON, refused even before the caller is resolved, are left to FastAPI. Reading the environment is
  pydantic-settings; the set-up of logging and the text of the SQL of the offline script are Alembic's.
  Characters beyond Latin-1 are left out.
\<close>

end
